(* ===== verification/Registry_Prelude.thy ===== *)
theory Registry_Prelude
  imports Main "HOL-Library.Char_ord" "HOL-Library.List_Lexorder" "HOL-Library.Sublist"
begin

text \<open>
  Shared vocabulary of the development.  Go strings are byte strings, so they are
  \<^typ>\<open>string\<close> (a list of \<^typ>\<open>char\<close>); the order on strings is Go's byte-wise
  lexicographic order (\<^theory_text>\<open>HOL-Library.List_Lexorder\<close> over \<^theory_text>\<open>Char_ord\<close>).
  The theory models the functions of Go's \<^verbatim>\<open>strings\<close> package that the
  sources call, the wrap-around of a signed 64-bit integer, and three generic interfaces:
  choosing the best candidates under a strict total preference (locale
  \<open>preference\<close>), state changes whose order does not matter (locale
  \<open>commuting_ops\<close>) and concrete steps that converge in a view of their state (locale
  \<open>convergent_view\<close>), with the greatest-stamp register \<open>max_step\<close> as the
  commuting update the replication rules refine.
\<close>

named_theorems go_simps \<open>definitions of the modelled Go library functions\<close>

type_synonym 'v gomap = "string \<Rightarrow> 'v option"

subsection \<open>Go's strings package\<close>

text \<open>\<^verbatim>\<open>strings.HasPrefix(s, p)\<close> and \<^verbatim>\<open>strings.HasSuffix(s, p)\<close>.\<close>

definition has_prefix :: "string \<Rightarrow> string \<Rightarrow> bool" where
  "has_prefix s p \<longleftrightarrow> take (length p) s = p"

definition has_suffix :: "string \<Rightarrow> string \<Rightarrow> bool" where
  "has_suffix s p \<longleftrightarrow> has_prefix (rev s) (rev p)"

text \<open>\<^verbatim>\<open>strings.TrimPrefix\<close>, \<^verbatim>\<open>strings.TrimSuffix\<close>, \<^verbatim>\<open>strings.CutSuffix\<close>, \<^verbatim>\<open>strings.CutPrefix\<close>.\<close>

definition trim_prefix :: "string \<Rightarrow> string \<Rightarrow> string" where
  "trim_prefix s p = (if has_prefix s p then drop (length p) s else s)"

definition trim_suffix :: "string \<Rightarrow> string \<Rightarrow> string" where
  "trim_suffix s p = (if has_suffix s p then take (length s - length p) s else s)"

definition cut_suffix :: "string \<Rightarrow> string \<Rightarrow> string \<times> bool" where
  "cut_suffix s p = (trim_suffix s p, has_suffix s p)"

definition cut_prefix :: "string \<Rightarrow> string \<Rightarrow> string \<times> bool" where
  "cut_prefix s p = (trim_prefix s p, has_prefix s p)"

text \<open>\<^verbatim>\<open>strings.Contains\<close>.\<close>

fun contains_str :: "string \<Rightarrow> string \<Rightarrow> bool" where
  "contains_str [] sub = (sub = [])"
| "contains_str (c # s) sub = (has_prefix (c # s) sub \<or> contains_str s sub)"

text \<open>
  \<^verbatim>\<open>strings.Cut(s, sep)\<close>: the text before the first separator, the text after it, and
  whether the separator occurs.
\<close>

fun str_cut :: "string \<Rightarrow> string \<Rightarrow> string \<times> string \<times> bool" where
  "str_cut [] sep = ([], [], sep = [])"
| "str_cut (c # s) sep =
     (if has_prefix (c # s) sep then ([], drop (length sep) (c # s), True)
      else (case str_cut s sep of (before, after, found) \<Rightarrow> (c # before, after, found)))"

text \<open>\<^verbatim>\<open>strings.Split(s, sep)\<close> for a one-byte separator, and \<^verbatim>\<open>strings.Join\<close>.\<close>

fun split_on :: "char \<Rightarrow> string \<Rightarrow> string list" where
  "split_on sep [] = [[]]"
| "split_on sep (c # s) =
     (if c = sep then [] # split_on sep s
      else (case split_on sep s of [] \<Rightarrow> [[c]] | w # ws \<Rightarrow> (c # w) # ws))"

fun str_join :: "string \<Rightarrow> string list \<Rightarrow> string" where
  "str_join sep [] = []"
| "str_join sep [w] = w"
| "str_join sep (w # v # ws) = w @ sep @ str_join sep (v # ws)"

text \<open>\<^verbatim>\<open>strings.Compare\<close>.\<close>

definition str_compare :: "string \<Rightarrow> string \<Rightarrow> int" where
  "str_compare a b = (if a = b then 0 else if a < b then -1 else 1)"

text \<open>\<^verbatim>\<open>strings.TrimSpace\<close> on the ASCII white space, and \<^verbatim>\<open>strings.Fields\<close>.\<close>

definition is_space :: "char \<Rightarrow> bool" where
  "is_space c \<longleftrightarrow> c \<in> {CHR '' '', CHR 0x09, CHR 0x0A, CHR 0x0B, CHR 0x0C, CHR 0x0D}"

definition trim_space :: "string \<Rightarrow> string" where
  "trim_space s = rev (dropWhile is_space (rev (dropWhile is_space s)))"

text \<open>\<^verbatim>\<open>strings.ToLower\<close> on ASCII letters, and \<^verbatim>\<open>strings.EqualFold\<close>.\<close>

definition lower_char :: "char \<Rightarrow> char" where
  "lower_char c = (if CHR ''A'' \<le> c \<and> c \<le> CHR ''Z'' then char_of (of_char c + 32 :: nat) else c)"

definition to_lower :: "string \<Rightarrow> string" where
  "to_lower s = map lower_char s"

definition equal_fold :: "string \<Rightarrow> string \<Rightarrow> bool" where
  "equal_fold a b \<longleftrightarrow> to_lower a = to_lower b"

lemmas [go_simps] =
  has_prefix_def has_suffix_def trim_prefix_def trim_suffix_def cut_suffix_def cut_prefix_def
  str_compare_def is_space_def trim_space_def lower_char_def to_lower_def equal_fold_def

subsection \<open>Signed 64-bit integers\<close>

text \<open>Go's \<^verbatim>\<open>int64\<close> (and \<^verbatim>\<open>int\<close> on the deployed platforms) keeps the low 64 bits of a result.\<close>

definition wrap64 :: "int \<Rightarrow> int" where
  "wrap64 x = (x + 2 ^ 63) mod 2 ^ 64 - 2 ^ 63"

lemma wrap64_id: "- (2 ^ 63) \<le> x \<Longrightarrow> x < 2 ^ 63 \<Longrightarrow> wrap64 x = x"
  by (simp add: wrap64_def)

lemma wrap64_range: "- (2 ^ 63) \<le> wrap64 x \<and> wrap64 x < 2 ^ 63"
  by (simp add: wrap64_def)

subsection \<open>Lemmas on strings\<close>

lemma has_prefix_iff: "has_prefix s p \<longleftrightarrow> prefix p s"
  by (auto simp: has_prefix_def prefix_def) (metis append_take_drop_id)

lemma has_prefix_append [simp]: "has_prefix (p @ s) p"
  by (simp add: has_prefix_def)

lemma has_prefix_Nil [simp]: "has_prefix s []"
  by (simp add: has_prefix_def)

lemma has_prefix_refl [simp]: "has_prefix s s"
  by (simp add: has_prefix_def)

lemma has_prefix_Cons [simp]: "has_prefix (c # s) (d # p) \<longleftrightarrow> c = d \<and> has_prefix s p"
  by (auto simp: has_prefix_def)

lemma has_prefix_NilD [simp]: "has_prefix [] p \<longleftrightarrow> p = []"
  by (auto simp: has_prefix_def)

lemma has_prefix_comparable:
  "has_prefix s p \<Longrightarrow> has_prefix s q \<Longrightarrow> has_prefix p q \<or> has_prefix q p"
  by (auto simp: has_prefix_iff dest: prefix_same_cases)

lemma has_prefix_trans: "has_prefix s p \<Longrightarrow> has_prefix p q \<Longrightarrow> has_prefix s q"
  by (auto simp: has_prefix_iff intro: prefix_order.trans)

lemma has_suffix_iff: "has_suffix s p \<longleftrightarrow> suffix p s"
  by (simp add: has_suffix_def has_prefix_iff suffix_to_prefix)

lemma has_suffix_append [simp]: "has_suffix (s @ p) p"
  by (simp add: has_suffix_iff suffix_def)

lemma trim_suffix_append [simp]: "trim_suffix (s @ p) p = s"
  by (simp add: trim_suffix_def)

lemma trim_suffix_no: "\<not> has_suffix s p \<Longrightarrow> trim_suffix s p = s"
  by (simp add: trim_suffix_def)

lemma has_suffix_split: "has_suffix s p \<Longrightarrow> s = trim_suffix s p @ p"
  by (auto simp: has_suffix_iff suffix_def trim_suffix_def)

lemma contains_single: "contains_str s [c] \<longleftrightarrow> c \<in> set s"
  by (induction s) (auto simp: has_prefix_def)

lemma split_on_nonempty [simp]: "split_on sep s \<noteq> []"
  by (induction s) (auto split: list.splits)

lemma split_on_no_sep: "w \<in> set (split_on sep s) \<Longrightarrow> sep \<notin> set w"
  by (induction s arbitrary: w) (auto split: list.splits if_splits)

lemma str_join_Cons: "ws \<noteq> [] \<Longrightarrow> str_join sep (w # ws) = w @ sep @ str_join sep ws"
  by (cases ws) auto

lemma join_split_on: "str_join [sep] (split_on sep s) = s"
proof (induction s)
  case Nil
  then show ?case by simp
next
  case (Cons c s)
  show ?case
  proof (cases "split_on sep s")
    case Nil
    then show ?thesis by simp
  next
    case (Cons w ws)
    with Cons.IH show ?thesis
      by (cases ws) (auto simp: str_join_Cons)
  qed
qed

lemma split_on_word: "sep \<notin> set w \<Longrightarrow> split_on sep w = [w]"
  by (induction w) auto

lemma split_on_append: "sep \<notin> set w \<Longrightarrow> split_on sep (w @ sep # s) = w # split_on sep s"
  by (induction w) auto

lemma split_on_inject: "split_on sep s = split_on sep t \<longleftrightarrow> s = t"
  by (metis join_split_on)

lemma set_str_join: "w \<in> set ws \<Longrightarrow> set w \<subseteq> set (str_join sep ws)"
  by (induction sep ws rule: str_join.induct) auto

lemma split_on_subset: "w \<in> set (split_on sep s) \<Longrightarrow> set w \<subseteq> set s"
  using set_str_join[of w "split_on sep s" "[sep]"] by (simp add: join_split_on)

lemma str_cut_found:
  "str_cut s sep = (before, after, True) \<Longrightarrow> s = before @ sep @ after"
proof (induction s arbitrary: before)
  case Nil
  then show ?case by simp
next
  case (Cons c s)
  show ?case
  proof (cases "has_prefix (c # s) sep")
    case True
    with Cons.prems have "before = []" "after = drop (length sep) (c # s)" by auto
    moreover from True have "c # s = sep @ drop (length sep) (c # s)"
      by (auto simp: has_prefix_iff prefix_def)
    ultimately show ?thesis by simp
  next
    case False
    with Cons show ?thesis by (auto split: prod.splits)
  qed
qed

lemma str_cut_char:
  "str_cut s [c] =
    (takeWhile (\<lambda>x. x \<noteq> c) s, (case dropWhile (\<lambda>x. x \<noteq> c) s of [] \<Rightarrow> [] | _ # r \<Rightarrow> r), c \<in> set s)"
  by (induction s) (auto simp: has_prefix_def split: list.splits)

subsection \<open>Searching a list\<close>

lemma find_SomeD: "find P xs = Some x \<Longrightarrow> x \<in> set xs \<and> P x"
  by (auto simp: find_Some_iff)

lemma find_eq_None: "find P xs = None \<longleftrightarrow> (\<forall>x \<in> set xs. \<not> P x)"
  by (auto simp: find_None_iff)

subsection \<open>Appending what is not there yet\<close>

text \<open>The loop that appends every element not seen before, keeping the first occurrence.\<close>

definition append_new :: "'a list \<Rightarrow> 'a list \<Rightarrow> 'a list" where
  "append_new acc xs = fold (\<lambda>x acc. if x \<in> set acc then acc else acc @ [x]) xs acc"

lemma append_new_simps [simp]:
  "append_new acc [] = acc"
  "append_new acc (x # xs) = append_new (if x \<in> set acc then acc else acc @ [x]) xs"
  by (simp_all add: append_new_def)

lemma set_append_new [simp]: "set (append_new acc xs) = set acc \<union> set xs"
  by (induction xs arbitrary: acc) auto

lemma distinct_append_new [simp]: "distinct (append_new acc xs) \<longleftrightarrow> distinct acc"
  by (induction xs arbitrary: acc) auto

subsection \<open>Choosing the best candidates\<close>

text \<open>
  The loop that keeps every candidate of the best rating seen so far: candidates without a
  rating are skipped, a better rating replaces the collection, an equal one extends it.
\<close>

fun select_best ::
  "('s \<Rightarrow> 's \<Rightarrow> bool) \<Rightarrow> ('r \<Rightarrow> 's option) \<Rightarrow> 'r list \<Rightarrow> 'r list \<times> 's \<Rightarrow> 'r list \<times> 's" where
  "select_best better rate [] acc = acc"
| "select_best better rate (r # rs) (best, bestScore) =
     (case rate r of
        None \<Rightarrow> select_best better rate rs (best, bestScore)
      | Some score \<Rightarrow>
          if best = [] \<or> better score bestScore then select_best better rate rs ([r], score)
          else if score = bestScore then select_best better rate rs (best @ [r], bestScore)
          else select_best better rate rs (best, bestScore))"

definition top_rated :: "('s \<Rightarrow> 's \<Rightarrow> bool) \<Rightarrow> ('r \<Rightarrow> 's option) \<Rightarrow> 'r list \<Rightarrow> 'r list" where
  "top_rated better rate rs =
     filter (\<lambda>r. \<exists>s. rate r = Some s \<and> (\<forall>r' \<in> set rs. \<forall>s'. rate r' = Some s' \<longrightarrow> \<not> better s' s)) rs"

locale preference =
  fixes better :: "'s \<Rightarrow> 's \<Rightarrow> bool"
  assumes irrefl: "\<not> better s s"
    and trans: "better s t \<Longrightarrow> better t u \<Longrightarrow> better s u"
    and total: "s \<noteq> t \<Longrightarrow> better s t \<or> better t s"
begin

lemma asym: "better s t \<Longrightarrow> \<not> better t s"
  by (metis irrefl trans)

definition tracks :: "('r \<Rightarrow> 's option) \<Rightarrow> 'r list \<Rightarrow> 'r list \<Rightarrow> 's \<Rightarrow> bool" where
  "tracks rate seen best bs \<longleftrightarrow>
     best = top_rated better rate seen \<and> (\<forall>r \<in> set best. rate r = Some bs) \<and>
     (best = [] \<longrightarrow> (\<forall>r \<in> set seen. rate r = None)) \<and>
     (best \<noteq> [] \<longrightarrow> (\<forall>r \<in> set seen. \<forall>s. rate r = Some s \<longrightarrow> s = bs \<or> better bs s))"

lemma top_rated_snoc:
  "top_rated better rate (seen @ [r]) =
     filter (\<lambda>x. \<forall>s s'. rate x = Some s \<longrightarrow> rate r = Some s' \<longrightarrow> \<not> better s' s) (top_rated better rate seen) @
     (if \<exists>s. rate r = Some s \<and> (\<forall>r' \<in> set seen. \<forall>s'. rate r' = Some s' \<longrightarrow> \<not> better s' s) then [r] else [])"
proof -
  have "filter (\<lambda>x. \<exists>s. rate x = Some s \<and>
            (\<forall>r' \<in> set (seen @ [r]). \<forall>s'. rate r' = Some s' \<longrightarrow> \<not> better s' s)) seen =
        filter (\<lambda>x. \<forall>s s'. rate x = Some s \<longrightarrow> rate r = Some s' \<longrightarrow> \<not> better s' s)
          (top_rated better rate seen)"
    unfolding top_rated_def filter_filter by (rule filter_cong) auto
  then show ?thesis
    by (simp add: top_rated_def irrefl cong: conj_cong)
qed

lemma tracks_skip:
  assumes "tracks rate seen best bs" and "rate r = None"
  shows "tracks rate (seen @ [r]) best bs"
proof -
  have "top_rated better rate (seen @ [r]) = top_rated better rate seen"
    using assms(2) by (simp add: top_rated_snoc)
  with assms show ?thesis unfolding tracks_def by simp
qed

lemma tracks_replace:
  assumes "tracks rate seen best bs" and "rate r = Some s" and "best = [] \<or> better s bs"
  shows "tracks rate (seen @ [r]) [r] s"
proof -
  have above: "better s s'" if "r' \<in> set seen" "rate r' = Some s'" for r' s'
    using assms(1,3) that unfolding tracks_def by (metis option.distinct(1) trans)
  have "filter (\<lambda>x. \<forall>s s'. rate x = Some s \<longrightarrow> rate r = Some s' \<longrightarrow> \<not> better s' s)
      (top_rated better rate seen) = []"
    using above assms(2) by (auto simp: filter_empty_conv top_rated_def)
  moreover have "\<exists>s. rate r = Some s \<and> (\<forall>r' \<in> set seen. \<forall>s'. rate r' = Some s' \<longrightarrow> \<not> better s' s)"
    using assms(2) by (auto dest: above asym)
  ultimately have "top_rated better rate (seen @ [r]) = [r]"
    unfolding top_rated_snoc by simp
  with above assms(2) show ?thesis unfolding tracks_def by simp
qed

lemma tracks_extend:
  assumes "tracks rate seen best bs" and "rate r = Some bs" and "best \<noteq> []"
  shows "tracks rate (seen @ [r]) (best @ [r]) bs"
proof -
  have below: "s' = bs \<or> better bs s'" if "r' \<in> set seen" "rate r' = Some s'" for r' s'
    using assms(1,3) that unfolding tracks_def by blast
  have top: "best = top_rated better rate seen" "\<forall>r \<in> set best. rate r = Some bs"
    using assms(1) unfolding tracks_def by blast+
  have "filter (\<lambda>x. \<forall>s s'. rate x = Some s \<longrightarrow> rate r = Some s' \<longrightarrow> \<not> better s' s) best = best"
    using top(2) assms(2) irrefl by (simp add: filter_id_conv)
  moreover have "\<exists>s. rate r = Some s \<and> (\<forall>r' \<in> set seen. \<forall>s'. rate r' = Some s' \<longrightarrow> \<not> better s' s)"
    using assms(2) irrefl by (auto dest: below asym)
  ultimately have "top_rated better rate (seen @ [r]) = best @ [r]"
    unfolding top_rated_snoc top(1)[symmetric] by simp
  with below top(2) assms(2,3) show ?thesis unfolding tracks_def by simp
qed

lemma tracks_drop:
  assumes "tracks rate seen best bs" and "rate r = Some s"
    and "best \<noteq> []" and "\<not> better s bs" and "s \<noteq> bs"
  shows "tracks rate (seen @ [r]) best bs"
proof -
  from assms(4,5) total[of s bs] have worse: "better bs s" by simp
  have top: "best = top_rated better rate seen" "\<forall>r \<in> set best. rate r = Some bs"
    using assms(1) unfolding tracks_def by blast+
  from assms(3) obtain b where best: "b \<in> set best" by (cases best) auto
  then have "b \<in> set (top_rated better rate seen)" using top(1) by simp
  then have b: "b \<in> set seen" unfolding top_rated_def by simp
  from best top(2) have rb: "rate b = Some bs" by blast
  have "filter (\<lambda>x. \<forall>s s'. rate x = Some s \<longrightarrow> rate r = Some s' \<longrightarrow> \<not> better s' s) best = best"
    using top(2) assms(2,4) by (simp add: filter_id_conv)
  moreover have "\<not> (\<exists>s. rate r = Some s \<and> (\<forall>r' \<in> set seen. \<forall>s'. rate r' = Some s' \<longrightarrow> \<not> better s' s))"
    using b rb worse assms(2) by (metis option.inject)
  ultimately have "top_rated better rate (seen @ [r]) = best"
    unfolding top_rated_snoc top(1)[symmetric] by simp
  moreover have "\<forall>r' \<in> set (seen @ [r]). \<forall>s'. rate r' = Some s' \<longrightarrow> s' = bs \<or> better bs s'"
  proof -
    have "\<forall>r' \<in> set seen. \<forall>s'. rate r' = Some s' \<longrightarrow> s' = bs \<or> better bs s'"
      using assms(1,3) unfolding tracks_def by blast
    with assms(2) worse show ?thesis by simp
  qed
  ultimately show ?thesis
    using top(2) assms(3) unfolding tracks_def by simp
qed

lemma select_best_tracks:
  "tracks rate seen best bs \<Longrightarrow>
   (case select_best better rate rs (best, bs) of (best', bs') \<Rightarrow> tracks rate (seen @ rs) best' bs')"
proof (induction rs arbitrary: seen best bs)
  case Nil
  then show ?case by simp
next
  case (Cons r rs)
  have step: "(case select_best better rate rs (best, bs) of (best', bs') \<Rightarrow> tracks rate (seen @ r # rs) best' bs')"
    if "tracks rate (seen @ [r]) best bs" for best bs
    using Cons.IH[OF that] by simp
  show ?case
  proof (cases "rate r")
    case None
    with step[OF tracks_skip[OF Cons.prems]] show ?thesis by simp
  next
    case (Some s)
    consider "best = [] \<or> better s bs" | "best \<noteq> []" "\<not> better s bs" "s = bs"
      | "best \<noteq> []" "\<not> better s bs" "s \<noteq> bs" by blast
    then show ?thesis
    proof cases
      case 1
      with Some step[OF tracks_replace[OF Cons.prems Some]] show ?thesis by simp
    next
      case 2
      with Some step[OF tracks_extend[OF Cons.prems]] show ?thesis by simp
    next
      case 3
      with Some step[OF tracks_drop[OF Cons.prems Some]] show ?thesis by simp
    qed
  qed
qed

lemma tracks_init: "tracks rate [] [] s0"
  by (simp add: tracks_def top_rated_def)

theorem select_best_top: "fst (select_best better rate rs ([], s0)) = top_rated better rate rs"
  using select_best_tracks[OF tracks_init, of rate rs s0] unfolding tracks_def by (auto split: prod.splits)

lemma top_rated_exists:
  assumes "r \<in> set rs" and "rate r = Some s"
  shows "top_rated better rate rs \<noteq> []"
proof -
  obtain best bs where "tracks rate rs best bs"
    using select_best_tracks[OF tracks_init, of rate rs s] by (auto split: prod.splits)
  with assms show ?thesis unfolding tracks_def by (metis option.distinct(1))
qed

end

subsection \<open>Updates that converge\<close>

text \<open>
  Replicated state changes: applying events in any order, any number of times, gives the
  same state.  The library's \<open>comp_fun_idem\<close> is the algebraic side of it.
\<close>

locale commuting_ops =
  fixes step :: "'e \<Rightarrow> 's \<Rightarrow> 's"
  assumes commute: "step a (step b s) = step b (step a s)"
    and idem: "step a (step a s) = step a s"
begin

sublocale cfi: comp_fun_idem step
  by unfold_locales (auto simp: fun_eq_iff commute idem)

theorem order_irrelevant: "set xs = set ys \<Longrightarrow> fold step xs s = fold step ys s"
  by (metis cfi.fold_set_fold)

end

text \<open>
  Concrete steps that converge in a view: the view of the state follows a commuting
  abstract step, as long as the state satisfies an invariant and the event is acceptable.
\<close>

locale convergent_view = commuting_ops astep
  for astep :: "'e \<Rightarrow> 'v \<Rightarrow> 'v" +
  fixes cstep :: "'e \<Rightarrow> 's \<Rightarrow> 's" and view :: "'s \<Rightarrow> 'v"
    and inv :: "'s \<Rightarrow> bool" and valid :: "'e \<Rightarrow> bool"
  assumes inv_step: "inv s \<Longrightarrow> valid e \<Longrightarrow> inv (cstep e s)"
    and view_step: "inv s \<Longrightarrow> valid e \<Longrightarrow> view (cstep e s) = astep e (view s)"
begin

lemma view_fold:
  "inv s \<Longrightarrow> \<forall>e \<in> set es. valid e \<Longrightarrow> view (fold cstep es s) = fold astep es (view s)"
  by (induction es arbitrary: s) (auto simp: inv_step view_step)

lemma inv_fold: "inv s \<Longrightarrow> \<forall>e \<in> set es. valid e \<Longrightarrow> inv (fold cstep es s)"
  by (induction es arbitrary: s) (auto simp: inv_step)

theorem view_converges:
  assumes "inv s" and "\<forall>e \<in> set xs. valid e" and "set xs = set ys"
  shows "view (fold cstep xs s) = view (fold cstep ys s)"
  using assms view_fold[of s xs] view_fold[of s ys] order_irrelevant[of xs ys] by simp

end

subsection \<open>Greatest stamp wins\<close>

definition max_step :: "('e \<Rightarrow> 'k :: linorder) \<Rightarrow> 'e \<Rightarrow> 'k option \<Rightarrow> 'k option" where
  "max_step key e r = Some (case r of None \<Rightarrow> key e | Some k \<Rightarrow> max k (key e))"

lemma fold_max_step_Some:
  "fold (max_step key) es (Some k) = Some (Max (insert k (key ` set es)))"
proof (induction es arbitrary: k)
  case Nil
  then show ?case by simp
next
  case (Cons e es)
  have "fold (max_step key) (e # es) (Some k) = Some (Max (insert (max k (key e)) (key ` set es)))"
    using Cons[of "max k (key e)"] by (simp add: max_step_def[of key e])
  moreover have "Max (insert (max k (key e)) (key ` set es)) = Max (insert k (insert (key e) (key ` set es)))"
    by (cases "es = []") (simp_all add: max.assoc)
  ultimately show ?case by simp
qed

lemma fold_max_step:
  "fold (max_step key) es None = (if es = [] then None else Some (Max (key ` set es)))"
proof (cases es)
  case Nil
  show ?thesis unfolding Nil by simp
next
  case (Cons e es')
  have "fold (max_step key) (e # es') None = fold (max_step key) es' (Some (key e))"
    by (simp add: max_step_def[of key e])
  then show ?thesis unfolding Cons fold_max_step_Some by simp
qed

interpretation max_register: commuting_ops "max_step key" for key
  by unfold_locales (auto simp: max_step_def max.commute max.left_commute split: option.splits)

end
