(* ===== verification/Access_Path.thy ===== *)
theory Access_Path
  imports Registry_Prelude
begin

text \<open>
  Path patterns of the access engine, \<^verbatim>\<open>src/core/access/path.go\<close>: how specific a pattern is
  (\<open>specificity\<close>, \<open>beats\<close>) and whether it matches a path (\<open>match_path\<close>, Go's
  \<^verbatim>\<open>match\<close>, whose second result is the option).  Shown: \<^verbatim>\<open>beats\<close> is a strict total order
  (an interpretation of \<open>preference\<close>), the score of a match depends on the pattern alone, and
  matching is exactly the documented language of one-segment and trailing wildcards.
\<close>

subsection \<open>Specificity\<close>

record specificity =
  exact :: bool
  pluses :: nat
  literal :: nat
  segments :: nat

definition beats :: "specificity \<Rightarrow> specificity \<Rightarrow> bool" where
  "beats s other =
     (if exact s \<noteq> exact other then exact s
      else if pluses s \<noteq> pluses other then pluses s < pluses other
      else if literal s \<noteq> literal other then literal s > literal other
      else segments s > segments other)"

interpretation specific: preference beats
proof unfold_locales
  fix s t u :: specificity
  show "\<not> beats s s" by (simp add: beats_def)
  show "beats s t \<Longrightarrow> beats t u \<Longrightarrow> beats s u"
    by (auto simp: beats_def split: if_splits)
  show "s \<noteq> t \<Longrightarrow> beats s t \<or> beats t s"
    by (cases s; cases t) (auto simp: beats_def split: if_splits)
qed

subsection \<open>Matching\<close>

text \<open>
  The loop of \<^verbatim>\<open>match\<close> over the pattern's segments; \<open>None\<close> is Go's \<^verbatim>\<open>specificity{}, false\<close>.
  The index \<^verbatim>\<open>i\<close> walks both segment lists, so the recursion consumes them together; \<^verbatim>\<open>last\<close>
  holds when no pattern segment is left.
\<close>

fun match_segments :: "bool \<Rightarrow> string list \<Rightarrow> string list \<Rightarrow> specificity \<Rightarrow> specificity option" where
  "match_segments trailing [] pathSegs score = Some score"
| "match_segments trailing (segment # patternSegs) pathSegs score =
     (let last = (patternSegs = []) in
      if segment = ''+'' then
        (case pathSegs of
           [] \<Rightarrow> None
         | _ # rest \<Rightarrow> match_segments trailing patternSegs rest (score\<lparr>pluses := pluses score + 1\<rparr>))
      else
        (case pathSegs of
           [] \<Rightarrow>
             if trailing \<and> last \<and> segment = [] then match_segments trailing patternSegs [] score
             else None
         | seg # rest \<Rightarrow>
             if last \<and> trailing then
               (if \<not> has_prefix seg segment then None
                else match_segments trailing patternSegs rest
                       (score\<lparr>literal := literal score + length segment\<rparr>))
             else if seg \<noteq> segment then None
             else match_segments trailing patternSegs rest
                    (score\<lparr>literal := literal score + length segment\<rparr>)))"

definition match_path :: "string \<Rightarrow> string \<Rightarrow> specificity option" where
  "match_path pattern path =
     (case cut_suffix pattern ''*'' of (pre, trailing) \<Rightarrow>
       let score = \<lparr>exact = (\<not> trailing \<and> \<not> contains_str pattern ''+''), pluses = 0, literal = 0,
                    segments = count_list pre (CHR ''/'')\<rparr>;
           patternSegs = split_on (CHR ''/'') pre;
           pathSegs = split_on (CHR ''/'') path;
           limit = length patternSegs
       in if \<not> trailing \<and> length patternSegs \<noteq> length pathSegs then None
          else if trailing \<and> length pathSegs < limit \<and> length pathSegs < limit - 1 then None
          else match_segments trailing patternSegs pathSegs score)"

subsection \<open>The score is a function of the pattern\<close>

definition segs_score :: "string list \<Rightarrow> specificity \<Rightarrow> specificity" where
  "segs_score ps score = score
     \<lparr>pluses := pluses score + length (filter (\<lambda>p. p = ''+'') ps),
      literal := literal score + sum_list (map length (filter (\<lambda>p. p \<noteq> ''+'') ps))\<rparr>"

definition pattern_score :: "string \<Rightarrow> specificity" where
  "pattern_score pattern =
     (case cut_suffix pattern ''*'' of (pre, trailing) \<Rightarrow>
       segs_score (split_on (CHR ''/'') pre)
         \<lparr>exact = (\<not> trailing \<and> \<not> contains_str pattern ''+''), pluses = 0, literal = 0,
          segments = count_list pre (CHR ''/'')\<rparr>)"

lemma match_segments_score:
  "match_segments trailing ps segs score = Some r \<Longrightarrow> r = segs_score ps score"
proof (induction trailing ps segs score rule: match_segments.induct)
  case (1 trailing pathSegs score)
  then show ?case by (simp add: segs_score_def)
next
  case (2 trailing segment patternSegs pathSegs score)
  then show ?case
    by (auto simp: segs_score_def Let_def split: if_splits list.splits)
qed

lemma match_path_score: "match_path pattern path = Some score \<Longrightarrow> score = pattern_score pattern"
  by (auto simp: match_path_def pattern_score_def Let_def
      dest: match_segments_score split: prod.splits if_splits)

subsection \<open>The pattern language\<close>

text \<open>One pattern segment against one path segment.\<close>

abbreviation seg_ok :: "string \<Rightarrow> string \<Rightarrow> bool" where
  "seg_ok p s \<equiv> p = ''+'' \<or> p = s"

lemma match_segments_closed:
  "length ps = length segs \<Longrightarrow>
   match_segments False ps segs score \<noteq> None \<longleftrightarrow> list_all2 seg_ok ps segs"
  by (induction ps segs arbitrary: score rule: list_induct2) (auto simp: Let_def)

lemma match_segments_open:
  "ps \<noteq> [] \<Longrightarrow>
   match_segments True ps segs score \<noteq> None \<longleftrightarrow>
     (\<exists>s more. list_all2 seg_ok (butlast ps) (take (length ps - 1) segs) \<and>
               drop (length ps - 1) segs = s # more \<and> (last ps = ''+'' \<or> has_prefix s (last ps))) \<or>
     (list_all2 seg_ok (butlast ps) segs \<and> last ps = [])"
proof (induction ps arbitrary: segs score)
  case Nil
  then show ?case by simp
next
  case (Cons p ps)
  show ?case
  proof (cases segs)
    case Nil
    with Cons show ?thesis by (cases ps) (auto simp: Let_def)
  next
    case (Cons s segs')
    with Cons.IH show ?thesis
      by (cases ps) (auto simp: Let_def)
  qed
qed

lemma match_path_closed:
  assumes "\<not> has_suffix pattern ''*''"
  shows "match_path pattern path \<noteq> None \<longleftrightarrow>
    list_all2 seg_ok (split_on (CHR ''/'') pattern) (split_on (CHR ''/'') path)"
proof (cases "length (split_on (CHR ''/'') pattern) = length (split_on (CHR ''/'') path)")
  case True
  with assms show ?thesis
    using match_segments_closed[OF True]
    by (auto simp: match_path_def cut_suffix_def trim_suffix_def Let_def)
next
  case False
  with assms show ?thesis
    by (auto simp: match_path_def cut_suffix_def trim_suffix_def Let_def dest: list_all2_lengthD)
qed

lemma cut_suffix_star [simp]:
  "cut_suffix (pre @ ''*'') ''*'' = (pre, True)"
  "\<not> has_suffix pattern ''*'' \<Longrightarrow> cut_suffix pattern ''*'' = (pattern, False)"
  by (simp_all add: cut_suffix_def trim_suffix_no)

text \<open>The early length test of an open pattern repeats what the loop finds out anyway.\<close>

lemma match_segments_short:
  "length segs < length ps - 1 \<Longrightarrow> match_segments True ps segs score = None"
proof (induction ps arbitrary: segs score)
  case Nil
  then show ?case by simp
next
  case (Cons p ps)
  then show ?case by (cases segs; cases ps) (auto simp: Let_def)
qed

lemma match_path_open:
  "match_path (pre @ ''*'') path \<noteq> None \<longleftrightarrow>
   match_segments True (split_on (CHR ''/'') pre) (split_on (CHR ''/'') path) score \<noteq> None"
  using match_segments_open[of "split_on (CHR ''/'') pre" "split_on (CHR ''/'') path"]
  by (cases "length (split_on (CHR ''/'') path) < length (split_on (CHR ''/'') pre) - 1")
    (simp_all add: match_path_def Let_def match_segments_short)

lemma first_segment_cases:
  obtains (word) "CHR ''/'' \<notin> set s" "split_on (CHR ''/'') s = [s]"
  | (more) w s' where "s = w @ CHR ''/'' # s'" "CHR ''/'' \<notin> set w"
      "split_on (CHR ''/'') s = w # split_on (CHR ''/'') s'"
proof (cases "CHR ''/'' \<in> set s")
  case True
  then show ?thesis using more by (metis split_list_first split_on_append)
next
  case False
  then show ?thesis using word by (simp add: split_on_word)
qed

lemma slash_aligned:
  assumes "CHR ''/'' \<notin> set w" and "CHR ''/'' \<notin> set v"
  shows "has_prefix (v @ CHR ''/'' # t) (w @ CHR ''/'' # s) \<longleftrightarrow> v = w \<and> has_prefix t s"
  using assms
proof (induction w arbitrary: v)
  case Nil
  then show ?case by (cases v) auto
next
  case (Cons c w)
  then show ?case by (cases v) auto
qed

lemma slash_inject:
  assumes "CHR ''/'' \<notin> set w" and "CHR ''/'' \<notin> set v"
  shows "w @ CHR ''/'' # s = v @ CHR ''/'' # t \<longleftrightarrow> w = v \<and> s = t"
  using assms
proof (induction w arbitrary: v)
  case Nil
  then show ?case by (cases v) auto
next
  case (Cons c w)
  then show ?case by (cases v) auto
qed

lemma slash_word:
  assumes "CHR ''/'' \<notin> set w"
  shows "has_prefix (v @ CHR ''/'' # t) w \<longleftrightarrow> has_prefix v w"
  using assms
proof (induction w arbitrary: v)
  case Nil
  then show ?case by simp
next
  case (Cons c w)
  then show ?case by (cases v) auto
qed

lemma match_segments_prefix:
  "''+'' \<notin> set (split_on (CHR ''/'') pre) \<Longrightarrow>
   match_segments True (split_on (CHR ''/'') pre) (split_on (CHR ''/'') path) score \<noteq> None \<longleftrightarrow>
   has_prefix path pre \<or> pre = path @ ''/''"
proof (induction pre arbitrary: path score rule: length_induct)
  case (1 pre)
  show ?case
  proof (cases rule: first_segment_cases[of pre])
    case word
    then show ?thesis
      using 1(2)
      by (cases rule: first_segment_cases[of path]) (auto simp: slash_word)
  next
    case pre: (more w pre')
    then have shorter: "length pre' < length pre" by simp
    have rest: "''+'' \<notin> set (split_on (CHR ''/'') pre')" "w \<noteq> ''+''" using 1(2) pre by auto
    note IH = 1(1)[rule_format, OF shorter rest(1)]
    show ?thesis
    proof (cases rule: first_segment_cases[of path])
      case path: word
      have "\<not> has_prefix path pre"
        using path pre by (auto simp: has_prefix_iff prefix_def)
      moreover have "match_segments True (split_on (CHR ''/'') pre') [] score \<noteq> None \<longleftrightarrow> pre' = []" for score
        using rest by (cases rule: first_segment_cases[of pre']) (auto simp: Let_def)
      ultimately show ?thesis
        using path pre rest slash_inject[OF pre(2) path(1), of pre' "[]"] by (auto simp: Let_def)
    next
      case path: (more v path')
      have "match_segments True (split_on (CHR ''/'') pre) (split_on (CHR ''/'') path) score \<noteq> None
        \<longleftrightarrow> v = w \<and> (has_prefix path' pre' \<or> pre' = path' @ ''/'')"
        using path pre rest IH by (auto simp: Let_def)
      also have "\<dots> \<longleftrightarrow> has_prefix path pre \<or> pre = path @ ''/''"
        using path(1) pre(1) slash_aligned[OF pre(2) path(2)] slash_inject[OF pre(2) path(2), of pre' "path' @ ''/''"]
        by auto
      finally show ?thesis .
    qed
  qed
qed

subsection \<open>Properties\<close>

lemma list_all2_seg_ok_eq:
  "''+'' \<notin> set ps \<Longrightarrow> list_all2 seg_ok ps segs \<longleftrightarrow> ps = segs"
  by (induction ps arbitrary: segs) (auto simp: list_all2_Cons1)

text \<open>
  a pattern without one-segment wildcards matches by prefix when it ends in a star (the
  pattern \<^verbatim>\<open>x/*\<close> also matches the bare \<^verbatim>\<open>x\<close>), and by equality when it does not.
\<close>

theorem match_language:
  assumes "''+'' \<notin> set (split_on (CHR ''/'') pre)"
  shows "(match_path (pre @ ''*'') path \<noteq> None \<longleftrightarrow> has_prefix path pre \<or> pre = path @ ''/'') \<and>
         (\<not> has_suffix pre ''*'' \<longrightarrow> (match_path pre path \<noteq> None \<longleftrightarrow> pre = path))"
  unfolding match_path_open[of pre path "pattern_score pre"] match_segments_prefix[OF assms]
  by (simp add: match_path_closed list_all2_seg_ok_eq[OF assms] split_on_inject del: not_None_eq)

theorem match_language_witness:
  "match_path ''feed/central/*'' ''feed/central'' \<noteq> None \<and>
   match_path ''feed/central/*'' ''feed/other/x'' = None"
  using match_language[of "''feed/central/''" "''feed/central''"]
    match_language[of "''feed/central/''" "''feed/other/x''"]
  by (simp add: has_prefix_def)

text \<open>
  a pattern without a trailing star matches exactly the paths with as many segments, each
  equal to the pattern's segment or facing a one-segment wildcard; and whatever the path, the
  score of a match is a function of the pattern alone.
\<close>

theorem match_plus_language:
  "(\<not> has_suffix pattern ''*'' \<longrightarrow>
     (match_path pattern path \<noteq> None \<longleftrightarrow>
        list_all2 (\<lambda>p s. p = ''+'' \<or> p = s) (split_on (CHR ''/'') pattern) (split_on (CHR ''/'') path))) \<and>
   (\<forall>score. match_path pattern path = Some score \<longrightarrow> score = pattern_score pattern)"
  using match_path_closed match_path_score by blast

theorem match_plus_language_witness:
  "match_path ''feed/+/com'' ''feed/central/com'' =
     Some \<lparr>exact = False, pluses = 1, literal = 7, segments = 2\<rparr>"
proof -
  have "match_path ''feed/+/com'' ''feed/central/com'' \<noteq> None"
    using match_plus_language[of "''feed/+/com''" "''feed/central/com''"]
    by (simp add: has_suffix_def has_prefix_def)
  moreover have "pattern_score ''feed/+/com'' = \<lparr>exact = False, pluses = 1, literal = 7, segments = 2\<rparr>"
    by code_simp
  ultimately show ?thesis
    using match_plus_language[of "''feed/+/com''" "''feed/central/com''"] by auto
qed

end
