(* ===== verification/Access_Engine.thy ===== *)
theory Access_Engine
  imports Access_Path
begin

text \<open>
  The access engine, \<^verbatim>\<open>src/core/access/access.go\<close>: capabilities, rules, policies, bindings and
  identities; \<open>New\<close> compiles them, \<open>Explain\<close> decides and says why, \<open>MayReach\<close> is the
  early test of a publish.  A capability is Go's string type with its own constants.  The
  decision is related to its specification, the rules no other matching rule beats, through the
  \<open>preference\<close> interface interpreted on \<open>beats\<close>.
\<close>

subsection \<open>Data\<close>

type_synonym capability = string
type_synonym capabilities = "capability list"

definition "CapRead = ''read''"
definition "CapList = ''list''"
definition "CapPublish = ''publish''"
definition "CapCreate = ''create''"
definition "CapUpdate = ''update''"
definition "CapDelete = ''delete''"
definition "CapDeny = ''deny''"

lemmas cap_defs = CapRead_def CapList_def CapPublish_def CapCreate_def CapUpdate_def
  CapDelete_def CapDeny_def

definition KnownCapabilities :: capabilities where
  "KnownCapabilities = [CapRead, CapList, CapPublish, CapCreate, CapUpdate, CapDelete, CapDeny]"

definition Known :: "capability \<Rightarrow> bool" where
  "Known c \<longleftrightarrow> c = CapRead \<or> c = CapList \<or> c = CapPublish \<or> c = CapCreate \<or> c = CapUpdate \<or>
     c = CapDelete \<or> c = CapDeny"

record rule =
  Path :: string
  Capabilities :: capabilities
  rule_policy :: string

record policy =
  PolicyName :: string
  Rules :: "rule list"

record match_spec =
  MKind :: string
  MIssuer :: string
  MSubject :: string
  MProjectPath :: string
  MRef :: string
  MAuthenticated :: bool

record binding_spec =
  BindingName :: string
  BPolicies :: "string list"
  BMatch :: match_spec

record identity =
  Kind :: string
  Subject :: string
  Issuer :: string
  ProjectPath :: string
  Ref :: string

record engine =
  policies :: "policy gomap"
  bindings :: "binding_spec list"

record decision =
  Allowed_d :: bool
  DPolicies :: "string list"
  DBindings :: "string list"
  DRule :: string
  DPolicy :: string
  DCapabilities :: capabilities
  Reason :: string

definition IsAnonymous :: "identity \<Rightarrow> bool" where
  "IsAnonymous i \<longleftrightarrow> Kind i = ''anonymous'' \<or> Kind i = []"

definition identity_String :: "identity \<Rightarrow> string" where
  "identity_String i = Kind i @ '':'' @ Subject i"

definition caps_String :: "capabilities \<Rightarrow> string" where
  "caps_String c = str_join '', '' (sort c)"

fun Has :: "capabilities \<Rightarrow> capability \<Rightarrow> bool" where
  "Has [] want = False"
| "Has (capability # cs) want = (if capability = want then True else Has cs want)"

subsection \<open>Compiling an engine\<close>

datatype access_error =
    PolicyWithoutName
  | PolicyTwice string
  | RuleWithoutPath string nat
  | StarNotAtEnd string nat string
  | RuleGrantsNothing string nat
  | NotACapability string nat capability
  | BindingAttachesNothing nat
  | BindingUnknownPolicy nat string

definition validRule :: "string \<Rightarrow> nat \<Rightarrow> rule \<Rightarrow> access_error option" where
  "validRule pol i r =
     (if Path r = [] then Some (RuleWithoutPath pol i)
      else if contains_str (trim_suffix (Path r) ''*'') ''*'' then Some (StarNotAtEnd pol i (Path r))
      else if Capabilities r = [] then Some (RuleGrantsNothing pol i)
      else (case find (\<lambda>c. \<not> Known c) (Capabilities r) of
              Some c \<Rightarrow> Some (NotACapability pol i c)
            | None \<Rightarrow> None))"

text \<open>The loop over one policy's rules: each rule learns its policy's name and is validated.\<close>

fun compile_rules :: "string \<Rightarrow> nat \<Rightarrow> rule list \<Rightarrow> access_error + rule list" where
  "compile_rules name i [] = Inr []"
| "compile_rules name i (r # rs) =
     (let r' = r\<lparr>rule_policy := name\<rparr> in
      case validRule name i r' of
        Some err \<Rightarrow> Inl err
      | None \<Rightarrow> (case compile_rules name (i + 1) rs of Inl err \<Rightarrow> Inl err | Inr rs' \<Rightarrow> Inr (r' # rs')))"

fun compile_policies :: "policy list \<Rightarrow> policy gomap \<Rightarrow> access_error + policy gomap" where
  "compile_policies [] byName = Inr byName"
| "compile_policies (p # ps) byName =
     (if PolicyName p = [] then Inl PolicyWithoutName
      else if byName (PolicyName p) \<noteq> None then Inl (PolicyTwice (PolicyName p))
      else (case compile_rules (PolicyName p) 0 (Rules p) of
              Inl err \<Rightarrow> Inl err
            | Inr rs \<Rightarrow> compile_policies ps (byName(PolicyName p \<mapsto> p\<lparr>Rules := rs\<rparr>))))"

fun check_bindings :: "policy gomap \<Rightarrow> nat \<Rightarrow> binding_spec list \<Rightarrow> access_error option" where
  "check_bindings byName i [] = None"
| "check_bindings byName i (b # bs) =
     (if BPolicies b = [] then Some (BindingAttachesNothing i)
      else (case find (\<lambda>name. byName name = None) (BPolicies b) of
              Some name \<Rightarrow> Some (BindingUnknownPolicy i name)
            | None \<Rightarrow> check_bindings byName (i + 1) bs))"

definition New :: "policy list \<Rightarrow> binding_spec list \<Rightarrow> access_error + engine" where
  "New ps bs =
     (case compile_policies ps Map.empty of
        Inl err \<Rightarrow> Inl err
      | Inr byName \<Rightarrow>
          (case check_bindings byName 0 bs of
             Some err \<Rightarrow> Inl err
           | None \<Rightarrow> Inr \<lparr>policies = byName, bindings = bs\<rparr>))"

subsection \<open>Deciding\<close>

definition glob :: "string \<Rightarrow> string \<Rightarrow> bool" where
  "glob pattern v =
     (case cut_suffix pattern ''*'' of (pre, ok) \<Rightarrow> if ok then has_prefix v pre else pattern = v)"

definition matches :: "match_spec \<Rightarrow> identity \<Rightarrow> bool" where
  "matches m i =
     (if MAuthenticated m \<and> IsAnonymous i then False
      else list_all (\<lambda>(pat, v). pat = [] \<or> glob pat v)
             [(MKind m, Kind i), (MIssuer m, Issuer i), (MSubject m, Subject i),
              (MProjectPath m, ProjectPath i), (MRef m, Ref i)])"

fun bound_loop :: "binding_spec list \<Rightarrow> identity \<Rightarrow> string list \<Rightarrow> string list \<Rightarrow> string list \<times> string list" where
  "bound_loop [] i pols binds = (pols, binds)"
| "bound_loop (b # bs) i pols binds =
     (if \<not> matches (BMatch b) i then bound_loop bs i pols binds
      else bound_loop bs i (append_new pols (BPolicies b))
             (if BindingName b \<noteq> [] then binds @ [BindingName b] else binds))"

definition boundVia :: "engine \<Rightarrow> identity \<Rightarrow> string list \<times> string list" where
  "boundVia e i = bound_loop (bindings e) i [] []"

definition PoliciesFor :: "engine \<Rightarrow> identity \<Rightarrow> string list" where
  "PoliciesFor e i = fst (boundVia e i)"

text \<open>\<^verbatim>\<open>e.policies[name].Rules\<close>: a missing name is Go's zero policy, which has no rules.\<close>

definition rules_of :: "engine \<Rightarrow> string \<Rightarrow> rule list" where
  "rules_of e name = (case policies e name of None \<Rightarrow> [] | Some p \<Rightarrow> Rules p)"

definition zero_specificity :: specificity where
  "zero_specificity = \<lparr>exact = False, pluses = 0, literal = 0, segments = 0\<rparr>"

definition first_with :: "rule list \<Rightarrow> capability \<Rightarrow> rule option" where
  "first_with best c = find (\<lambda>r. Has (Capabilities r) c) best"

definition Explain :: "engine \<Rightarrow> identity \<Rightarrow> string \<Rightarrow> capability \<Rightarrow> decision" where
  "Explain e i path want =
     (case boundVia e i of (names, via) \<Rightarrow>
       let d = \<lparr>Allowed_d = False, DPolicies = names, DBindings = via, DRule = [], DPolicy = [],
                DCapabilities = [], Reason = []\<rparr>;
           best = fst (select_best beats (\<lambda>r. match_path (Path r) path)
                         (concat (map (rules_of e) names)) ([], zero_specificity))
       in if best = [] then
            d\<lparr>Reason := (if names = [] then ''no policy is bound to '' @ identity_String i
                         else ''no policy grants anything on '' @ path)\<rparr>
          else
            let effective = append_new [] (concat (map Capabilities best));
                d = d\<lparr>DCapabilities := effective, DRule := Path (hd best), DPolicy := rule_policy (hd best)\<rparr>
            in if Has effective CapDeny then
                 let d = (case first_with best CapDeny of None \<Rightarrow> d
                          | Some r \<Rightarrow> d\<lparr>DRule := Path r, DPolicy := rule_policy r\<rparr>)
                 in d\<lparr>Reason := ''policy '' @ DPolicy d @ '' denies '' @ DRule d\<rparr>
               else if Has effective want then
                 let d = (case first_with best want of None \<Rightarrow> d
                          | Some r \<Rightarrow> d\<lparr>DRule := Path r, DPolicy := rule_policy r\<rparr>)
                 in d\<lparr>Allowed_d := True,
                      Reason := ''policy '' @ DPolicy d @ '' grants '' @ want @ '' on '' @ DRule d\<rparr>
               else
                 d\<lparr>Reason := ''policy '' @ DPolicy d @ '' grants '' @ caps_String effective @ '' on '' @
                    DRule d @ '', which does not include '' @ want\<rparr>)"

definition Allowed :: "engine \<Rightarrow> identity \<Rightarrow> string \<Rightarrow> capability \<Rightarrow> bool" where
  "Allowed e i path want = Allowed_d (Explain e i path want)"

definition MayReach :: "engine \<Rightarrow> identity \<Rightarrow> string \<Rightarrow> capability \<Rightarrow> bool" where
  "MayReach e i pre want =
     list_ex (\<lambda>name. list_ex (\<lambda>r.
         Has (Capabilities r) want \<and>
         (let lit = trim_suffix (Path r) ''*'' in has_prefix lit pre \<or> has_prefix pre lit))
       (rules_of e name)) (PoliciesFor e i)"

subsection \<open>What is bound\<close>

lemma Has_iff [simp]: "Has cs c \<longleftrightarrow> c \<in> set cs"
  by (induction cs) auto

lemma bound_loop_policies:
  "set (fst (bound_loop bs i pols binds)) =
     set pols \<union> (\<Union>b \<in> {b \<in> set bs. matches (BMatch b) i}. set (BPolicies b))"
  by (induction bs arbitrary: pols binds) auto

lemma bound_loop_distinct: "distinct pols \<Longrightarrow> distinct (fst (bound_loop bs i pols binds))"
  by (induction bs arbitrary: pols binds) auto

lemma PoliciesFor_set:
  "set (PoliciesFor e i) = (\<Union>b \<in> {b \<in> set (bindings e). matches (BMatch b) i}. set (BPolicies b))"
  by (simp add: PoliciesFor_def boundVia_def bound_loop_policies)

lemma PoliciesFor_distinct: "distinct (PoliciesFor e i)"
  by (simp add: PoliciesFor_def boundVia_def bound_loop_distinct)

definition bound_rules :: "engine \<Rightarrow> identity \<Rightarrow> rule list" where
  "bound_rules e i = concat (map (rules_of e) (PoliciesFor e i))"

lemma bound_rules_iff:
  "r \<in> set (bound_rules e i) \<longleftrightarrow>
   (\<exists>b \<in> set (bindings e). matches (BMatch b) i \<and> (\<exists>name \<in> set (BPolicies b). r \<in> set (rules_of e name)))"
  by (auto simp: bound_rules_def PoliciesFor_set)

subsection \<open>The specification of a decision\<close>

text \<open>
  The deciding rules: the bound rules that match the path and that no bound matching rule beats.
  A request is granted when one of them lists the capability and none of them denies.
\<close>

definition deciding :: "engine \<Rightarrow> identity \<Rightarrow> string \<Rightarrow> rule list" where
  "deciding e i path = top_rated beats (\<lambda>r. match_path (Path r) path) (bound_rules e i)"

definition grants :: "engine \<Rightarrow> identity \<Rightarrow> string \<Rightarrow> capability \<Rightarrow> bool" where
  "grants e i path want \<longleftrightarrow>
     (\<exists>r \<in> set (deciding e i path). want \<in> set (Capabilities r)) \<and>
     (\<forall>r \<in> set (deciding e i path). CapDeny \<notin> set (Capabilities r))"

lemma Explain_best:
  "fst (select_best beats (\<lambda>r. match_path (Path r) path)
      (concat (map (rules_of e) (fst (boundVia e i)))) ([], zero_specificity)) = deciding e i path"
  by (simp add: specific.select_best_top deciding_def bound_rules_def PoliciesFor_def)

lemma first_with_Some:
  "\<exists>r \<in> set best. c \<in> set (Capabilities r) \<Longrightarrow>
   \<exists>r \<in> set best. c \<in> set (Capabilities r) \<and> first_with best c = Some r"
  by (induction best) (auto simp: first_with_def)

lemma Explain_Allowed: "Allowed_d (Explain e i path want) \<longleftrightarrow> grants e i path want"
proof -
  obtain names via where b: "boundVia e i = (names, via)" by fastforce
  have best: "fst (select_best beats (\<lambda>r. match_path (Path r) path)
      (concat (map (rules_of e) names)) ([], zero_specificity)) = deciding e i path"
    using Explain_best[of path e i] b by simp
  show ?thesis
    unfolding Explain_def b prod.case best Let_def grants_def
    by (auto split: option.splits)
qed

lemma Allowed_iff: "Allowed e i path want \<longleftrightarrow> grants e i path want"
  by (simp add: Allowed_def Explain_Allowed)

lemma deciding_iff:
  "r \<in> set (deciding e i path) \<longleftrightarrow>
     r \<in> set (bound_rules e i) \<and>
     (\<exists>s. match_path (Path r) path = Some s \<and>
        (\<forall>r' \<in> set (bound_rules e i). \<forall>s'. match_path (Path r') path = Some s' \<longrightarrow> \<not> beats s' s))"
  by (auto simp: deciding_def top_rated_def)

lemma Explain_cites:
  assumes "deciding e i path \<noteq> []"
  shows "\<exists>r \<in> set (deciding e i path).
           DRule (Explain e i path want) = Path r \<and> DPolicy (Explain e i path want) = rule_policy r \<and>
           (grants e i path want \<longrightarrow> want \<in> set (Capabilities r)) \<and>
           ((\<exists>r' \<in> set (deciding e i path). CapDeny \<in> set (Capabilities r')) \<longrightarrow> CapDeny \<in> set (Capabilities r))"
proof -
  obtain names via where b: "boundVia e i = (names, via)" by fastforce
  have best: "fst (select_best beats (\<lambda>r. match_path (Path r) path)
      (concat (map (rules_of e) names)) ([], zero_specificity)) = deciding e i path"
    using Explain_best[of path e i] b by simp
  define ds where "ds = deciding e i path"
  have hd: "hd ds \<in> set ds" using assms by (simp add: ds_def)
  note unf = Explain_def b prod.case best Let_def grants_def ds_def[symmetric]
  consider (deny) "\<exists>r \<in> set ds. CapDeny \<in> set (Capabilities r)"
    | (grant) "\<forall>r \<in> set ds. CapDeny \<notin> set (Capabilities r)" "\<exists>r \<in> set ds. want \<in> set (Capabilities r)"
    | (neither) "\<forall>r \<in> set ds. CapDeny \<notin> set (Capabilities r)" "\<forall>r \<in> set ds. want \<notin> set (Capabilities r)"
    by blast
  then show ?thesis
  proof cases
    case deny
    with first_with_Some obtain r where r: "r \<in> set ds" "CapDeny \<in> set (Capabilities r)" "first_with ds CapDeny = Some r"
      by blast
    from deny hd have "ds \<noteq> []" "\<exists>x \<in> set ds. CapDeny \<in> set (Capabilities x)" by auto
    with r show ?thesis unfolding unf by (intro bexI[of _ r]) auto
  next
    case grant
    with first_with_Some obtain r where r: "r \<in> set ds" "want \<in> set (Capabilities r)" "first_with ds want = Some r"
      by blast
    from grant have "ds \<noteq> []" by auto
    with grant r show ?thesis unfolding unf by (intro bexI[of _ r]) auto
  next
    case neither
    from hd have "ds \<noteq> []" by auto
    with neither hd show ?thesis unfolding unf by (intro bexI[of _ "hd ds"]) auto
  qed
qed

subsection \<open>Compiled engines are well formed\<close>

definition wf_rule :: "rule \<Rightarrow> bool" where
  "wf_rule r \<longleftrightarrow> Path r \<noteq> [] \<and> CHR ''*'' \<notin> set (trim_suffix (Path r) ''*'') \<and>
     Capabilities r \<noteq> [] \<and> (\<forall>c \<in> set (Capabilities r). c \<in> set KnownCapabilities)"

definition wf_policy :: "string \<Rightarrow> policy \<Rightarrow> bool" where
  "wf_policy name p \<longleftrightarrow>
     name \<noteq> [] \<and> PolicyName p = name \<and> (\<forall>r \<in> set (Rules p). rule_policy r = name \<and> wf_rule r)"

definition wf_engine :: "engine \<Rightarrow> bool" where
  "wf_engine e \<longleftrightarrow>
     (\<forall>name p. policies e name = Some p \<longrightarrow> wf_policy name p) \<and>
     (\<forall>b \<in> set (bindings e). BPolicies b \<noteq> [] \<and> (\<forall>name \<in> set (BPolicies b). policies e name \<noteq> None))"

lemma Known_iff: "Known c \<longleftrightarrow> c \<in> set KnownCapabilities"
  by (simp add: Known_def KnownCapabilities_def)

lemma validRule_wf: "validRule pol k r = None \<longleftrightarrow> wf_rule r"
proof (cases "find (\<lambda>c. \<not> Known c) (Capabilities r)")
  case None
  then have "\<forall>c \<in> set (Capabilities r). c \<in> set KnownCapabilities"
    by (simp add: find_eq_None Known_iff)
  with None show ?thesis
    by (simp add: validRule_def wf_rule_def contains_single)
next
  case (Some c)
  from find_SomeD[OF this] have "\<exists>c \<in> set (Capabilities r). c \<notin> set KnownCapabilities"
    unfolding Known_iff by blast
  then have "\<not> wf_rule r" unfolding wf_rule_def by blast
  moreover have "validRule pol k r \<noteq> None" using Some by (simp add: validRule_def)
  ultimately show ?thesis by simp
qed

lemma compile_rules_wf:
  "compile_rules name k rs = Inr rs' \<Longrightarrow> \<forall>r \<in> set rs'. rule_policy r = name \<and> wf_rule r"
proof (induction rs arbitrary: k rs')
  case Nil
  then show ?case by simp
next
  case (Cons r rs)
  from Cons.prems obtain more where more: "compile_rules name (k + 1) rs = Inr more"
    and rs': "rs' = r\<lparr>rule_policy := name\<rparr> # more" and "validRule name k (r\<lparr>rule_policy := name\<rparr>) = None"
    by (auto simp: Let_def split: option.splits sum.splits)
  with Cons.IH[OF more] show ?case by (simp add: validRule_wf)
qed

lemma compile_rules_ok:
  "\<forall>r \<in> set rs. wf_rule r \<Longrightarrow> compile_rules name k rs = Inr (map (\<lambda>r. r\<lparr>rule_policy := name\<rparr>) rs)"
proof (induction name k rs rule: compile_rules.induct)
  case (1 name i)
  then show ?case by simp
next
  case (2 name i r rs)
  have "validRule name i (r\<lparr>rule_policy := name\<rparr>) = None"
    using 2(2) by (simp add: validRule_wf wf_rule_def)
  with 2 show ?case by (simp add: Let_def)
qed

lemma compile_policies_wf:
  "compile_policies ps byName = Inr m \<Longrightarrow> \<forall>name p. byName name = Some p \<longrightarrow> wf_policy name p \<Longrightarrow>
   \<forall>name p. m name = Some p \<longrightarrow> wf_policy name p"
proof (induction ps byName rule: compile_policies.induct)
  case (1 byName)
  then show ?case by simp
next
  case (2 p ps byName)
  then obtain rs where rs: "compile_rules (PolicyName p) 0 (Rules p) = Inr rs"
    by (auto split: if_splits sum.splits)
  with 2(2) have new: "PolicyName p \<noteq> []" "\<not> byName (PolicyName p) \<noteq> None"
    and more: "compile_policies ps (byName(PolicyName p \<mapsto> p\<lparr>Rules := rs\<rparr>)) = Inr m"
    by (simp_all split: if_splits)
  have "wf_policy (PolicyName p) (p\<lparr>Rules := rs\<rparr>)"
    using new(1) compile_rules_wf[OF rs] by (simp add: wf_policy_def)
  with 2(3) show ?case by (intro 2(1)[OF new rs more]) simp
qed

lemma check_bindings_ok:
  "check_bindings byName k bs = None \<longleftrightarrow>
   (\<forall>b \<in> set bs. BPolicies b \<noteq> [] \<and> (\<forall>name \<in> set (BPolicies b). byName name \<noteq> None))"
proof (induction byName k bs rule: check_bindings.induct)
  case (1 byName i)
  then show ?case by simp
next
  case (2 byName i b bs)
  show ?case
  proof (cases "find (\<lambda>name. byName name = None) (BPolicies b)")
    case None
    then have "\<forall>name \<in> set (BPolicies b). byName name \<noteq> None" unfolding find_eq_None .
    with None 2 show ?thesis by auto
  next
    case (Some name)
    from find_SomeD[OF this] Some show ?thesis by auto
  qed
qed

lemma New_wf_engine: "New ps bs = Inr e \<Longrightarrow> wf_engine e"
proof -
  assume "New ps bs = Inr e"
  then obtain m where m: "compile_policies ps Map.empty = Inr m"
    and e: "check_bindings m 0 bs = None" "e = \<lparr>policies = m, bindings = bs\<rparr>"
    by (simp add: New_def split: sum.splits option.splits)
  show ?thesis
    unfolding wf_engine_def e(2) engine.select_convs
    using compile_policies_wf[OF m] e(1)[unfolded check_bindings_ok] by blast
qed

lemma bound_rules_policy:
  assumes "wf_engine e" and "r \<in> set (bound_rules e i)"
  shows "rule_policy r \<in> set (PoliciesFor e i) \<and> wf_rule r"
proof -
  from assms(2) obtain name p where "name \<in> set (PoliciesFor e i)" "policies e name = Some p" "r \<in> set (Rules p)"
    by (force simp: bound_rules_def rules_of_def split: option.splits)
  with assms(1) show ?thesis unfolding wf_engine_def wf_policy_def by metis
qed

text \<open>What a compiled engine holds: the given policies, each rule labelled.\<close>

definition labelled :: "policy \<Rightarrow> policy" where
  "labelled p = p\<lparr>Rules := map (\<lambda>r. r\<lparr>rule_policy := PolicyName p\<rparr>) (Rules p)\<rparr>"

lemma compile_rules_labels:
  "compile_rules name k rs = Inr rs' \<Longrightarrow> rs' = map (\<lambda>r. r\<lparr>rule_policy := name\<rparr>) rs"
  by (induction rs arbitrary: k rs') (auto simp: Let_def split: option.splits sum.splits)

lemma compile_policies_holds:
  "compile_policies ps byName = Inr m \<Longrightarrow>
   m = byName ++ map_of (map (\<lambda>p. (PolicyName p, labelled p)) ps) \<and>
   distinct (map PolicyName ps) \<and> set (map PolicyName ps) \<inter> dom byName = {}"
proof (induction ps arbitrary: byName)
  case Nil
  then show ?case by simp
next
  case (Cons p ps)
  then obtain rs where rs: "compile_rules (PolicyName p) 0 (Rules p) = Inr rs"
    and fresh: "byName (PolicyName p) = None"
    and more: "compile_policies ps (byName(PolicyName p \<mapsto> p\<lparr>Rules := rs\<rparr>)) = Inr m"
    by (auto split: if_splits sum.splits)
  have "p\<lparr>Rules := rs\<rparr> = labelled p" using compile_rules_labels[OF rs] by (simp add: labelled_def)
  with Cons.IH[OF more]
  have IH: "m = byName(PolicyName p \<mapsto> labelled p) ++ map_of (map (\<lambda>p. (PolicyName p, labelled p)) ps)"
    "distinct (map PolicyName ps)" "set (map PolicyName ps) \<inter> insert (PolicyName p) (dom byName) = {}"
    by (simp_all del: fun_upd_apply)
  have "map_of (map (\<lambda>p. (PolicyName p, labelled p)) ps) (PolicyName p) = None"
    unfolding map_of_eq_None_iff using IH(3) by auto
  then have "m = byName ++ map_of (map (\<lambda>p. (PolicyName p, labelled p)) (p # ps))"
    unfolding IH(1) by (subst map_add_upd_left) (auto simp: domIff)
  moreover have "distinct (map PolicyName (p # ps)) \<and> set (map PolicyName (p # ps)) \<inter> dom byName = {}"
    using IH(2,3) fresh by auto
  ultimately show ?case by blast
qed

lemma New_holds:
  assumes "New ps bs = Inr e"
  shows "policies e = map_of (map (\<lambda>p. (PolicyName p, labelled p)) ps) \<and> bindings e = bs \<and>
    distinct (map PolicyName ps)"
proof -
  from assms obtain m where m: "compile_policies ps Map.empty = Inr m" and e: "e = \<lparr>policies = m, bindings = bs\<rparr>"
    by (simp add: New_def split: sum.splits option.splits)
  from compile_policies_holds[OF m] e show ?thesis by simp
qed

lemma New_bound_rule:
  assumes "New ps bs = Inr e" and "r \<in> set (bound_rules e i)"
  obtains b q r0 where "b \<in> set bs" "matches (BMatch b) i" "q \<in> set ps" "PolicyName q \<in> set (BPolicies b)"
    "r0 \<in> set (Rules q)" "r = r0\<lparr>rule_policy := PolicyName q\<rparr>"
proof -
  from assms(2) obtain b name where b: "b \<in> set (bindings e)" "matches (BMatch b) i" "name \<in> set (BPolicies b)"
    "r \<in> set (rules_of e name)" unfolding bound_rules_iff by blast
  from b(4) obtain p where p: "policies e name = Some p" "r \<in> set (Rules p)"
    unfolding rules_of_def by (cases "policies e name") auto
  from p(1) New_holds[OF assms(1)] obtain q where q: "q \<in> set ps" "PolicyName q = name" "p = labelled q"
    by (auto dest!: map_of_SomeD)
  from p(2) q(2,3) obtain r0 where "r0 \<in> set (Rules q)" "r = r0\<lparr>rule_policy := PolicyName q\<rparr>"
    by (auto simp: labelled_def)
  with b q New_holds[OF assms(1)] show ?thesis by (intro that[of b q r0]) auto
qed

lemma compile_policies_ok:
  "distinct (map PolicyName ps) \<Longrightarrow> set (map PolicyName ps) \<inter> dom byName = {} \<Longrightarrow>
   \<forall>p \<in> set ps. PolicyName p \<noteq> [] \<and> (\<forall>r \<in> set (Rules p). wf_rule r) \<Longrightarrow>
   \<exists>m. compile_policies ps byName = Inr m \<and> dom byName \<union> set (map PolicyName ps) \<subseteq> dom m"
proof (induction ps arbitrary: byName)
  case Nil
  then show ?case by simp
next
  case (Cons p ps)
  let ?by = "byName(PolicyName p \<mapsto> p\<lparr>Rules := map (\<lambda>r. r\<lparr>rule_policy := PolicyName p\<rparr>) (Rules p)\<rparr>)"
  have dom: "dom ?by = insert (PolicyName p) (dom byName)" by simp
  have "\<exists>m. compile_policies ps ?by = Inr m \<and> dom ?by \<union> set (map PolicyName ps) \<subseteq> dom m"
    by (rule Cons.IH) (use Cons.prems in \<open>auto simp: dom simp del: fun_upd_apply dom_fun_upd\<close>)
  moreover have "compile_policies (p # ps) byName = compile_policies ps ?by"
    using Cons.prems by (simp add: compile_rules_ok domIff)
  ultimately show ?case unfolding dom by auto
qed

lemma New_ok:
  assumes "distinct (map PolicyName ps)"
    and "\<forall>p \<in> set ps. PolicyName p \<noteq> [] \<and> (\<forall>r \<in> set (Rules p). wf_rule r)"
    and "\<forall>b \<in> set bs. BPolicies b \<noteq> [] \<and> set (BPolicies b) \<subseteq> set (map PolicyName ps)"
  shows "\<exists>e. New ps bs = Inr e"
proof -
  from compile_policies_ok[OF assms(1) _ assms(2), of Map.empty] obtain m
    where m: "compile_policies ps Map.empty = Inr m" and d: "set (map PolicyName ps) \<subseteq> dom m" by auto
  have "\<forall>b \<in> set bs. BPolicies b \<noteq> [] \<and> (\<forall>name \<in> set (BPolicies b). m name \<noteq> None)"
    using assms(3) d by blast
  then have "check_bindings m 0 bs = None" unfolding check_bindings_ok .
  with m show ?thesis by (simp add: New_def)
qed

subsection \<open>Publishing: the optimistic test\<close>

definition plus_free :: "string \<Rightarrow> bool" where
  "plus_free s \<longleftrightarrow> CHR ''+'' \<notin> set s"

lemma plus_free_segments:
  assumes "plus_free s"
  shows "''+'' \<notin> set (split_on (CHR ''/'') s)"
  using assms split_on_subset[of "''+''" "CHR ''/''" s] by (auto simp: plus_free_def)

lemma match_reaches:
  assumes "match_path pat path = Some s" and "plus_free pat" and "has_prefix path pre"
  shows "has_prefix (trim_suffix pat ''*'') pre \<or> has_prefix pre (trim_suffix pat ''*'')"
proof (cases "has_suffix pat ''*''")
  case True
  define lit where "lit = trim_suffix pat ''*''"
  have pat: "pat = lit @ ''*''" unfolding lit_def by (rule has_suffix_split[OF True])
  with assms(2) have "''+'' \<notin> set (split_on (CHR ''/'') lit)"
    by (intro plus_free_segments) (simp add: plus_free_def)
  moreover have "match_path (lit @ ''*'') path \<noteq> None" using assms(1) pat by simp
  ultimately have "has_prefix path lit \<or> lit = path @ ''/''"
    unfolding match_path_open[of lit path s] using match_segments_prefix by blast
  with assms(3) show ?thesis
    unfolding lit_def[symmetric]
    using has_prefix_comparable[of path lit pre] has_prefix_trans[of lit path pre] by auto
next
  case False
  from assms(1) have "match_path pat path \<noteq> None" by simp
  then have "pat = path"
    unfolding match_path_closed[OF False] list_all2_seg_ok_eq[OF plus_free_segments[OF assms(2)]] split_on_inject .
  with False assms(3) show ?thesis by (simp add: trim_suffix_no)
qed

lemma MayReach_iff:
  "MayReach e i pre want \<longleftrightarrow>
   (\<exists>r \<in> set (bound_rules e i). want \<in> set (Capabilities r) \<and>
      (has_prefix (trim_suffix (Path r) ''*'') pre \<or> has_prefix pre (trim_suffix (Path r) ''*'')))"
  by (auto simp: MayReach_def bound_rules_def list_ex_iff Let_def)

lemma MayReach_complete:
  assumes "Allowed e i path want" and "has_prefix path pre"
    and "\<forall>r \<in> set (bound_rules e i). plus_free (Path r)"
  shows "MayReach e i pre want"
proof -
  from assms(1) obtain r s where "r \<in> set (bound_rules e i)" "want \<in> set (Capabilities r)"
    "match_path (Path r) path = Some s"
    unfolding Allowed_iff grants_def by (metis deciding_iff)
  with assms(2,3) match_reaches[of "Path r" path s pre] show ?thesis
    unfolding MayReach_iff by blast
qed

subsection \<open>Properties\<close>

text \<open>
  C3: the answer of the engine is its specification.  A request is allowed exactly when, among the
  most specific bound rules matching the path, some rule lists the capability and none denies; and
  the rule the decision cites is one of those rules: one that grants when it was allowed, one that
  denies when a denial decided.
\<close>

theorem explain_refines_spec:
  "(Allowed_d (Explain e i path want) \<longleftrightarrow>
      (\<exists>r \<in> set (deciding e i path). want \<in> set (Capabilities r)) \<and>
      (\<forall>r \<in> set (deciding e i path). CapDeny \<notin> set (Capabilities r))) \<and>
   (deciding e i path \<noteq> [] \<longrightarrow>
      (\<exists>r \<in> set (deciding e i path).
         DRule (Explain e i path want) = Path r \<and> DPolicy (Explain e i path want) = rule_policy r \<and>
         (Allowed_d (Explain e i path want) \<longrightarrow> want \<in> set (Capabilities r)) \<and>
         ((\<exists>r' \<in> set (deciding e i path). CapDeny \<in> set (Capabilities r')) \<longrightarrow>
            CapDeny \<in> set (Capabilities r))))"
  using Explain_cites[of e i path want] Explain_Allowed[of e i path want]
  unfolding grants_def by blast

definition example_identity :: identity where
  "example_identity = \<lparr>Kind = ''token'', Subject = ''ci'', Issuer = [], ProjectPath = [], Ref = []\<rparr>"

definition example_engine :: "rule list \<Rightarrow> engine" where
  "example_engine rs =
     \<lparr>policies = [''team'' \<mapsto> \<lparr>PolicyName = ''team'', Rules = rs\<rparr>],
      bindings = [\<lparr>BindingName = ''b'', BPolicies = [''team''],
        BMatch = \<lparr>MKind = ''token'', MIssuer = [], MSubject = [], MProjectPath = [], MRef = [],
                  MAuthenticated = False\<rparr>\<rparr>]\<rparr>"

lemma example_bound: "bound_rules (example_engine rs) example_identity = rs"
  by (simp add: bound_rules_def PoliciesFor_def boundVia_def example_engine_def example_identity_def
      matches_def glob_def cut_suffix_def has_suffix_def has_prefix_def IsAnonymous_def rules_of_def)

definition broad_deny :: rule where
  "broad_deny = \<lparr>Path = ''feed/central/*'', Capabilities = [''deny''], rule_policy = ''team''\<rparr>"

definition narrow_grant :: rule where
  "narrow_grant = \<lparr>Path = ''feed/central/com/*'', Capabilities = [''read''], rule_policy = ''team''\<rparr>"

lemma example_matches:
  "match_path (Path broad_deny) ''feed/central/com/a'' = Some \<lparr>exact = False, pluses = 0, literal = 11, segments = 2\<rparr>"
  "match_path (Path narrow_grant) ''feed/central/com/a'' = Some \<lparr>exact = False, pluses = 0, literal = 14, segments = 3\<rparr>"
  by code_simp+

theorem explain_refines_spec_witness:
  "\<not> Allowed_d (Explain (example_engine [broad_deny]) example_identity ''feed/central/com/a'' ''read'') \<and>
   DRule (Explain (example_engine [broad_deny]) example_identity ''feed/central/com/a'' ''read'') = ''feed/central/*''"
proof -
  have d: "deciding (example_engine [broad_deny]) example_identity ''feed/central/com/a'' = [broad_deny]"
    by (simp add: deciding_def top_rated_def example_bound example_matches beats_def)
  then show ?thesis
    using explain_refines_spec[of "example_engine [broad_deny]" example_identity "''feed/central/com/a''" "''read''"]
    by (simp add: broad_deny_def CapDeny_def)
qed

text \<open>
  a rule more specific than every other bound rule matching the path decides alone, so a narrow
  grant is an exception to a broad denial and a narrow denial to a broad grant.
\<close>

theorem most_specific_rule_decides:
  assumes "r \<in> set (bound_rules e i)" and "match_path (Path r) path = Some s"
    and "\<forall>r' \<in> set (bound_rules e i). \<forall>s'. match_path (Path r') path = Some s' \<longrightarrow> r' = r \<or> beats s s'"
  shows "Allowed e i path want \<longleftrightarrow> want \<in> set (Capabilities r) \<and> CapDeny \<notin> set (Capabilities r)"
proof -
  have "r' \<in> set (deciding e i path) \<longleftrightarrow> r' = r" for r'
    unfolding deciding_iff using assms by (metis option.inject specific.asym specific.irrefl)
  then have "set (deciding e i path) = {r}" by blast
  then show ?thesis unfolding Allowed_iff grants_def by simp
qed

theorem most_specific_rule_decides_witness:
  "Allowed (example_engine [broad_deny, narrow_grant]) example_identity ''feed/central/com/a'' ''read''"
proof -
  have "narrow_grant \<noteq> broad_deny" by (simp add: narrow_grant_def broad_deny_def)
  then show ?thesis
    using most_specific_rule_decides[of narrow_grant "example_engine [broad_deny, narrow_grant]"
        example_identity "''feed/central/com/a''" "\<lparr>exact = False, pluses = 0, literal = 14, segments = 3\<rparr>" "''read''"]
    by (simp add: example_bound example_matches beats_def) (simp add: narrow_grant_def CapDeny_def)
qed

text \<open>
  an engine that compiles is well formed (every rule valid and labelled with its policy, every
  binding attaching existing policies), and it denies by default: what it allows, it allows through
  a rule of a policy that a binding matching the identity attaches.
\<close>

theorem compiled_engine_denies_by_default:
  assumes "New ps bs = Inr e"
  shows "wf_engine e \<and>
    (Allowed e i path want \<longrightarrow>
       (\<exists>b \<in> set bs. matches (BMatch b) i \<and>
          (\<exists>name \<in> set (BPolicies b). \<exists>p. policies e name = Some p \<and>
             (\<exists>r \<in> set (Rules p). rule_policy r = name \<and> match_path (Path r) path \<noteq> None \<and>
                want \<in> set (Capabilities r)))))"
proof (intro conjI impI)
  show wf: "wf_engine e" using New_wf_engine[OF assms] .
  assume "Allowed e i path want"
  then obtain r s where r: "r \<in> set (bound_rules e i)" "want \<in> set (Capabilities r)" "match_path (Path r) path = Some s"
    unfolding Allowed_iff grants_def by (metis deciding_iff)
  then obtain b name where b: "b \<in> set (bindings e)" "matches (BMatch b) i" "name \<in> set (BPolicies b)" "r \<in> set (rules_of e name)"
    unfolding bound_rules_iff by blast
  moreover from b(4) obtain p where "policies e name = Some p" "r \<in> set (Rules p)"
    unfolding rules_of_def by (cases "policies e name") auto
  moreover have "bindings e = bs"
    using assms by (auto simp: New_def split: sum.splits option.splits)
  ultimately show "\<exists>b \<in> set bs. matches (BMatch b) i \<and>
          (\<exists>name \<in> set (BPolicies b). \<exists>p. policies e name = Some p \<and>
             (\<exists>r \<in> set (Rules p). rule_policy r = name \<and> match_path (Path r) path \<noteq> None \<and>
                want \<in> set (Capabilities r)))"
    using r(2,3) wf unfolding wf_engine_def wf_policy_def by (metis option.distinct(1))
qed

theorem compiled_engine_denies_by_default_witness:
  "\<exists>e. New [\<lparr>PolicyName = ''team'', Rules = [narrow_grant]\<rparr>] [] = Inr e \<and>
       \<not> Allowed e example_identity ''feed/central/com/a'' ''read''"
proof -
  let ?ps = "[\<lparr>PolicyName = ''team'', Rules = [narrow_grant]\<rparr>]"
  have "validRule ''team'' 0 narrow_grant = None" by code_simp
  moreover have "narrow_grant\<lparr>rule_policy := ''team''\<rparr> = narrow_grant" by (simp add: narrow_grant_def)
  ultimately obtain e where e: "New ?ps [] = Inr e"
    by (simp add: New_def)
  with compiled_engine_denies_by_default[OF e, of example_identity "''feed/central/com/a''" "''read''"]
  show ?thesis by auto
qed

text \<open>
  the early test of a publish never refuses what the decision would allow, as long as no bound
  rule uses a one-segment wildcard: if some path under the prefix is allowed, the prefix is reachable.
\<close>

theorem may_reach_is_optimistic:
  assumes "Allowed e i path want" and "has_prefix path pre"
    and "\<forall>r \<in> set (bound_rules e i). plus_free (Path r)"
  shows "MayReach e i pre want"
  using MayReach_complete[OF assms] .

theorem may_reach_is_optimistic_witness:
  "MayReach (example_engine [narrow_grant]) example_identity ''feed/central/'' ''read''"
proof (rule may_reach_is_optimistic)
  have "deciding (example_engine [narrow_grant]) example_identity ''feed/central/com/a'' = [narrow_grant]"
    by (simp add: deciding_def top_rated_def example_bound example_matches beats_def)
  then show "Allowed (example_engine [narrow_grant]) example_identity ''feed/central/com/a'' ''read''"
    unfolding Allowed_iff grants_def by (simp add: narrow_grant_def CapDeny_def)
  show "has_prefix ''feed/central/com/a'' ''feed/central/''" by simp
  show "\<forall>r \<in> set (bound_rules (example_engine [narrow_grant]) example_identity). plus_free (Path r)"
    unfolding example_bound by (simp add: narrow_grant_def plus_free_def)
qed

definition plus_grant :: rule where
  "plus_grant = \<lparr>Path = ''feed/+/*'', Capabilities = [''publish''], rule_policy = ''team''\<rparr>"

text \<open>
  with a one-segment wildcard the early test refuses what the decision allows: the rule
  \<^verbatim>\<open>feed/+/*\<close> grants a publish under \<^verbatim>\<open>feed/libs/\<close> that the test rejects.
\<close>

theorem may_reach_misses_plus:
  "Allowed (example_engine [plus_grant]) example_identity ''feed/libs/a'' ''publish'' \<and>
   \<not> MayReach (example_engine [plus_grant]) example_identity ''feed/libs/'' ''publish''"
proof
  have "match_path (Path plus_grant) ''feed/libs/a'' = Some \<lparr>exact = False, pluses = 1, literal = 4, segments = 2\<rparr>"
    by code_simp
  then have "deciding (example_engine [plus_grant]) example_identity ''feed/libs/a'' = [plus_grant]"
    by (simp add: deciding_def top_rated_def example_bound beats_def)
  then show "Allowed (example_engine [plus_grant]) example_identity ''feed/libs/a'' ''publish''"
    unfolding Allowed_iff grants_def by (simp add: plus_grant_def CapDeny_def)
  have "trim_suffix (Path plus_grant) ''*'' = ''feed/+/''" by code_simp
  then show "\<not> MayReach (example_engine [plus_grant]) example_identity ''feed/libs/'' ''publish''"
    unfolding MayReach_iff example_bound by simp
qed

end
