(* ===== verification/Config_Types.thy ===== *)
theory Config_Types
  imports Access_Engine
begin

text \<open>
  The configuration document, \<^verbatim>\<open>src/core/config/config.go\<close>, \<^verbatim>\<open>replication.go\<close> and
  \<^verbatim>\<open>authmethods.go\<close>: one record per Go struct, the effective values of omitted settings, the
  write model of a feed and the sign-in methods offered.  Durations are nanoseconds (\<^typ>\<open>int\<close>).
  The options of a policy are passed verbatim to the policy and are not represented.
\<close>

subsection \<open>Records\<close>

record site_config =
  SiteName :: string
  ExternalURL :: string

record server_config =
  Listen :: string
  ShutdownTimeout :: int
  ReloadInterval :: int
  ProjectionRepair :: int
  UsageScan :: int
  UsageFlush :: int

record auth_method_config =
  AMType :: string
  AMLabel :: string
  AMIssuer :: string
  AMHelp :: string
  AMHidden :: bool

record auth_method =
  MType :: string
  MLabel :: string
  MethodIssuer :: string
  MHelp :: string
  MFlow :: string

record oidc_issuer =
  OIssuer :: string
  Audience :: string
  JWKSURL :: string
  ClientID :: string
  ClientSecretEnv :: string
  Scopes :: "string list"
  AuthorizationEndpoint :: string
  TokenEndpoint :: string

record auth_config =
  RevocationSweep :: int
  StaleIdentityWindow :: int
  staleWindowSet :: bool
  TokenCacheTTL :: int
  OIDC :: "oidc_issuer list"
  Methods :: "auth_method_config list"

record s3_config =
  Endpoint :: string
  Bucket :: string
  Region :: string
  AccessKey :: string
  AccessKeyFile :: string
  SecretKey :: string
  SecretKeyFile :: string
  UseSSL :: bool

record storage_config =
  StorageType :: string
  FSPath :: string
  S3 :: s3_config

record source_config =
  SourceType :: string
  SourceKey :: string

record feed_config =
  FName :: string
  Format :: string
  Upstream :: string
  Anonymous :: bool
  Hosted :: bool
  Publishers :: "string list"
  UpstreamRPS :: int
  Redirect :: bool
  RedirectTTL :: int
  PublishPolicyName :: string
  ReplicationMode :: string
  PeerFallback :: bool
  PolicyNames :: "string list"
  Members :: "string list"

record repl_auth_config =
  RAType :: string
  CAFile :: string
  CertFile :: string
  KeyFile :: string
  RATokenFile :: string

record peer_config =
  PeerName :: string
  PeerURL :: string
  PublicURL :: string
  PullInterval :: int
  PeerTokenFile :: string

record replication_config =
  Enabled :: bool
  InternalListen :: string
  RAuth :: repl_auth_config
  Topology :: string
  Peers :: "peer_config list"
  Nudge :: bool
  JournalRetention :: int
  MaxClockSkew :: int
  BlobConcurrency :: int
  BlobResume :: bool

record access_rule_config =
  RulePath :: string
  RuleCapabilities :: "string list"

record access_policy_config =
  APName :: string
  APRules :: "access_rule_config list"

record binding_config =
  BCName :: string
  BCPolicies :: "string list"
  BCMatch :: match_spec

record config =
  Site :: site_config
  Server :: server_config
  Storage :: storage_config
  DSN :: string
  Auth :: auth_config
  Feeds :: "feed_config list"
  Replication :: replication_config
  Admins :: "string list"
  ConfigSource :: source_config
  AccessPolicies :: "access_policy_config list"
  Bindings :: "binding_config list"

subsection \<open>Effective values\<close>

definition second :: int where "second = 1000000000"
definition minute :: int where "minute = 60 * second"
definition hour :: int where "hour = 60 * minute"

definition ProjectionRepairOrDefault :: "server_config \<Rightarrow> int" where
  "ProjectionRepairOrDefault s = (if ProjectionRepair s > 0 then ProjectionRepair s else 5 * minute)"

definition UsageScanOrDefault :: "server_config \<Rightarrow> int" where
  "UsageScanOrDefault s = (if UsageScan s \<noteq> 0 then UsageScan s else hour)"

definition UsageFlushOrDefault :: "server_config \<Rightarrow> int" where
  "UsageFlushOrDefault s = (if UsageFlush s \<noteq> 0 then UsageFlush s else 30 * second)"

definition StaleIdentityWindowOrDefault :: "auth_config \<Rightarrow> int" where
  "StaleIdentityWindowOrDefault a = StaleIdentityWindow a"

definition RevocationSweepOrDefault :: "auth_config \<Rightarrow> int" where
  "RevocationSweepOrDefault a = (if RevocationSweep a > 0 then RevocationSweep a else 5 * second)"

definition BrowserSignIn :: "oidc_issuer \<Rightarrow> bool" where
  "BrowserSignIn i \<longleftrightarrow> ClientID i \<noteq> []"

definition ScopesOrDefault :: "oidc_issuer \<Rightarrow> string list" where
  "ScopesOrDefault i = (if length (Scopes i) > 0 then Scopes i else [''openid''])"

definition SourceTypeOrDefault :: "source_config \<Rightarrow> string" where
  "SourceTypeOrDefault c = (if SourceType c = [] then ''file'' else SourceType c)"

definition IsGroup :: "feed_config \<Rightarrow> bool" where
  "IsGroup f \<longleftrightarrow> length (Members f) > 0"

definition RedirectTTLOrDefault :: "feed_config \<Rightarrow> int" where
  "RedirectTTLOrDefault f = (if RedirectTTL f > 0 then RedirectTTL f else 15 * minute)"

definition RetentionOrDefault :: "replication_config \<Rightarrow> int" where
  "RetentionOrDefault r = (if JournalRetention r > 0 then JournalRetention r else 30 * 24 * hour)"

definition SkewOrDefault :: "replication_config \<Rightarrow> int" where
  "SkewOrDefault r = (if MaxClockSkew r > 0 then MaxClockSkew r else 5 * minute)"

definition default_to :: "'a \<Rightarrow> 'a \<Rightarrow> 'a \<Rightarrow> 'a" where
  "default_to zero d x = (if x = zero then d else x)"

definition applyDefaults :: "config \<Rightarrow> config" where
  "applyDefaults c = c\<lparr>
     Site := (Site c)\<lparr>SiteName := default_to [] ''default'' (SiteName (Site c))\<rparr>,
     Server := (Server c)\<lparr>
       Listen := default_to [] '':8080'' (Listen (Server c)),
       ShutdownTimeout := default_to 0 (10 * second) (ShutdownTimeout (Server c)),
       ReloadInterval := default_to 0 (30 * second) (ReloadInterval (Server c))\<rparr>,
     Auth := (Auth c)\<lparr>
       RevocationSweep := default_to 0 (5 * second) (RevocationSweep (Auth c)),
       StaleIdentityWindow := (if \<not> staleWindowSet (Auth c) then 6 * hour else StaleIdentityWindow (Auth c)),
       TokenCacheTTL := default_to 0 (5 * minute) (TokenCacheTTL (Auth c))\<rparr>\<rparr>"

lemma default_to_idem [simp]: "d \<noteq> zero \<Longrightarrow> default_to zero d (default_to zero d x) = default_to zero d x"
  by (simp add: default_to_def)

lemma applyDefaults_idem: "applyDefaults (applyDefaults c) = applyDefaults c"
  by (simp add: applyDefaults_def second_def minute_def)

subsection \<open>Where a feed accepts writes\<close>

record publish_policy =
  HomeSite :: string
  Local :: bool
  ActiveActive :: bool

definition Publish :: "feed_config \<Rightarrow> string \<Rightarrow> publish_policy" where
  "Publish f siteName =
     (if PublishPolicyName f = [] \<or> PublishPolicyName f = ''local'' then
        \<lparr>HomeSite = [], Local = True, ActiveActive = (PublishPolicyName f = ''local'')\<rparr>
      else if has_prefix (PublishPolicyName f) ''forward:'' then
        let home = trim_prefix (PublishPolicyName f) ''forward:'' in
        if home = siteName then \<lparr>HomeSite = home, Local = True, ActiveActive = False\<rparr>
        else \<lparr>HomeSite = home, Local = False, ActiveActive = False\<rparr>
      else \<lparr>HomeSite = [], Local = True, ActiveActive = False\<rparr>)"

subsection \<open>Sign-in methods\<close>

definition issuerSignsInBrowsers :: "config \<Rightarrow> string \<Rightarrow> bool" where
  "issuerSignsInBrowsers c issuer =
     (case find (\<lambda>candidate. OIssuer candidate = issuer) (OIDC (Auth c)) of
        Some candidate \<Rightarrow> BrowserSignIn candidate
      | None \<Rightarrow> False)"

definition shortIssuer :: "string \<Rightarrow> string" where
  "shortIssuer issuer = trim_suffix (trim_prefix (trim_prefix issuer ''https://'') ''http://'') ''/''"

definition present :: "config \<Rightarrow> auth_method_config \<Rightarrow> auth_method" where
  "present c m =
     (let out = \<lparr>MType = AMType m, MLabel = AMLabel m, MethodIssuer = AMIssuer m, MHelp = AMHelp m,
                 MFlow = ''token''\<rparr>
      in if AMType m = ''token'' then
           let out = (if MLabel out = [] then out\<lparr>MLabel := ''Registry token''\<rparr> else out)
           in if MHelp out = [] then out\<lparr>MHelp := ''The token your CI uses. Paste it as-is.''\<rparr> else out
         else if AMType m = ''oidc'' then
           let out = (if issuerSignsInBrowsers c (AMIssuer m) then out\<lparr>MFlow := ''browser''\<rparr> else out);
               name = (if AMIssuer m \<noteq> [] then shortIssuer (AMIssuer m) else ''your identity provider'');
               out = (if MLabel out = [] then
                        out\<lparr>MLabel := (if MFlow out = ''browser'' then ''Sign in with '' @ name
                                       else if AMIssuer m \<noteq> [] then ''id_token from '' @ name
                                       else ''OIDC id_token'')\<rparr>
                      else out)
           in if MHelp out = [] then
                out\<lparr>MHelp := (if MFlow out = ''browser''
                   then ''Opens '' @ name @ '' and comes back signed in. A pipeline still presents its own id_token.''
                   else ''A JWT from a trusted issuer '' @ map char_of [0xE2, 0x80, 0x94 :: nat] @ '' the same one a pipeline presents. Paste it as-is.'')\<rparr>
              else out
         else out)"

definition AuthMethods :: "config \<Rightarrow> auth_method list" where
  "AuthMethods c =
     (if length (Methods (Auth c)) > 0 then
        map (\<lambda>m. present c
               (if AMType m = ''oidc'' \<and> AMIssuer m = [] \<and> length (OIDC (Auth c)) = 1
                then m\<lparr>AMIssuer := OIssuer (hd (OIDC (Auth c)))\<rparr> else m))
          (filter (\<lambda>m. \<not> AMHidden m) (Methods (Auth c)))
      else
        (if DSN c \<noteq> [] then [present c \<lparr>AMType = ''token'', AMLabel = [], AMIssuer = [], AMHelp = [], AMHidden = False\<rparr>] else []) @
        map (\<lambda>issuer. present c \<lparr>AMType = ''oidc'', AMLabel = [], AMIssuer = OIssuer issuer, AMHelp = [], AMHidden = False\<rparr>)
          (OIDC (Auth c)))"

end
