(* ===== verification/Config_Access.thy ===== *)
theory Config_Access
  imports Config_Types
begin

text \<open>
  Access control as configuration, \<^verbatim>\<open>src/core/config/access.go\<close>: the older fields
  (\<open>Anonymous\<close>, \<open>Publishers\<close>, \<open>Admins\<close>) and the declared policies and bindings are
  compiled into one engine by \<open>AccessEngine\<close>; \<open>validateAccess\<close> reports every mistake of
  the access section.  Shown: a section that validates compiles, and what the generated policies
  grant to whom.
\<close>

subsection \<open>Paths\<close>

definition FeedPathPrefix :: string where "FeedPathPrefix = ''feed/''"
definition SysPathPrefix :: string where "SysPathPrefix = ''sys/''"

definition FeedPath :: "string \<Rightarrow> string \<Rightarrow> string" where
  "FeedPath feed coordinate =
     (if coordinate = [] then FeedPathPrefix @ feed else FeedPathPrefix @ feed @ ''/'' @ coordinate)"

definition sysAreas :: "string list" where
  "sysAreas = [''sys/config'', ''sys/tokens'', ''sys/quarantine'', ''sys/conflicts'',
     ''sys/replication'', ''sys/status'', ''sys/feeds'']"

definition operationalAreas :: "string list" where
  "operationalAreas = [''sys/status'', ''sys/feeds'', ''sys/replication'', ''sys/conflicts'', ''sys/quarantine'']"

subsection \<open>Compiling the older fields\<close>

definition no_match :: match_spec where
  "no_match = \<lparr>MKind = [], MIssuer = [], MSubject = [], MProjectPath = [], MRef = [], MAuthenticated = False\<rparr>"

definition matchFromPattern :: "string \<Rightarrow> match_spec" where
  "matchFromPattern pattern =
     (if pattern = ''*'' then no_match\<lparr>MAuthenticated := True\<rparr>
      else (case str_cut pattern '':'' of (kind, rest, ok) \<Rightarrow>
        if \<not> ok then no_match\<lparr>MKind := ''none''\<rparr>
        else if kind = ''token'' \<or> kind = ''oidc'' then no_match\<lparr>MKind := kind, MSubject := rest\<rparr>
        else if kind = ''project'' then
          (case str_cut rest ''@'' of (project, ref, hasRef) \<Rightarrow>
             let m = no_match\<lparr>MKind := ''oidc'', MProjectPath := project\<rparr>
             in if hasRef then m\<lparr>MRef := ref\<rparr> else m)
        else no_match\<lparr>MKind := ''none''\<rparr>))"

definition mk_rule :: "string \<Rightarrow> capabilities \<Rightarrow> rule" where
  "mk_rule path caps = \<lparr>Path = path, Capabilities = caps, rule_policy = []\<rparr>"

definition mk_binding :: "string \<Rightarrow> match_spec \<Rightarrow> binding_spec" where
  "mk_binding name m = \<lparr>BindingName = [], BPolicies = [name], BMatch = m\<rparr>"

definition readName :: "feed_config \<Rightarrow> string" where
  "readName f = ''feed:'' @ FName f @ '':read''"

definition publishName :: "feed_config \<Rightarrow> string" where
  "publishName f = ''feed:'' @ FName f @ '':publish''"

definition legacy_feed :: "feed_config \<Rightarrow> policy list \<times> binding_spec list" where
  "legacy_feed f =
     (let ps = [\<lparr>PolicyName = readName f,
                 Rules = [mk_rule (FeedPath (FName f) ''*'') [CapRead, CapList]]\<rparr>];
          bs = [mk_binding (readName f) (no_match\<lparr>MAuthenticated := \<not> Anonymous f\<rparr>)]
      in if length (Publishers f) = 0 then (ps, bs)
         else (ps @ [\<lparr>PolicyName = publishName f,
                      Rules = [mk_rule (FeedPath (FName f) ''*'') [CapPublish]]\<rparr>],
               bs @ map (\<lambda>pattern. mk_binding (publishName f) (matchFromPattern pattern)) (Publishers f)))"

definition admin_everything :: capabilities where
  "admin_everything = [CapRead, CapList, CapCreate, CapUpdate, CapDelete]"

definition compileLegacy :: "config \<Rightarrow> policy list \<times> binding_spec list" where
  "compileLegacy c =
     (let fps = concat (map (\<lambda>f. fst (legacy_feed f)) (Feeds c));
          fbs = concat (map (\<lambda>f. snd (legacy_feed f)) (Feeds c));
          (aps, abs) =
            (if length (Admins c) > 0 then
               ([\<lparr>PolicyName = ''sys:admin'',
                  Rules = mk_rule (SysPathPrefix @ ''*'') admin_everything #
                          map (\<lambda>area. mk_rule area admin_everything) sysAreas\<rparr>],
                map (\<lambda>pattern. mk_binding ''sys:admin'' (matchFromPattern pattern)) (Admins c))
             else ([], []))
      in (fps @ aps @ [\<lparr>PolicyName = ''sys:read'',
                        Rules = map (\<lambda>area. mk_rule area [CapRead, CapList]) operationalAreas\<rparr>],
          fbs @ abs @ [mk_binding ''sys:read'' (no_match\<lparr>MAuthenticated := True\<rparr>)]))"

definition declared_policy :: "access_policy_config \<Rightarrow> policy" where
  "declared_policy p =
     \<lparr>PolicyName = APName p, Rules = map (\<lambda>r. mk_rule (RulePath r) (RuleCapabilities r)) (APRules p)\<rparr>"

definition declared_binding :: "binding_config \<Rightarrow> binding_spec" where
  "declared_binding b = \<lparr>BindingName = BCName b, BPolicies = BCPolicies b, BMatch = BCMatch b\<rparr>"

definition AccessEngine :: "config \<Rightarrow> access_error + engine" where
  "AccessEngine c =
     (case compileLegacy c of (ps, bs) \<Rightarrow>
       New (ps @ map declared_policy (AccessPolicies c)) (bs @ map declared_binding (Bindings c)))"

subsection \<open>Validation of the access section\<close>

datatype access_violation =
    PolicyNameRequired nat
  | ReservedPolicyName nat string
  | DuplicatePolicyName nat string
  | PolicyHasNoRules nat
  | RulePathRequired nat nat
  | RulePathOutsideNamespaces nat nat string
  | RuleStarNotAtEnd nat nat string
  | RuleNoCapabilities nat nat
  | RuleUnknownCapability nat nat string
  | BindingNameRequired nat
  | DuplicateBindingName nat string
  | BindingNamesNoPolicies nat
  | BindingPolicyUndefined nat string
  | BindingKindUnknown nat string

definition validateAccessRule :: "nat \<Rightarrow> nat \<Rightarrow> access_rule_config \<Rightarrow> access_violation list" where
  "validateAccessRule i j r =
     (if RulePath r = [] then [RulePathRequired i j]
      else if \<not> has_prefix (RulePath r) FeedPathPrefix \<and> \<not> has_prefix (RulePath r) SysPathPrefix
        then [RulePathOutsideNamespaces i j (RulePath r)]
      else if contains_str (trim_suffix (RulePath r) ''*'') ''*'' then [RuleStarNotAtEnd i j (RulePath r)]
      else []) @
     (if length (RuleCapabilities r) = 0 then [RuleNoCapabilities i j] else []) @
     map (RuleUnknownCapability i j) (filter (\<lambda>raw. \<not> Known raw) (RuleCapabilities r))"

fun validate_rules :: "nat \<Rightarrow> nat \<Rightarrow> access_rule_config list \<Rightarrow> access_violation list" where
  "validate_rules i j [] = []"
| "validate_rules i j (r # rs) = validateAccessRule i j r @ validate_rules i (j + 1) rs"

fun validate_policies ::
  "nat \<Rightarrow> access_policy_config list \<Rightarrow> string list \<Rightarrow> access_violation list \<times> string list" where
  "validate_policies i [] names = ([], names)"
| "validate_policies i (p # ps) names =
     (let (nameErrs, names') =
            (if APName p = [] then ([PolicyNameRequired i], names)
             else if has_prefix (APName p) ''feed:'' \<or> has_prefix (APName p) ''sys:'' then
               ([ReservedPolicyName i (APName p)], names)
             else if APName p \<in> set names then ([DuplicatePolicyName i (APName p)], names)
             else ([], names @ [APName p]));
          (more, names'') = validate_policies (i + 1) ps names'
      in (nameErrs @ (if length (APRules p) = 0 then [PolicyHasNoRules i] else []) @
            validate_rules i 0 (APRules p) @ more, names''))"

fun validate_bindings :: "string list \<Rightarrow> nat \<Rightarrow> binding_config list \<Rightarrow> string list \<Rightarrow> access_violation list" where
  "validate_bindings names i [] bindingNames = []"
| "validate_bindings names i (b # bs) bindingNames =
     (let (nameErrs, bindingNames') =
            (if BCName b = [] then ([BindingNameRequired i], bindingNames)
             else if BCName b \<in> set bindingNames then ([DuplicateBindingName i (BCName b)], bindingNames)
             else ([], bindingNames @ [BCName b]))
      in nameErrs @
         (if length (BCPolicies b) = 0 then [BindingNamesNoPolicies i] else []) @
         map (BindingPolicyUndefined i) (filter (\<lambda>name. name \<notin> set names) (BCPolicies b)) @
         (if MKind (BCMatch b) \<in> {[], ''token'', ''oidc'', ''anonymous''} then []
          else [BindingKindUnknown i (MKind (BCMatch b))]) @
         validate_bindings names (i + 1) bs bindingNames')"

definition validateAccess :: "config \<Rightarrow> access_violation list" where
  "validateAccess c =
     (case validate_policies 0 (AccessPolicies c) [] of (errs, names) \<Rightarrow>
        errs @ validate_bindings names 0 (Bindings c) [])"

definition AccessPolicyNames :: "config \<Rightarrow> string list" where
  "AccessPolicyNames c = sort (map APName (AccessPolicies c))"

subsection \<open>Names of feeds\<close>

text \<open>\<^verbatim>\<open>feedNameRE\<close>: lower-case letters, digits and inner dashes.\<close>

definition lower_alnum :: "char \<Rightarrow> bool" where
  "lower_alnum ch \<longleftrightarrow> (CHR ''a'' \<le> ch \<and> ch \<le> CHR ''z'') \<or> (CHR ''0'' \<le> ch \<and> ch \<le> CHR ''9'')"

definition feedNameRE :: "string \<Rightarrow> bool" where
  "feedNameRE s \<longleftrightarrow> s \<noteq> [] \<and> list_all (\<lambda>ch. lower_alnum ch \<or> ch = CHR ''-'') s \<and>
     lower_alnum (hd s) \<and> lower_alnum (last s)"

definition formatRE :: "string \<Rightarrow> bool" where
  "formatRE s \<longleftrightarrow> s \<noteq> [] \<and> list_all lower_alnum s"

lemma feedNameRE_plain:
  assumes "feedNameRE s"
  shows "CHR ''/'' \<notin> set s" "CHR ''*'' \<notin> set s" "CHR ''+'' \<notin> set s" "CHR '':'' \<notin> set s"
proof -
  have "\<not> (lower_alnum ch \<or> ch = CHR ''-'')" if "ch \<in> {CHR ''/'', CHR ''*'', CHR ''+'', CHR '':''}" for ch
    using that by (auto simp: lower_alnum_def less_eq_char_def)
  with assms show "CHR ''/'' \<notin> set s" "CHR ''*'' \<notin> set s" "CHR ''+'' \<notin> set s" "CHR '':'' \<notin> set s"
    by (auto simp: feedNameRE_def list_all_iff)
qed

subsection \<open>Whom a pattern matches\<close>

lemma glob_exact: "CHR ''*'' \<notin> set p \<Longrightarrow> glob p v \<longleftrightarrow> p = v"
proof -
  assume "CHR ''*'' \<notin> set p"
  then have "\<not> has_suffix p ''*''" using has_suffix_split[of p "''*''"] by (metis in_set_conv_decomp)
  then show ?thesis by (auto simp: glob_def)
qed

lemma matchFromPattern_authenticates: "matches (matchFromPattern pattern) i \<Longrightarrow> \<not> IsAnonymous i"
proof -
  assume m: "matches (matchFromPattern pattern) i"
  have "MAuthenticated (matchFromPattern pattern) \<or> MKind (matchFromPattern pattern) \<in> {''none'', ''token'', ''oidc''}"
    by (auto simp: matchFromPattern_def no_match_def Let_def split: prod.splits)
  then show ?thesis
  proof
    assume "MAuthenticated (matchFromPattern pattern)"
    with m show ?thesis by (simp add: matches_def split: if_splits)
  next
    assume k: "MKind (matchFromPattern pattern) \<in> {''none'', ''token'', ''oidc''}"
    with m have "glob (MKind (matchFromPattern pattern)) (Kind i)"
      by (auto simp: matches_def split: if_splits)
    with k have "Kind i \<in> {''none'', ''token'', ''oidc''}"
      by (auto simp: glob_exact)
    then show ?thesis by (auto simp: IsAnonymous_def)
  qed
qed

subsection \<open>Where the generated rules apply\<close>

lemma match_other_root:
  assumes "CHR ''/'' \<notin> set w" and "CHR ''/'' \<notin> set v" and "w \<noteq> ''+''" and "w \<noteq> v"
  shows "match_path (w @ CHR ''/'' # rest) (v @ CHR ''/'' # tail) = None"
proof -
  define pat where "pat = w @ CHR ''/'' # rest"
  obtain pre tr where cut: "cut_suffix pat ''*'' = (pre, tr)" by fastforce
  have "\<exists>rest'. pre = w @ CHR ''/'' # rest'"
  proof (cases "has_suffix pat ''*''")
    case True
    then have "pat = pre @ ''*''" using has_suffix_split[OF True] cut by (simp add: cut_suffix_def)
    then show ?thesis
      by (cases rest rule: rev_cases) (auto simp: pat_def)
  next
    case False
    with cut show ?thesis by (auto simp: pat_def)
  qed
  then obtain rest' where pre: "pre = w @ CHR ''/'' # rest'" by blast
  show ?thesis
    unfolding pat_def[symmetric] match_path_def cut
    using assms by (auto simp: pre split_on_append Let_def)
qed

lemma FeedPath_root: "FeedPath feed coordinate = ''feed'' @ CHR ''/'' # (if coordinate = [] then feed else feed @ ''/'' @ coordinate)"
  by (simp add: FeedPath_def FeedPathPrefix_def)

lemma feed_rule_not_sys: "match_path (FeedPath name ''*'') (''sys'' @ CHR ''/'' # area) = None"
  unfolding FeedPath_root by (rule match_other_root) simp_all

lemma sys_rule_not_feed: "match_path (''sys'' @ CHR ''/'' # area) (FeedPath feed coordinate) = None"
  unfolding FeedPath_root by (rule match_other_root) simp_all

lemma feed_rule_same_feed:
  assumes "feedNameRE name" and "CHR ''/'' \<notin> set feed"
    and "match_path (FeedPath name ''*'') (FeedPath feed coordinate) \<noteq> None"
  shows "name = feed"
proof -
  let ?pre = "''feed/'' @ name @ ''/''"
  have pat: "FeedPath name ''*'' = ?pre @ ''*''" by (simp add: FeedPath_def FeedPathPrefix_def)
  have "plus_free ?pre" using feedNameRE_plain(3)[OF assms(1)] by (simp add: plus_free_def)
  then have nf: "''+'' \<notin> set (split_on (CHR ''/'') ?pre)" by (rule plus_free_segments)
  from assms(3) have "has_prefix (FeedPath feed coordinate) ?pre \<or> ?pre = FeedPath feed coordinate @ ''/''"
    unfolding pat match_path_open[of ?pre _ "pattern_score ?pre"] match_segments_prefix[OF nf] .
  then show ?thesis
  proof
    assume p: "has_prefix (FeedPath feed coordinate) ?pre"
    show ?thesis
    proof (cases "coordinate = []")
      case True
      with p have "has_prefix feed (name @ ''/'')" by (simp add: FeedPath_def FeedPathPrefix_def)
      then have "CHR ''/'' \<in> set feed" by (auto simp: has_prefix_iff prefix_def)
      with assms(2) show ?thesis by simp
    next
      case False
      with p have "has_prefix (feed @ CHR ''/'' # coordinate) (name @ CHR ''/'' # [])"
        by (simp add: FeedPath_def FeedPathPrefix_def)
      then show ?thesis
        using slash_aligned[OF feedNameRE_plain(1)[OF assms(1)] assms(2)] by blast
    qed
  next
    assume "?pre = FeedPath feed coordinate @ ''/''"
    then have "name @ CHR ''/'' # [] = feed @ CHR ''/'' # (if coordinate = [] then [] else coordinate @ ''/'')"
      by (auto simp: FeedPath_def FeedPathPrefix_def split: if_splits)
    then show ?thesis
      using slash_inject[OF feedNameRE_plain(1)[OF assms(1)] assms(2)] by blast
  qed
qed

subsection \<open>Who is granted what\<close>

lemma legacy_feed_bindings:
  "set (snd (legacy_feed f)) =
     insert (mk_binding (readName f) (no_match\<lparr>MAuthenticated := \<not> Anonymous f\<rparr>))
       ((\<lambda>pattern. mk_binding (publishName f) (matchFromPattern pattern)) ` set (Publishers f))"
  by (simp add: legacy_feed_def Let_def)

lemma compileLegacy_policies:
  "q \<in> set (fst (compileLegacy c)) \<longleftrightarrow>
     (\<exists>f \<in> set (Feeds c). q = \<lparr>PolicyName = readName f, Rules = [mk_rule (FeedPath (FName f) ''*'') [CapRead, CapList]]\<rparr> \<or>
        (Publishers f \<noteq> [] \<and>
         q = \<lparr>PolicyName = publishName f, Rules = [mk_rule (FeedPath (FName f) ''*'') [CapPublish]]\<rparr>)) \<or>
     (Admins c \<noteq> [] \<and> q = \<lparr>PolicyName = ''sys:admin'',
        Rules = mk_rule (SysPathPrefix @ ''*'') admin_everything # map (\<lambda>area. mk_rule area admin_everything) sysAreas\<rparr>) \<or>
     q = \<lparr>PolicyName = ''sys:read'', Rules = map (\<lambda>area. mk_rule area [CapRead, CapList]) operationalAreas\<rparr>"
  by (auto simp: compileLegacy_def legacy_feed_def Let_def split: if_splits)

lemma compileLegacy_bindings:
  "b \<in> set (snd (compileLegacy c)) \<longleftrightarrow>
     (\<exists>f \<in> set (Feeds c). b = mk_binding (readName f) (no_match\<lparr>MAuthenticated := \<not> Anonymous f\<rparr>) \<or>
        (\<exists>pattern \<in> set (Publishers f). b = mk_binding (publishName f) (matchFromPattern pattern))) \<or>
     (\<exists>pattern \<in> set (Admins c). b = mk_binding ''sys:admin'' (matchFromPattern pattern)) \<or>
     b = mk_binding ''sys:read'' (no_match\<lparr>MAuthenticated := True\<rparr>)"
proof -
  have "set (snd (compileLegacy c)) = (\<Union>f \<in> set (Feeds c). set (snd (legacy_feed f))) \<union>
      (\<lambda>pattern. mk_binding ''sys:admin'' (matchFromPattern pattern)) ` set (Admins c) \<union>
      {mk_binding ''sys:read'' (no_match\<lparr>MAuthenticated := True\<rparr>)}"
    by (simp add: compileLegacy_def Let_def Un_assoc)
  then show ?thesis unfolding legacy_feed_bindings by blast
qed

lemma generated_names [simp]:
  "readName f \<noteq> publishName g" "publishName g \<noteq> readName f"
  "readName f \<noteq> ''sys:admin''" "''sys:admin'' \<noteq> readName f" "readName f \<noteq> ''sys:read''" "''sys:read'' \<noteq> readName f"
  "publishName f \<noteq> ''sys:admin''" "''sys:admin'' \<noteq> publishName f" "publishName f \<noteq> ''sys:read''" "''sys:read'' \<noteq> publishName f"
proof -
  have "last (readName f) = CHR ''d''" "last (publishName g) = CHR ''h''"
    by (simp_all add: readName_def publishName_def)
  then show "readName f \<noteq> publishName g" "publishName g \<noteq> readName f" by fastforce+
qed (simp_all add: readName_def publishName_def)

lemma readName_inject [simp]: "readName f = readName g \<longleftrightarrow> FName f = FName g"
  by (simp add: readName_def)

lemma publishName_inject [simp]: "publishName f = publishName g \<longleftrightarrow> FName f = FName g"
  by (simp add: publishName_def)

lemma same_policy:
  assumes "distinct (map PolicyName ps)" and "p \<in> set ps" and "q \<in> set ps" and "PolicyName p = PolicyName q"
  shows "p = q"
  using assms by (metis distinct_map inj_on_def)

text \<open>
  The grants an engine compiled from a configuration can give: through a declared binding, or
  through the generated policies.
\<close>

lemma granted_through:
  assumes "AccessEngine c = Inr e" and "Allowed e i path want"
    and "\<not> (\<exists>b \<in> set (Bindings c). matches (BCMatch b) i)"
  obtains
    (read) f where "f \<in> set (Feeds c)" "Anonymous f \<or> \<not> IsAnonymous i" "want \<in> {CapRead, CapList}"
      "match_path (FeedPath (FName f) ''*'') path \<noteq> None"
  | (publish) f pattern where "f \<in> set (Feeds c)" "pattern \<in> set (Publishers f)" "matches (matchFromPattern pattern) i"
      "want = CapPublish" "match_path (FeedPath (FName f) ''*'') path \<noteq> None"
  | (admin) pattern area where "pattern \<in> set (Admins c)" "matches (matchFromPattern pattern) i"
      "want \<in> set admin_everything" "match_path (''sys'' @ CHR ''/'' # area) path \<noteq> None"
  | (operational) area where "\<not> IsAnonymous i" "want \<in> {CapRead, CapList}" "area \<in> set operationalAreas"
      "match_path area path \<noteq> None"
proof -
  obtain ps bs where pb: "compileLegacy c = (ps, bs)" by fastforce
  let ?ps = "ps @ map declared_policy (AccessPolicies c)"
  let ?bs = "bs @ map declared_binding (Bindings c)"
  have new: "New ?ps ?bs = Inr e" using assms(1) by (simp add: AccessEngine_def pb)
  have dist: "distinct (map PolicyName ?ps)" using New_holds[OF new] by blast
  obtain r s where r: "r \<in> set (bound_rules e i)" "want \<in> set (Capabilities r)" "match_path (Path r) path = Some s"
    using assms(2) unfolding Allowed_iff grants_def by (metis deciding_iff)
  obtain b q r0 where b: "b \<in> set ?bs" "matches (BMatch b) i" and q: "q \<in> set ?ps" "PolicyName q \<in> set (BPolicies b)"
    and r0: "r0 \<in> set (Rules q)" "r = r0\<lparr>rule_policy := PolicyName q\<rparr>"
    using New_bound_rule[OF new r(1)] by blast
  have m: "match_path (Path r0) path \<noteq> None" "want \<in> set (Capabilities r0)" using r r0 by simp_all
  have "b \<notin> set (map declared_binding (Bindings c))"
    using assms(3) b(2) by (auto simp: declared_binding_def)
  then have gb: "b \<in> set (snd (compileLegacy c))" using b(1) pb by auto
  have name: "PolicyName q = name \<Longrightarrow> q' \<in> set (fst (compileLegacy c)) \<Longrightarrow> PolicyName q' = name \<Longrightarrow> q = q'" for name q'
    using same_policy[OF dist q(1), of q'] pb by simp
  from gb consider
      f where "f \<in> set (Feeds c)" "b = mk_binding (readName f) (no_match\<lparr>MAuthenticated := \<not> Anonymous f\<rparr>)"
    | f pattern where "f \<in> set (Feeds c)" "pattern \<in> set (Publishers f)" "b = mk_binding (publishName f) (matchFromPattern pattern)"
    | pattern where "pattern \<in> set (Admins c)" "b = mk_binding ''sys:admin'' (matchFromPattern pattern)"
    | "b = mk_binding ''sys:read'' (no_match\<lparr>MAuthenticated := True\<rparr>)"
    unfolding compileLegacy_bindings by blast
  then show thesis
  proof cases
    case (1 f)
    have "q = \<lparr>PolicyName = readName f, Rules = [mk_rule (FeedPath (FName f) ''*'') [CapRead, CapList]]\<rparr>"
      by (rule name[of "readName f"]) (use 1 q(2) in \<open>auto simp: mk_binding_def compileLegacy_policies\<close>)
    with 1 r0 m b(2) show ?thesis
      by (intro read[of f]) (auto simp: mk_rule_def mk_binding_def matches_def no_match_def split: if_splits)
  next
    case (2 f pattern)
    then have "Publishers f \<noteq> []" by auto
    with 2 have gen: "\<lparr>PolicyName = publishName f, Rules = [mk_rule (FeedPath (FName f) ''*'') [CapPublish]]\<rparr>
      \<in> set (fst (compileLegacy c))" unfolding compileLegacy_policies by blast
    have "q = \<lparr>PolicyName = publishName f, Rules = [mk_rule (FeedPath (FName f) ''*'') [CapPublish]]\<rparr>"
      by (rule name[of "publishName f"]) (use 2 q(2) gen in \<open>auto simp: mk_binding_def\<close>)
    with 2 r0 m b(2) show ?thesis
      by (intro publish[of f pattern]) (auto simp: mk_rule_def mk_binding_def)
  next
    case (3 pattern)
    have "q = \<lparr>PolicyName = ''sys:admin'',
        Rules = mk_rule (SysPathPrefix @ ''*'') admin_everything # map (\<lambda>area. mk_rule area admin_everything) sysAreas\<rparr>"
      by (rule name[of "''sys:admin''"]) (use 3 q(2) in \<open>auto simp: mk_binding_def compileLegacy_policies\<close>)
    with r0 m have "want \<in> set admin_everything" and "\<exists>area. Path r0 = ''sys'' @ CHR ''/'' # area"
      by (auto simp: mk_rule_def SysPathPrefix_def sysAreas_def)
    then obtain area where "want \<in> set admin_everything" "Path r0 = ''sys'' @ CHR ''/'' # area" by blast
    with 3 m b(2) show ?thesis by (intro admin[of pattern area]) (simp_all add: mk_binding_def)
  next
    case 4
    have "q = \<lparr>PolicyName = ''sys:read'', Rules = map (\<lambda>area. mk_rule area [CapRead, CapList]) operationalAreas\<rparr>"
      by (rule name[of "''sys:read''"]) (use 4 q(2) in \<open>auto simp: mk_binding_def compileLegacy_policies\<close>)
    with r0 m have "want \<in> {CapRead, CapList}" "Path r0 \<in> set operationalAreas"
      by (auto simp: mk_rule_def)
    with 4 m b(2) show ?thesis
      by (intro operational[of "Path r0"]) (auto simp: mk_binding_def matches_def no_match_def split: if_splits)
  qed
qed

subsection \<open>A validated section compiles\<close>

lemma validateAccessRule_wf: "validateAccessRule k j r = [] \<Longrightarrow> wf_rule (mk_rule (RulePath r) (RuleCapabilities r))"
  by (auto simp: validateAccessRule_def wf_rule_def mk_rule_def contains_single filter_empty_conv Known_iff split: if_splits)

lemma validate_rules_wf:
  "validate_rules k j rs = [] \<Longrightarrow> \<forall>r \<in> set rs. wf_rule (mk_rule (RulePath r) (RuleCapabilities r))"
  by (induction rs arbitrary: j) (auto intro: validateAccessRule_wf)

definition declarable :: "access_policy_config \<Rightarrow> bool" where
  "declarable p \<longleftrightarrow> APName p \<noteq> [] \<and> \<not> has_prefix (APName p) ''feed:'' \<and> \<not> has_prefix (APName p) ''sys:'' \<and>
     (\<forall>r \<in> set (APRules p). wf_rule (mk_rule (RulePath r) (RuleCapabilities r)))"

lemma validate_policies_ok:
  "validate_policies k ps names = ([], names') \<Longrightarrow> distinct names \<Longrightarrow>
   names' = names @ map APName ps \<and> distinct names' \<and> (\<forall>p \<in> set ps. declarable p)"
proof (induction ps arbitrary: k names)
  case Nil
  then show ?case by simp
next
  case (Cons p ps)
  from Cons.prems(1) have ok: "APName p \<noteq> []" "\<not> has_prefix (APName p) ''feed:''" "\<not> has_prefix (APName p) ''sys:''"
    "APName p \<notin> set names" and rs: "validate_rules k 0 (APRules p) = []"
    and rest: "validate_policies (k + 1) ps (names @ [APName p]) = ([], names')"
    by (auto simp: Let_def split: if_splits prod.splits)
  have "distinct (names @ [APName p])" using Cons.prems(2) ok(4) by simp
  note IH = Cons.IH[OF rest this]
  have "declarable p" using ok validate_rules_wf[OF rs] by (simp add: declarable_def)
  moreover have "names' = names @ map APName (p # ps)" using IH by simp
  ultimately show ?case using IH by (metis set_ConsD)
qed

lemma validate_bindings_ok:
  "validate_bindings names k bs bnames = [] \<Longrightarrow>
   \<forall>b \<in> set bs. BCPolicies b \<noteq> [] \<and> set (BCPolicies b) \<subseteq> set names"
  by (induction names k bs bnames rule: validate_bindings.induct)
    (auto simp: Let_def filter_empty_conv split: if_splits prod.splits)

definition feeds_named :: "config \<Rightarrow> bool" where
  "feeds_named c \<longleftrightarrow> distinct (map FName (Feeds c)) \<and> (\<forall>f \<in> set (Feeds c). feedNameRE (FName f))"

lemma legacy_feed_names:
  "set (map PolicyName (fst (legacy_feed f))) \<subseteq> {readName f, publishName f}"
  "distinct (map PolicyName (fst (legacy_feed f)))"
  by (simp_all add: legacy_feed_def Let_def)

lemma legacy_names_distinct:
  "distinct (map FName fs) \<Longrightarrow> distinct (map PolicyName (concat (map (\<lambda>f. fst (legacy_feed f)) fs)))"
proof (induction fs)
  case Nil
  then show ?case by simp
next
  case (Cons f fs)
  let ?rest = "concat (map (\<lambda>f. fst (legacy_feed f)) fs)"
  have "set (map PolicyName ?rest) \<subseteq> (\<Union>g \<in> set fs. {readName g, publishName g})"
    using legacy_feed_names(1) by fastforce
  moreover have "{readName f, publishName f} \<inter> (\<Union>g \<in> set fs. {readName g, publishName g}) = {}"
    using Cons.prems by auto
  ultimately have "set (map PolicyName (fst (legacy_feed f))) \<inter> set (map PolicyName ?rest) = {}"
    using legacy_feed_names(1)[of f] by blast
  moreover have "distinct (map PolicyName ?rest)" using Cons by simp
  ultimately show ?case
    using legacy_feed_names(2)[of f] by (simp only: list.map concat.simps map_append distinct_append simp_thms)
qed

lemma generated_reserved:
  "q \<in> set (fst (compileLegacy c)) \<Longrightarrow> has_prefix (PolicyName q) ''feed:'' \<or> has_prefix (PolicyName q) ''sys:''"
  by (auto simp: compileLegacy_policies readName_def publishName_def)

lemma compileLegacy_distinct:
  assumes "distinct (map FName (Feeds c))"
  shows "distinct (map PolicyName (fst (compileLegacy c)))"
proof -
  let ?fps = "concat (map (\<lambda>f. fst (legacy_feed f)) (Feeds c))"
  have "set (map PolicyName ?fps) \<subseteq> (\<Union>g \<in> set (Feeds c). {readName g, publishName g})"
    using legacy_feed_names(1) by fastforce
  moreover have "''sys:admin'' \<notin> (\<Union>g \<in> set (Feeds c). {readName g, publishName g})"
    "''sys:read'' \<notin> (\<Union>g \<in> set (Feeds c). {readName g, publishName g})" by simp_all
  ultimately have "''sys:admin'' \<notin> set (map PolicyName ?fps)" "''sys:read'' \<notin> set (map PolicyName ?fps)" by blast+
  with legacy_names_distinct[OF assms] show ?thesis
    by (simp add: compileLegacy_def Let_def)
qed

lemma generated_wf:
  assumes "feeds_named c" and "q \<in> set (fst (compileLegacy c))"
  shows "PolicyName q \<noteq> [] \<and> (\<forall>r \<in> set (Rules q). wf_rule r)"
proof -
  have feed: "wf_rule (mk_rule (FeedPath (FName f) ''*'') caps)"
    if "f \<in> set (Feeds c)" "caps \<noteq> []" "set caps \<subseteq> set KnownCapabilities" for f caps
  proof -
    have "trim_suffix (FeedPath (FName f) ''*'') ''*'' = ''feed/'' @ FName f @ ''/''"
      using trim_suffix_append[of "''feed/'' @ FName f @ ''/''" "''*''"] by (simp add: FeedPath_def FeedPathPrefix_def)
    moreover have "CHR ''*'' \<notin> set (FName f)" using assms(1) that(1) feedNameRE_plain(2) by (simp add: feeds_named_def)
    ultimately show ?thesis using that by (auto simp: wf_rule_def mk_rule_def FeedPath_def FeedPathPrefix_def)
  qed
  have sys: "wf_rule (mk_rule (SysPathPrefix @ ''*'') admin_everything)"
    "\<forall>area \<in> set sysAreas. wf_rule (mk_rule area admin_everything)"
    "\<forall>area \<in> set operationalAreas. wf_rule (mk_rule area [CapRead, CapList])"
    by code_simp+
  have known: "set [CapRead, CapList] \<subseteq> set KnownCapabilities" "set [CapPublish] \<subseteq> set KnownCapabilities"
    by (simp_all add: KnownCapabilities_def)
  from assms(2)[unfolded compileLegacy_policies] show ?thesis
    by (elim disjE bexE conjE) (use feed known sys in \<open>simp_all add: readName_def publishName_def\<close>)
qed

lemma generated_binding:
  assumes "b \<in> set (snd (compileLegacy c))"
  shows "\<exists>q \<in> set (fst (compileLegacy c)). BPolicies b = [PolicyName q]"
proof -
  have read: "\<exists>q \<in> set (fst (compileLegacy c)). PolicyName q = readName f" if "f \<in> set (Feeds c)" for f
    using that unfolding compileLegacy_policies Bex_def by (metis policy.select_convs(1))
  have pub: "\<exists>q \<in> set (fst (compileLegacy c)). PolicyName q = publishName f"
    if "f \<in> set (Feeds c)" "p \<in> set (Publishers f)" for f p
    using that unfolding compileLegacy_policies Bex_def by (metis policy.select_convs(1) empty_iff list.set(1))
  have adm: "\<exists>q \<in> set (fst (compileLegacy c)). PolicyName q = ''sys:admin''" if "p \<in> set (Admins c)" for p
    using that unfolding compileLegacy_policies Bex_def by (metis policy.select_convs(1) empty_iff list.set(1))
  have op: "\<exists>q \<in> set (fst (compileLegacy c)). PolicyName q = ''sys:read''"
    unfolding compileLegacy_policies Bex_def by (metis policy.select_convs(1))
  from assms[unfolded compileLegacy_bindings] show ?thesis
    by (elim disjE bexE) (use read pub adm op in \<open>simp_all add: mk_binding_def\<close>, (metis)+)
qed

lemma validated_compiles:
  assumes "feeds_named c" and "validateAccess c = []"
  shows "\<exists>e. AccessEngine c = Inr e"
proof -
  obtain ps bs where pb: "compileLegacy c = (ps, bs)" by fastforce
  obtain names where vp: "validate_policies 0 (AccessPolicies c) [] = ([], names)"
    and vb: "validate_bindings names 0 (Bindings c) [] = []"
    using assms(2) by (auto simp: validateAccess_def split: prod.splits)
  from validate_policies_ok[OF vp] have names: "names = map APName (AccessPolicies c)" "distinct names"
    and decl: "\<forall>p \<in> set (AccessPolicies c). declarable p" by auto
  let ?ps = "ps @ map declared_policy (AccessPolicies c)"
  have dn: "map PolicyName (map declared_policy (AccessPolicies c)) = names"
    by (simp add: names declared_policy_def)
  have gen: "PolicyName q \<notin> set names" if "q \<in> set ps" for q
    using that generated_reserved[of q c] decl names pb by (auto simp: declarable_def)
  have "distinct (map PolicyName ps)"
    using compileLegacy_distinct[of c] assms(1) pb by (simp add: feeds_named_def)
  moreover have "set (map PolicyName ps) \<inter> set names = {}" using gen by auto
  ultimately have "distinct (map PolicyName ?ps)"
    unfolding map_append distinct_append dn using names(2) by blast
  moreover have "\<forall>p \<in> set ?ps. PolicyName p \<noteq> [] \<and> (\<forall>r \<in> set (Rules p). wf_rule r)"
    using generated_wf[OF assms(1)] pb decl by (auto simp: declared_policy_def declarable_def)
  moreover have "\<forall>b \<in> set (bs @ map declared_binding (Bindings c)). BPolicies b \<noteq> [] \<and> set (BPolicies b) \<subseteq> set (map PolicyName ?ps)"
  proof
    fix b assume "b \<in> set (bs @ map declared_binding (Bindings c))"
    then consider "b \<in> set (snd (compileLegacy c))" | b' where "b' \<in> set (Bindings c)" "b = declared_binding b'"
      using pb by auto
    then show "BPolicies b \<noteq> [] \<and> set (BPolicies b) \<subseteq> set (map PolicyName ?ps)"
    proof cases
      case 1
      then have "\<exists>q \<in> set (fst (compileLegacy c)). BPolicies b = [PolicyName q]"
        by (rule generated_binding)
      then show ?thesis using pb by auto
    next
      case (2 b')
      with validate_bindings_ok[OF vb] dn show ?thesis by (auto simp: declared_binding_def simp del: map_map)
    qed
  qed
  ultimately show ?thesis
    using New_ok unfolding AccessEngine_def pb prod.case by blast
qed

subsection \<open>Properties\<close>

definition example_feed :: "string \<Rightarrow> bool \<Rightarrow> string list \<Rightarrow> feed_config" where
  "example_feed name anon pubs = \<lparr>FName = name, Format = ''maven'', Upstream = [], Anonymous = anon, Hosted = True,
     Publishers = pubs, UpstreamRPS = 0, Redirect = False, RedirectTTL = 0, PublishPolicyName = [],
     ReplicationMode = [], PeerFallback = False, PolicyNames = [], Members = []\<rparr>"

definition example_config :: "feed_config list \<Rightarrow> string list \<Rightarrow> config" where
  "example_config feeds admins =
     \<lparr>Site = \<lparr>SiteName = ''here'', ExternalURL = []\<rparr>,
      Server = \<lparr>Listen = '':8080'', ShutdownTimeout = 0, ReloadInterval = 0, ProjectionRepair = 0, UsageScan = 0, UsageFlush = 0\<rparr>,
      Storage = \<lparr>StorageType = ''fs'', FSPath = ''/data'',
        S3 = \<lparr>Endpoint = [], Bucket = [], Region = [], AccessKey = [], AccessKeyFile = [], SecretKey = [], SecretKeyFile = [], UseSSL = False\<rparr>\<rparr>,
      DSN = [],
      Auth = \<lparr>RevocationSweep = 0, StaleIdentityWindow = 0, staleWindowSet = False, TokenCacheTTL = 0, OIDC = [], Methods = []\<rparr>,
      Feeds = feeds,
      Replication = \<lparr>Enabled = False, InternalListen = [],
        RAuth = \<lparr>RAType = [], CAFile = [], CertFile = [], KeyFile = [], RATokenFile = []\<rparr>, Topology = [], Peers = [],
        Nudge = False, JournalRetention = 0, MaxClockSkew = 0, BlobConcurrency = 0, BlobResume = False\<rparr>,
      Admins = admins,
      ConfigSource = \<lparr>SourceType = [], SourceKey = []\<rparr>,
      AccessPolicies = [], Bindings = []\<rparr>"

lemma example_compiles:
  assumes "distinct (map FName feeds)" and "\<forall>f \<in> set feeds. feedNameRE (FName f)"
  shows "\<exists>e. AccessEngine (example_config feeds admins) = Inr e"
  by (rule validated_compiles) (use assms in \<open>simp_all add: feeds_named_def validateAccess_def example_config_def\<close>)

text \<open>
  C33: a configuration whose feeds have well-formed, distinct names and whose access section has no
  violation compiles: the validation of the section reports every mistake the compiler would refuse,
  and no generated policy collides with a declared one.
\<close>

theorem validated_access_compiles:
  assumes "distinct (map FName (Feeds c))" and "\<forall>f \<in> set (Feeds c). feedNameRE (FName f)"
    and "validateAccess c = []"
  shows "\<exists>e. AccessEngine c = Inr e"
  by (rule validated_compiles) (use assms in \<open>simp_all add: feeds_named_def\<close>)

theorem validated_access_compiles_witness:
  "\<exists>e. AccessEngine (example_config [example_feed ''libs'' True [''token:ci'']] [''token:root'']) = Inr e"
proof (rule validated_access_compiles)
  have "feedNameRE ''libs''" by code_simp
  then show "\<forall>f \<in> set (Feeds (example_config [example_feed ''libs'' True [''token:ci'']] [''token:root''])). feedNameRE (FName f)"
    by (simp add: example_config_def example_feed_def)
qed (simp_all add: example_config_def validateAccess_def)

text \<open>
  the configuration and the tokens of a site are not part of the operational surface.  Nobody is
  allowed anything on \<^verbatim>\<open>sys/config\<close> or \<^verbatim>\<open>sys/tokens\<close> unless an administrator pattern or
  a declared binding matches them.
\<close>

theorem config_and_tokens_need_admin:
  assumes "AccessEngine c = Inr e" and "Allowed e i path want"
    and "path = ''sys/config'' \<or> path = ''sys/tokens''"
  shows "(\<exists>pattern \<in> set (Admins c). matches (matchFromPattern pattern) i) \<or>
         (\<exists>b \<in> set (Bindings c). matches (BCMatch b) i)"
proof (rule ccontr)
  assume neither: "\<not> ?thesis"
  obtain area where area: "path = ''sys'' @ CHR ''/'' # area" using assms(3) by auto
  have op: "\<forall>a \<in> set operationalAreas. match_path a ''sys/config'' = None \<and> match_path a ''sys/tokens'' = None"
    by code_simp
  from neither have "\<not> (\<exists>b \<in> set (Bindings c). matches (BCMatch b) i)" by blast
  from assms(1,2) this show False
  proof (cases rule: granted_through)
    case (operational a)
    with op assms(3) show ?thesis by auto
  qed (use neither feed_rule_not_sys area in auto)
qed

theorem config_and_tokens_need_admin_witness:
  "\<exists>e. AccessEngine (example_config [] [''token:root'']) = Inr e \<and>
       \<not> Allowed e example_identity ''sys/config'' ''read''"
proof -
  obtain e where e: "AccessEngine (example_config [] [''token:root'']) = Inr e"
    using example_compiles[of "[]"] by auto
  have "\<not> matches (matchFromPattern ''token:root'') example_identity" by code_simp
  then show ?thesis
    using config_and_tokens_need_admin[OF e, of example_identity "''sys/config''" "''read''"] e
    by (auto simp: example_config_def)
qed


definition anonymous_identity :: identity where
  "anonymous_identity = \<lparr>Kind = ''anonymous'', Subject = [], Issuer = [], ProjectPath = [], Ref = []\<rparr>"


text \<open>
  publishing into a feed is granted to the identities one of its own publisher patterns matches,
  or through a declared binding, and to nobody else.
\<close>

theorem publish_needs_a_publisher_pattern:
  assumes "AccessEngine c = Inr e" and "Allowed e i (FeedPath feed coordinate) CapPublish"
    and "\<forall>b \<in> set (Bindings c). \<not> matches (BCMatch b) i"
    and "\<forall>f \<in> set (Feeds c). feedNameRE (FName f)" and "CHR ''/'' \<notin> set feed"
  shows "\<exists>f \<in> set (Feeds c). FName f = feed \<and> (\<exists>pattern \<in> set (Publishers f). matches (matchFromPattern pattern) i)"
proof -
  from assms(3) have "\<not> (\<exists>b \<in> set (Bindings c). matches (BCMatch b) i)" by blast
  from assms(1,2) this show ?thesis
  proof (cases rule: granted_through)
    case (publish f pattern)
    with assms(4,5) feed_rule_same_feed[of "FName f" feed coordinate] show ?thesis by blast
  qed (auto simp: cap_defs admin_everything_def)
qed

theorem publish_needs_a_publisher_pattern_witness:
  "\<exists>e. AccessEngine (example_config [example_feed ''libs'' True [''token:other'']] []) = Inr e \<and>
       \<not> Allowed e example_identity (FeedPath ''libs'' ''com/a'') CapPublish"
proof -
  have re: "feedNameRE ''libs''" by code_simp
  then obtain e where e: "AccessEngine (example_config [example_feed ''libs'' True [''token:other'']] []) = Inr e"
    using example_compiles[of "[example_feed ''libs'' True [''token:other'']]"] by (auto simp: example_feed_def)
  have "\<not> matches (matchFromPattern ''token:other'') example_identity" by code_simp
  then have "\<not> Allowed e example_identity (FeedPath ''libs'' ''com/a'') CapPublish"
    using publish_needs_a_publisher_pattern[OF e, of example_identity "''libs''" "''com/a''"] re
    by (auto simp: example_config_def example_feed_def)
  with e show ?thesis by blast
qed

end
