(* ===== verification/Config_Groups.thy ===== *)
theory Config_Groups
  imports Config_Access
begin

text \<open>
  Group feeds: the validation of the group graph (\<^verbatim>\<open>src/core/config/config.go\<close>,
  \<open>validateGroups\<close> and \<open>walkGroup\<close>) and the flattening of a group into the leaf feeds that
  serve it (\<^verbatim>\<open>src/core/server/group.go\<close>, \<open>resolveMembers\<close>).  Flattening recurses through
  the configured graph without a bound of its own, so its model takes fuel and answers \<open>None\<close>
  when the fuel runs out; the validation makes \<open>maxGroupDepth + 1\<close> units enough.
  The registered format modules are a parameter: which formats exist and which of them can merge.
\<close>

subsection \<open>Validation\<close>

definition maxGroupDepth :: nat where "maxGroupDepth = 5"

datatype group_error =
    NestTooDeep "string list"
  | Cycle "string list"

text \<open>The first error of a loop that returns on error.\<close>

fun first_error :: "('a \<Rightarrow> 'e option) \<Rightarrow> 'a list \<Rightarrow> 'e option" where
  "first_error f [] = None"
| "first_error f (x # xs) = (case f x of Some err \<Rightarrow> Some err | None \<Rightarrow> first_error f xs)"

lemma first_error_None: "first_error f xs = None \<longleftrightarrow> (\<forall>x \<in> set xs. f x = None)"
  by (induction xs) (auto split: option.splits)

text \<open>\<^verbatim>\<open>walkGroup\<close>, by the levels left before \<^verbatim>\<open>depth > maxGroupDepth\<close>.\<close>

primrec walk_levels :: "nat \<Rightarrow> feed_config gomap \<Rightarrow> feed_config \<Rightarrow> string list \<Rightarrow> group_error option" where
  "walk_levels 0 byName feed path = Some (NestTooDeep (path @ [FName feed]))"
| "walk_levels (Suc left) byName feed path =
     (if FName feed \<in> set path then Some (Cycle (path @ [FName feed]))
      else first_error (\<lambda>member.
        case byName member of
          None \<Rightarrow> None
        | Some target \<Rightarrow> if \<not> IsGroup target then None else walk_levels left byName target (path @ [FName feed]))
        (Members feed))"

definition walkGroup :: "feed_config gomap \<Rightarrow> feed_config \<Rightarrow> string list \<Rightarrow> nat \<Rightarrow> group_error option" where
  "walkGroup byName feed path depth = walk_levels (maxGroupDepth + 1 - depth) byName feed path"

datatype group_violation =
    GroupWithUpstream nat
  | GroupHosted nat
  | GroupWithPublishers nat
  | FormatCannotMerge nat string
  | GroupContainsItself nat nat
  | MemberTwice nat nat string
  | MemberUnknown nat nat string
  | MemberOtherFormat nat nat string
  | GroupGraph nat group_error

text \<open>The loop that assigns \<^verbatim>\<open>byName[f.Name] = f\<close>: the last feed of a name stays.\<close>

definition feeds_by_name :: "feed_config list \<Rightarrow> feed_config gomap" where
  "feeds_by_name fs = map_of (rev (map (\<lambda>f. (FName f, f)) fs))"

fun check_members ::
  "feed_config gomap \<Rightarrow> feed_config \<Rightarrow> nat \<Rightarrow> nat \<Rightarrow> string list \<Rightarrow> string list \<Rightarrow> group_violation list" where
  "check_members byName feed i j [] seenMember = []"
| "check_members byName feed i j (member # ms) seenMember =
     (if member = FName feed then
        GroupContainsItself i j # check_members byName feed i (j + 1) ms seenMember
      else if member \<in> set seenMember then
        MemberTwice i j member # check_members byName feed i (j + 1) ms seenMember
      else
        (case byName member of
           None \<Rightarrow> [MemberUnknown i j member]
         | Some target \<Rightarrow> if Format target \<noteq> Format feed then [MemberOtherFormat i j member] else []) @
        check_members byName feed i (j + 1) ms (member # seenMember))"

definition validate_group :: "(string \<Rightarrow> bool option) \<Rightarrow> feed_config gomap \<Rightarrow> nat \<Rightarrow> feed_config \<Rightarrow> group_violation list" where
  "validate_group mergeable byName i feed =
     (if \<not> IsGroup feed then []
      else
        (if Upstream feed \<noteq> [] then [GroupWithUpstream i] else []) @
        (if Hosted feed then [GroupHosted i] else []) @
        (if length (Publishers feed) > 0 then [GroupWithPublishers i] else []) @
        (case mergeable (Format feed) of
           Some ok \<Rightarrow> if \<not> ok then [FormatCannotMerge i (Format feed)] else []
         | None \<Rightarrow> []) @
        check_members byName feed i 0 (Members feed) [] @
        (case walkGroup byName feed [] 0 of Some err \<Rightarrow> [GroupGraph i err] | None \<Rightarrow> []))"

fun validate_groups_from :: "(string \<Rightarrow> bool option) \<Rightarrow> feed_config gomap \<Rightarrow> nat \<Rightarrow> feed_config list \<Rightarrow> group_violation list" where
  "validate_groups_from mergeable byName i [] = []"
| "validate_groups_from mergeable byName i (f # fs) =
     validate_group mergeable byName i f @ validate_groups_from mergeable byName (i + 1) fs"

definition validateGroups :: "(string \<Rightarrow> bool option) \<Rightarrow> config \<Rightarrow> group_violation list" where
  "validateGroups mergeable c = validate_groups_from mergeable (feeds_by_name (Feeds c)) 0 (Feeds c)"

subsection \<open>Flattening\<close>

text \<open>
  \<^verbatim>\<open>resolveMembers\<close> over the group specifications and the leaf runtimes.  The \<^verbatim>\<open>seen\<close> map is
  shared by every recursive call, so it is threaded with the output.
\<close>

type_synonym 'r flat = "string set \<times> 'r list"

fun fold_fuel :: "('a \<Rightarrow> 's \<Rightarrow> 's option) \<Rightarrow> 'a list \<Rightarrow> 's \<Rightarrow> 's option" where
  "fold_fuel f [] s = Some s"
| "fold_fuel f (x # xs) s = (case f x s of None \<Rightarrow> None | Some s' \<Rightarrow> fold_fuel f xs s')"

text \<open>The body of the loop over a group's members; \<open>rec\<close> is the recursive call.\<close>

definition resolve_member ::
  "(string \<Rightarrow> 'r flat \<Rightarrow> 'r flat option) \<Rightarrow> (string \<Rightarrow> string list option) \<Rightarrow> (string \<Rightarrow> 'r option) \<Rightarrow>
   string \<Rightarrow> 'r flat \<Rightarrow> 'r flat option" where
  "resolve_member rec cfgByName feeds member st =
     (if member \<in> fst st then Some st
      else
        (case cfgByName member of
           Some (m # ms) \<Rightarrow> rec member st
         | _ \<Rightarrow>
             (case feeds member of
                None \<Rightarrow> Some st
              | Some fr \<Rightarrow> Some (insert member (fst st), snd st @ [fr]))))"

primrec resolveMembers ::
  "nat \<Rightarrow> (string \<Rightarrow> string list option) \<Rightarrow> (string \<Rightarrow> 'r option) \<Rightarrow> string \<Rightarrow> 'r flat \<Rightarrow> 'r flat option" where
  "resolveMembers 0 cfgByName feeds name st = None"
| "resolveMembers (Suc fuel) cfgByName feeds name st =
     (case cfgByName name of
        None \<Rightarrow> Some st
      | Some members \<Rightarrow>
          fold_fuel (resolve_member (resolveMembers fuel cfgByName feeds) cfgByName feeds) members st)"

definition group_specs :: "feed_config list \<Rightarrow> string \<Rightarrow> string list option" where
  "group_specs fs = map_of (rev (map (\<lambda>f. (FName f, Members f)) (filter IsGroup fs)))"

subsection \<open>The configured graph by name\<close>

lemma feeds_by_name_iff:
  assumes "distinct (map FName fs)"
  shows "feeds_by_name fs n = Some f \<longleftrightarrow> f \<in> set fs \<and> FName f = n"
proof -
  have "distinct (map fst (rev (map (\<lambda>f. (FName f, f)) fs)))"
    using assms by (simp add: rev_map[symmetric] comp_def)
  then have "feeds_by_name fs n = Some f \<longleftrightarrow> (n, f) \<in> set (rev (map (\<lambda>f. (FName f, f)) fs))"
    unfolding feeds_by_name_def by simp
  then show ?thesis by auto
qed

lemma group_specs_iff:
  assumes "distinct (map FName fs)"
  shows "group_specs fs n = Some ms \<longleftrightarrow> (\<exists>f \<in> set fs. FName f = n \<and> IsGroup f \<and> Members f = ms)"
proof -
  have "distinct (map FName (filter IsGroup fs))" using assms by (rule distinct_map_filter)
  then have "distinct (map fst (rev (map (\<lambda>f. (FName f, Members f)) (filter IsGroup fs))))"
    by (simp add: rev_map[symmetric] comp_def)
  then have "group_specs fs n = Some ms \<longleftrightarrow> (n, ms) \<in> set (rev (map (\<lambda>f. (FName f, Members f)) (filter IsGroup fs)))"
    unfolding group_specs_def by simp
  then show ?thesis by auto
qed

subsection \<open>Validation bounds the recursion\<close>

lemma fold_fuel_total: "(\<And>x s. x \<in> set xs \<Longrightarrow> f x s \<noteq> None) \<Longrightarrow> fold_fuel f xs s \<noteq> None"
  by (induction xs arbitrary: s) (fastforce split: option.splits)+

lemma walk_bounds_resolve:
  assumes dist: "distinct (map FName fs)"
  shows "walk_levels k (feeds_by_name fs) f path = None \<Longrightarrow> f \<in> set fs \<Longrightarrow>
    resolveMembers k (group_specs fs) feeds (FName f) st \<noteq> None"
proof (induction k arbitrary: f path st)
  case 0
  then show ?case by simp
next
  case (Suc k)
  show ?case
  proof (cases "group_specs fs (FName f)")
    case None
    then show ?thesis by simp
  next
    case (Some members)
    then have sp: "IsGroup f" "members = Members f"
      using Suc.prems(2) dist unfolding group_specs_iff[OF dist] by (metis distinct_map inj_on_def)+
    have "resolveMembers k (group_specs fs) feeds member st' \<noteq> None"
      if "member \<in> set (Members f)" "group_specs fs member = Some (m # ms)" for member m ms st'
    proof -
      from that(2) obtain target where t: "target \<in> set fs" "FName target = member" "IsGroup target"
        unfolding group_specs_iff[OF dist] by blast
      then have "feeds_by_name fs member = Some target" unfolding feeds_by_name_iff[OF dist] by simp
      with Suc.prems(1) that(1) t(3) have "walk_levels k (feeds_by_name fs) target (path @ [FName f]) = None"
        by (fastforce simp: first_error_None split: if_splits)
      from Suc.IH[OF this t(1)] t(2) show ?thesis by simp
    qed
    then show ?thesis
      unfolding resolveMembers.simps Some option.case sp(2)
      by (intro fold_fuel_total) (auto simp: resolve_member_def split: option.splits list.splits)
  qed
qed

lemma fold_fuel_mono:
  "(\<And>x s r. x \<in> set xs \<Longrightarrow> f x s = Some r \<Longrightarrow> g x s = Some r) \<Longrightarrow> fold_fuel f xs s = Some r \<Longrightarrow> fold_fuel g xs s = Some r"
  by (induction xs arbitrary: s) (auto split: option.splits)

lemma resolveMembers_more_fuel:
  "resolveMembers k specs feeds n st = Some r \<Longrightarrow> k \<le> j \<Longrightarrow> resolveMembers j specs feeds n st = Some r"
proof (induction k arbitrary: n st r j)
  case 0
  then show ?case by simp
next
  case (Suc k)
  then obtain j' where j: "j = Suc j'" "k \<le> j'" by (cases j) auto
  show ?case
  proof (cases "specs n")
    case None
    then show ?thesis using Suc.prems(1) j by simp
  next
    case (Some members)
    show ?thesis
      using Suc.prems(1) unfolding j resolveMembers.simps Some option.case
      by (rule fold_fuel_mono[rotated])
        (auto simp: resolve_member_def split: option.splits list.splits if_splits intro: Suc.IH[OF _ j(2)])
  qed
qed

subsection \<open>What flattening yields\<close>

text \<open>The leaf feeds below a group: members, or members of member groups, that are not groups.\<close>

inductive leaf_of :: "(string \<Rightarrow> string list option) \<Rightarrow> string \<Rightarrow> string \<Rightarrow> bool" for specs where
  direct: "specs g = Some ms \<Longrightarrow> m \<in> set ms \<Longrightarrow> specs m = None \<or> specs m = Some [] \<Longrightarrow> leaf_of specs g m"
| nested: "specs g = Some ms \<Longrightarrow> m \<in> set ms \<Longrightarrow> specs m = Some (x # xs) \<Longrightarrow> leaf_of specs m l \<Longrightarrow> leaf_of specs g l"

definition flat_ok :: "(string \<Rightarrow> string list option) \<Rightarrow> (string \<Rightarrow> 'r option) \<Rightarrow> 'r flat \<Rightarrow> bool" where
  "flat_ok specs feeds st \<longleftrightarrow>
     (\<exists>names. distinct names \<and> set names = fst st \<and> snd st = map (the \<circ> feeds) names) \<and>
     (\<forall>l \<in> fst st. feeds l \<noteq> None \<and> (specs l = None \<or> specs l = Some []))"

definition below :: "(string \<Rightarrow> string list option) \<Rightarrow> (string \<Rightarrow> 'r option) \<Rightarrow> string \<Rightarrow> string set" where
  "below specs feeds g = {l. leaf_of specs g l \<and> feeds l \<noteq> None}"

definition member_leaves :: "(string \<Rightarrow> string list option) \<Rightarrow> (string \<Rightarrow> 'r option) \<Rightarrow> string \<Rightarrow> string set" where
  "member_leaves specs feeds m =
     (case specs m of Some (x # xs) \<Rightarrow> below specs feeds m | _ \<Rightarrow> if feeds m \<noteq> None then {m} else {})"

lemma member_leaves_cases:
  "specs m = Some (x # xs) \<Longrightarrow> member_leaves specs feeds m = below specs feeds m"
  "specs m = None \<or> specs m = Some [] \<Longrightarrow> member_leaves specs feeds m = (if feeds m \<noteq> None then {m} else {})"
  by (auto simp: member_leaves_def)

lemma below_members:
  assumes g: "specs g = Some ms"
  shows "below specs feeds g = (\<Union>m \<in> set ms. member_leaves specs feeds m)"
proof (intro equalityI subsetI)
  fix l assume "l \<in> below specs feeds g"
  then have leaf: "leaf_of specs g l" and fr: "feeds l \<noteq> None" by (simp_all add: below_def)
  from leaf show "l \<in> (\<Union>m \<in> set ms. member_leaves specs feeds m)"
  proof cases
    case (direct ms')
    then have "l \<in> set ms" "l \<in> member_leaves specs feeds l"
      using g fr member_leaves_cases(2)[of specs l feeds] by simp_all
    then show ?thesis by blast
  next
    case (nested ms' m x xs)
    then have "m \<in> set ms" "l \<in> member_leaves specs feeds m"
      using g fr member_leaves_cases(1)[of specs m x xs feeds] by (simp_all add: below_def)
    then show ?thesis by blast
  qed
next
  fix l assume "l \<in> (\<Union>m \<in> set ms. member_leaves specs feeds m)"
  then obtain m where m: "m \<in> set ms" "l \<in> member_leaves specs feeds m" by blast
  consider (group) x xs where "specs m = Some (x # xs)" | (leaf) "specs m = None \<or> specs m = Some []"
    by (metis neq_Nil_conv not_None_eq)
  then show "l \<in> below specs feeds g"
  proof cases
    case (group x xs)
    with m have "leaf_of specs m l" "feeds l \<noteq> None" by (simp_all add: member_leaves_cases(1) below_def)
    with nested[OF g m(1) group] show ?thesis by (simp add: below_def)
  next
    case leaf
    with m have "l = m" "feeds m \<noteq> None" by (simp_all add: member_leaves_cases(2) split: if_splits)
    with direct[OF g m(1) leaf] show ?thesis by (simp add: below_def)
  qed
qed

lemma flat_ok_add:
  assumes "flat_ok specs feeds (seen, out)" and "m \<notin> seen" and "feeds m = Some fr" and "specs m = None \<or> specs m = Some []"
  shows "flat_ok specs feeds (insert m seen, out @ [fr])"
proof -
  from assms(1) obtain names where n: "distinct names" "set names = seen" "out = map (the \<circ> feeds) names"
    unfolding flat_ok_def by auto
  have "distinct (names @ [m]) \<and> set (names @ [m]) = insert m seen \<and> out @ [fr] = map (the \<circ> feeds) (names @ [m])"
    using n assms(2,3) by auto
  moreover have "\<forall>l \<in> insert m seen. feeds l \<noteq> None \<and> (specs l = None \<or> specs l = Some [])"
    using assms(1,3,4) by (simp add: flat_ok_def)
  ultimately show ?thesis unfolding flat_ok_def fst_conv snd_conv by blast
qed

lemma resolve_member_leaves:
  assumes ok: "flat_ok specs feeds st"
    and rec: "\<And>r. rec m st = Some r \<Longrightarrow> flat_ok specs feeds r \<and> fst r = fst st \<union> below specs feeds m"
    and r: "resolve_member rec specs feeds m st = Some r"
  shows "flat_ok specs feeds r \<and> fst r = fst st \<union> member_leaves specs feeds m"
proof (cases "m \<in> fst st")
  case True
  with ok have "member_leaves specs feeds m = {m}"
    using member_leaves_cases(2)[of specs m feeds] by (auto simp: flat_ok_def)
  with True r ok show ?thesis by (auto simp: resolve_member_def)
next
  case False
  consider (group) y ys where "specs m = Some (y # ys)" | (leaf) "specs m = None \<or> specs m = Some []"
    by (metis neq_Nil_conv not_None_eq)
  then show ?thesis
  proof cases
    case group
    with False r rec show ?thesis by (simp add: resolve_member_def member_leaves_cases(1))
  next
    case leaf
    have ok': "flat_ok specs feeds (fst st, snd st)" using ok by simp
    show ?thesis
    proof (cases "feeds m")
      case None
      with leaf False r ok show ?thesis by (auto simp: resolve_member_def member_leaves_cases(2))
    next
      case (Some fr)
      with leaf False r have "r = (insert m (fst st), snd st @ [fr])" by (auto simp: resolve_member_def)
      with flat_ok_add[OF ok' False Some leaf] Some leaf show ?thesis by (simp add: member_leaves_cases(2))
    qed
  qed
qed

lemma fold_fuel_leaves:
  assumes "\<And>m st r. flat_ok specs feeds st \<Longrightarrow> f m st = Some r \<Longrightarrow>
      flat_ok specs feeds r \<and> fst r = fst st \<union> member_leaves specs feeds m"
  shows "flat_ok specs feeds st \<Longrightarrow> fold_fuel f ms st = Some st' \<Longrightarrow>
    flat_ok specs feeds st' \<and> fst st' = fst st \<union> (\<Union>m \<in> set ms. member_leaves specs feeds m)"
proof (induction ms arbitrary: st)
  case Nil
  then show ?case by simp
next
  case (Cons m ms)
  from Cons.prems(2) obtain s1 where s1: "f m st = Some s1" "fold_fuel f ms s1 = Some st'"
    by (auto split: option.splits)
  have one: "flat_ok specs feeds s1 \<and> fst s1 = fst st \<union> member_leaves specs feeds m"
    by (rule assms[OF Cons.prems(1) s1(1)])
  from Cons.IH[OF conjunct1[OF one] s1(2)] one show ?case by auto
qed

lemma resolveMembers_leaves:
  "resolveMembers k specs feeds g st = Some st' \<Longrightarrow> flat_ok specs feeds st \<Longrightarrow>
   flat_ok specs feeds st' \<and> fst st' = fst st \<union> below specs feeds g"
proof (induction k arbitrary: g st st')
  case 0
  then show ?case by simp
next
  case (Suc k)
  show ?case
  proof (cases "specs g")
    case None
    then have "below specs feeds g = {}" by (auto simp: below_def elim: leaf_of.cases)
    with None show ?thesis using Suc.prems by simp
  next
    case (Some ms)
    from Suc.prems(1) have fold: "fold_fuel (resolve_member (resolveMembers k specs feeds) specs feeds) ms st = Some st'"
      by (simp add: Some)
    show ?thesis
      unfolding below_members[of specs g ms feeds, OF Some]
      by (rule fold_fuel_leaves[OF _ Suc.prems(2) fold])
        (rule resolve_member_leaves, assumption, rule Suc.IH, assumption+)
  qed
qed

subsection \<open>Validated groups\<close>

lemma validate_groups_from_member:
  "validate_groups_from mergeable byName k fs = [] \<Longrightarrow> f \<in> set fs \<Longrightarrow> \<exists>j. validate_group mergeable byName j f = []"
  by (induction fs arbitrary: k) auto

lemma validate_group_walk:
  "validate_group mergeable byName j f = [] \<Longrightarrow> IsGroup f \<Longrightarrow> walkGroup byName f [] 0 = None"
  by (auto simp: validate_group_def split: option.splits)

lemma check_members_ok:
  "check_members byName feed i j ms seen = [] \<Longrightarrow>
   distinct ms \<and> set ms \<inter> set seen = {} \<and> FName feed \<notin> set ms \<and>
   (\<forall>m \<in> set ms. \<exists>target. byName m = Some target \<and> Format target = Format feed)"
  by (induction byName feed i j ms seen rule: check_members.induct) (auto split: option.splits if_splits)

lemma validated_walk:
  assumes "validateGroups mergeable c = []" and "f \<in> set (Feeds c)" and "IsGroup f"
  shows "walk_levels (maxGroupDepth + 1) (feeds_by_name (Feeds c)) f [] = None"
proof -
  from assms obtain j where "validate_group mergeable (feeds_by_name (Feeds c)) j f = []"
    unfolding validateGroups_def using validate_groups_from_member by blast
  from validate_group_walk[OF this assms(3)] show ?thesis by (simp add: walkGroup_def)
qed

subsection \<open>Properties\<close>

text \<open>
  flattening a group of a validated configuration terminates within \<open>maxGroupDepth + 1\<close>
  levels, whatever runtimes exist, and yields every servable leaf feed below the group exactly once.
\<close>

theorem validated_group_flattens:
  assumes "validateGroups mergeable c = []" and "distinct (map FName (Feeds c))"
    and "f \<in> set (Feeds c)" and "IsGroup f"
  shows "\<exists>names. distinct names \<and>
    set names = {l. leaf_of (group_specs (Feeds c)) (FName f) l \<and> feeds l \<noteq> None} \<and>
    (\<forall>fuel \<ge> maxGroupDepth + 1.
       resolveMembers fuel (group_specs (Feeds c)) feeds (FName f) ({}, []) =
         Some (set names, map (the \<circ> feeds) names))"
proof -
  let ?specs = "group_specs (Feeds c)"
  obtain st where st: "resolveMembers (maxGroupDepth + 1) ?specs feeds (FName f) ({}, []) = Some st"
    using walk_bounds_resolve[OF assms(2) validated_walk[OF assms(1,3,4)] assms(3)] by blast
  have "flat_ok ?specs feeds ({}, [])" by (simp add: flat_ok_def)
  from resolveMembers_leaves[OF st this]
  have ok: "flat_ok ?specs feeds st" and seen: "fst st = below ?specs feeds (FName f)" by auto
  from ok obtain names where names: "distinct names" "set names = fst st" "snd st = map (the \<circ> feeds) names"
    unfolding flat_ok_def by blast
  then have "st = (set names, map (the \<circ> feeds) names)" by (metis prod.collapse)
  with names seen resolveMembers_more_fuel[OF st] show ?thesis
    unfolding below_def by blast
qed

definition example_group :: "string \<Rightarrow> string list \<Rightarrow> feed_config" where
  "example_group name ms = (example_feed name True [])\<lparr>Hosted := False, Members := ms\<rparr>"

definition example_groups :: config where
  "example_groups = example_config
     [example_feed ''libs'' True [], example_feed ''apps'' True [],
      example_group ''inner'' [''apps''], example_group ''all'' [''libs'', ''inner'', ''apps'']] []"

theorem validated_group_flattens_witness:
  "\<exists>names. distinct names \<and> set names = {l. leaf_of (group_specs (Feeds example_groups)) ''all'' l} \<and>
     resolveMembers 6 (group_specs (Feeds example_groups)) Some ''all'' ({}, []) = Some (set names, names)"
proof -
  have v: "validateGroups (\<lambda>_. Some True) example_groups = []" by code_simp
  have d: "distinct (map FName (Feeds example_groups))" by code_simp
  have g: "example_group ''all'' [''libs'', ''inner'', ''apps''] \<in> set (Feeds example_groups)"
    by (simp add: example_groups_def example_config_def)
  have ig: "IsGroup (example_group ''all'' [''libs'', ''inner'', ''apps''])" by code_simp
  have n: "FName (example_group ''all'' [''libs'', ''inner'', ''apps'']) = ''all''" by code_simp
  show ?thesis
    using validated_group_flattens[OF v d g ig, of Some] unfolding n maxGroupDepth_def by (auto simp: comp_def)
qed

text \<open>
  a group of a validated configuration is a view: it has no upstream, hosts nothing, accepts no
  publishes, and its members are distinct existing feeds of its own format, itself not among them.
\<close>

theorem validated_group_is_a_view:
  assumes "validateGroups mergeable c = []" and "distinct (map FName (Feeds c))"
    and "f \<in> set (Feeds c)" and "IsGroup f"
  shows "Upstream f = [] \<and> \<not> Hosted f \<and> Publishers f = [] \<and> distinct (Members f) \<and> FName f \<notin> set (Members f) \<and>
    (\<forall>m \<in> set (Members f). \<exists>t \<in> set (Feeds c). FName t = m \<and> Format t = Format f)"
proof -
  from assms obtain j where v: "validate_group mergeable (feeds_by_name (Feeds c)) j f = []"
    unfolding validateGroups_def using validate_groups_from_member by blast
  with assms(4) have "Upstream f = []" "\<not> Hosted f" "Publishers f = []"
    and m: "check_members (feeds_by_name (Feeds c)) f j 0 (Members f) [] = []"
    by (simp_all add: validate_group_def split: if_splits)
  with check_members_ok[OF m] show ?thesis
    unfolding feeds_by_name_iff[OF assms(2)] by blast
qed

theorem validated_group_is_a_view_witness:
  "Upstream (example_group ''inner'' [''apps'']) = [] \<and> (\<exists>t. t \<in> set (Feeds example_groups) \<and> FName t = ''apps'')"
proof -
  have v: "validateGroups (\<lambda>_. Some True) example_groups = []" by code_simp
  have d: "distinct (map FName (Feeds example_groups))" by code_simp
  have g: "example_group ''inner'' [''apps''] \<in> set (Feeds example_groups)"
    by (simp add: example_groups_def example_config_def)
  have ig: "IsGroup (example_group ''inner'' [''apps''])" by code_simp
  have m: "''apps'' \<in> set (Members (example_group ''inner'' [''apps'']))" by (simp add: example_group_def)
  from validated_group_is_a_view[OF v d g ig] m show ?thesis by blast
qed

end
