(* ===== verification/Decimal.thy ===== *)
theory Decimal
  imports Registry_Prelude
begin

text \<open>
  Decimal text of integers, as \<^verbatim>\<open>strconv.FormatInt(n, 10)\<close>, \<^verbatim>\<open>fmt.Sprintf("%d", n)\<close> and
  \<^verbatim>\<open>strconv.ParseInt(s, 10, 64)\<close> produce and read it: replication stamps travel inside string
  maps, so reading back what was written matters.
\<close>

definition digit_char :: "nat \<Rightarrow> char" where
  "digit_char d = char_of (48 + d)"

definition is_digit :: "char \<Rightarrow> bool" where
  "is_digit c \<longleftrightarrow> CHR ''0'' \<le> c \<and> c \<le> CHR ''9''"

definition digit_value :: "char \<Rightarrow> nat" where
  "digit_value c = of_char c - 48"

fun show_nat :: "nat \<Rightarrow> string" where
  "show_nat n = (if n < 10 then [digit_char n] else show_nat (n div 10) @ [digit_char (n mod 10)])"

declare show_nat.simps [simp del]

definition FormatInt :: "int \<Rightarrow> string" where
  "FormatInt n = (if n < 0 then CHR ''-'' # show_nat (nat (- n)) else show_nat (nat n))"

definition read_digits :: "nat \<Rightarrow> string \<Rightarrow> nat" where
  "read_digits acc s = fold (\<lambda>c acc. acc * 10 + digit_value c) s acc"

text \<open>
  \<^verbatim>\<open>ParseInt\<close> in base 10 with a bit size of 64: an optional sign, at least one digit, only
  digits, and a value in range.
\<close>

definition ParseInt :: "string \<Rightarrow> int option" where
  "ParseInt s =
     (let (neg, ds) = (case s of c # r \<Rightarrow> if c = CHR ''-'' then (True, r) else if c = CHR ''+'' then (False, r) else (False, s)
                               | [] \<Rightarrow> (False, []))
      in if ds = [] \<or> \<not> list_all is_digit ds then None
         else let v = (if neg then - int (read_digits 0 ds) else int (read_digits 0 ds))
              in if - (2 ^ 63) \<le> v \<and> v < 2 ^ 63 then Some v else None)"

lemma digit_char_is_digit: "d < 10 \<Longrightarrow> is_digit (digit_char d)"
  by (auto simp: is_digit_def digit_char_def less_eq_char_def)

lemma digit_value_char: "d < 10 \<Longrightarrow> digit_value (digit_char d) = d"
  by (simp add: digit_value_def digit_char_def)

lemma show_nat_digits: "list_all is_digit (show_nat n)" "show_nat n \<noteq> []"
proof (induction n rule: show_nat.induct)
  case (1 n)
  { case 1 then show ?case using "1.IH"(1) digit_char_is_digit[of n] digit_char_is_digit[of "n mod 10"]
      by (subst show_nat.simps) simp }
  { case 2 then show ?case by (subst show_nat.simps) simp }
qed

lemma read_show_nat: "read_digits 0 (show_nat n) = n"
proof (induction n rule: show_nat.induct)
  case (1 n)
  show ?case
  proof (cases "n < 10")
    case True
    then show ?thesis by (subst show_nat.simps) (simp add: read_digits_def digit_value_char)
  next
    case False
    then have "read_digits 0 (show_nat n) = read_digits 0 (show_nat (n div 10)) * 10 + n mod 10"
      by (subst show_nat.simps) (simp add: read_digits_def digit_value_char)
    with 1[OF False] show ?thesis by simp
  qed
qed

lemma show_nat_head: "show_nat n = c # r \<Longrightarrow> c \<noteq> CHR ''-'' \<and> c \<noteq> CHR ''+''"
  using show_nat_digits(1)[of n] by (auto simp: is_digit_def less_eq_char_def)

lemma ParseInt_FormatInt:
  assumes "- (2 ^ 63) \<le> n" and "n < 2 ^ 63"
  shows "ParseInt (FormatInt n) = Some n"
proof (cases "n < 0")
  case True
  then show ?thesis
    using assms show_nat_digits[of "nat (- n)"]
    by (simp add: FormatInt_def ParseInt_def read_show_nat Let_def)
next
  case False
  obtain c r where cr: "show_nat (nat n) = c # r" using show_nat_digits(2) by (meson neq_Nil_conv)
  from show_nat_head[OF cr] have "c \<noteq> CHR ''-''" "c \<noteq> CHR ''+''" by simp_all
  then have "ParseInt (FormatInt n) =
      (let v = int (read_digits 0 (show_nat (nat n))) in if - (2 ^ 63) \<le> v \<and> v < 2 ^ 63 then Some v else None)"
    using False show_nat_digits(1)[of "nat n"] cr by (simp add: FormatInt_def ParseInt_def)
  with False assms show ?thesis by (simp add: read_show_nat)
qed

end
