(* ===== verification/Hybrid_Clock.thy ===== *)
theory Hybrid_Clock
  imports Decimal "HOL-Library.Product_Lexorder"
begin

text \<open>
  The hybrid logical clock of a site: \<^verbatim>\<open>HLC\<close> of \<^verbatim>\<open>src/core/state/replication.go\<close> and the
  functions of the \<^verbatim>\<open>hlc_state\<close> row in \<^verbatim>\<open>src/core/state/migrations\<close>.  Readings are ordered by
  wall time, then counter; every stamp handed out is later than every stamp handed out or received
  before it.
\<close>

datatype hlc = HLC (Wall: int) (Logical: int)

instantiation hlc :: linorder
begin

definition less_hlc :: "hlc \<Rightarrow> hlc \<Rightarrow> bool" where
  "less_hlc h other = (if Wall h \<noteq> Wall other then Wall h < Wall other else Logical h < Logical other)"

definition less_eq_hlc :: "hlc \<Rightarrow> hlc \<Rightarrow> bool" where
  "less_eq_hlc h other = (h = other \<or> h < other)"

instance
  by intro_classes (auto simp: less_hlc_def less_eq_hlc_def hlc.expand split: if_splits)

end

definition Before :: "hlc \<Rightarrow> hlc \<Rightarrow> bool" where
  "Before h other = (if Wall h \<noteq> Wall other then Wall h < Wall other else Logical h < Logical other)"

lemma Before_iff [simp]: "Before a b \<longleftrightarrow> a < b"
  by (simp add: Before_def less_hlc_def)

subsection \<open>The clock row\<close>

record hlc_row =
  wall_ms :: int
  logical :: int
  last_seq :: int

abbreviation reading :: "hlc_row \<Rightarrow> hlc" where
  "reading c \<equiv> HLC (wall_ms c) (logical c)"

text \<open>
  \<^verbatim>\<open>repl_hlc_next()\<close> stamps a journal entry, \<^verbatim>\<open>repl_hlc_now()\<close> stamps a local change without a
  sequence; \<open>now_ms\<close> is the wall clock of the database.
\<close>

definition repl_hlc_now :: "int \<Rightarrow> hlc_row \<Rightarrow> hlc_row" where
  "repl_hlc_now now_ms c = c
     \<lparr>wall_ms := max (wall_ms c) now_ms, logical := (if now_ms > wall_ms c then 0 else logical c + 1)\<rparr>"

definition repl_hlc_next :: "int \<Rightarrow> hlc_row \<Rightarrow> hlc_row" where
  "repl_hlc_next now_ms c = c
     \<lparr>wall_ms := max (wall_ms c) now_ms, logical := (if now_ms > wall_ms c then 0 else logical c + 1),
      last_seq := last_seq c + 1\<rparr>"

definition repl_hlc_recv :: "hlc \<Rightarrow> hlc_row \<Rightarrow> hlc_row" where
  "repl_hlc_recv peer c = c
     \<lparr>wall_ms := max (wall_ms c) (Wall peer),
      logical := (if Wall peer > wall_ms c then Logical peer + 1
                  else if Wall peer = wall_ms c then max (logical c) (Logical peer) + 1
                  else logical c)\<rparr>"

lemma now_later: "reading c < reading (repl_hlc_now t c)"
  by (auto simp: less_hlc_def repl_hlc_now_def)

lemma next_later: "reading c < reading (repl_hlc_next t c)"
  by (auto simp: less_hlc_def repl_hlc_next_def)

lemma recv_later: "reading c \<le> reading (repl_hlc_recv p c)" "p < reading (repl_hlc_recv p c)"
  by (cases p; auto simp: less_eq_hlc_def less_hlc_def repl_hlc_recv_def)+

lemmas clock_later = now_later next_later recv_later

text \<open>Everything that moves the clock of a site.\<close>

datatype clock_op = Now int | Next int | Recv hlc

fun clock_step :: "clock_op \<Rightarrow> hlc_row \<Rightarrow> hlc_row" where
  "clock_step (Now t) c = repl_hlc_now t c"
| "clock_step (Next t) c = repl_hlc_next t c"
| "clock_step (Recv p) c = repl_hlc_recv p c"

fun seen_by :: "clock_op \<Rightarrow> hlc_row \<Rightarrow> hlc list" where
  "seen_by (Now t) c = [reading (repl_hlc_now t c)]"
| "seen_by (Next t) c = [reading (repl_hlc_next t c)]"
| "seen_by (Recv p) c = [p]"

fun stamps :: "clock_op list \<Rightarrow> hlc_row \<Rightarrow> hlc list" where
  "stamps [] c = []"
| "stamps (op # ops) c = seen_by op c @ stamps ops (clock_step op c)"

lemma clock_step_mono: "reading c \<le> reading (clock_step op c)"
  using clock_later by (cases op) (auto simp: less_imp_le)

lemma clock_fold_mono: "reading c \<le> reading (fold clock_step ops c)"
proof (induction ops arbitrary: c)
  case Nil
  then show ?case by simp
next
  case (Cons op ops)
  from clock_step_mono[of c op] Cons[of "clock_step op c"] show ?case by (simp add: order_trans)
qed

lemma stamps_bounded: "s \<in> set (stamps ops c) \<Longrightarrow> s \<le> reading (fold clock_step ops c)"
proof (induction ops arbitrary: c)
  case Nil
  then show ?case by simp
next
  case (Cons op ops)
  show ?case
  proof (cases "s \<in> set (seen_by op c)")
    case True
    then have "s \<le> reading (clock_step op c)"
      using recv_later(2) by (cases op) (auto simp: less_imp_le)
    with clock_fold_mono[of "clock_step op c" ops] show ?thesis by (simp add: order_trans)
  next
    case False
    with Cons show ?thesis by simp
  qed
qed

text \<open>
  C35: a stamp the site hands out, for a journal entry or for a local change, is later than every
  stamp it handed out and every stamp it received before, whatever its wall clock does in between.
\<close>

theorem stamp_after_everything_seen:
  assumes "s \<in> set (stamps ops c)"
  shows "s < reading (repl_hlc_next t (fold clock_step ops c)) \<and>
         s < reading (repl_hlc_now t (fold clock_step ops c))"
  using stamps_bounded[OF assms] now_later next_later by (meson order_le_less_trans)

theorem stamp_after_everything_seen_witness:
  "HLC 90 4 < reading (repl_hlc_next 7 (fold clock_step [Now 5, Recv (HLC 90 4)] \<lparr>wall_ms = 0, logical = 0, last_seq = 0\<rparr>))"
  using stamp_after_everything_seen[of "HLC 90 4" "[Now 5, Recv (HLC 90 4)]" "\<lparr>wall_ms = 0, logical = 0, last_seq = 0\<rparr>" 7]
  by simp

end
