(* ===== verification/Repl_State.thy ===== *)
theory Repl_State
  imports Hybrid_Clock
begin

text \<open>
  The replicated state of a site: the tables of \<^verbatim>\<open>src/core/state/migrations\<close> as a record, and the
  statements of \<^verbatim>\<open>src/core/state/hosted.go\<close> and \<^verbatim>\<open>replication.go\<close> as functions on it.  A table
  with a primary key is a map from the key; \<^verbatim>\<open>publish_conflicts\<close>, \<^verbatim>\<open>tokens\<close>, the journal and
  the parked events are lists of rows in insertion order, because statements scan them.  A
  \<^verbatim>\<open>TEXT -> TEXT\<close> JSON object is an association list.  Columns that no modelled statement reads
  (\<^verbatim>\<open>published_at\<close>, \<^verbatim>\<open>updated_at\<close>, \<^verbatim>\<open>detected_at\<close>) are left out; the wall clock of a
  statement is an argument.  Database outages are outside the model: a statement always runs.
\<close>

subsection \<open>String maps\<close>

type_synonym strmap = "(string \<times> string) list"

definition map_put :: "string \<Rightarrow> string \<Rightarrow> strmap \<Rightarrow> strmap" where
  "map_put k v m = (k, v) # filter (\<lambda>(k', _). k' \<noteq> k) m"

lemma map_put_lookup [simp]: "map_of (map_put k v m) k' = (if k' = k then Some v else map_of m k')"
  by (induction m) (auto simp: map_put_def)

text \<open>Stamping a row and reading the stamp back, in SQL and in Go.\<close>

definition stamp_meta :: "hlc \<Rightarrow> strmap \<Rightarrow> strmap" where
  "stamp_meta h m = map_put ''hlc_logical'' (FormatInt (Logical h)) (map_put ''hlc_wall'' (FormatInt (Wall h)) m)"

definition stored_int :: "string \<Rightarrow> strmap \<Rightarrow> int" where
  "stored_int k m = (case map_of m k of None \<Rightarrow> 0 | Some s \<Rightarrow> (case ParseInt s of None \<Rightarrow> 0 | Some v \<Rightarrow> v))"

definition hlcFromMetadata :: "strmap \<Rightarrow> hlc" where
  "hlcFromMetadata m = HLC (stored_int ''hlc_wall'' m) (stored_int ''hlc_logical'' m)"

definition hlc_fits :: "hlc \<Rightarrow> bool" where
  "hlc_fits h \<longleftrightarrow> - (2 ^ 63) \<le> Wall h \<and> Wall h < 2 ^ 63 \<and> - (2 ^ 63) \<le> Logical h \<and> Logical h < 2 ^ 63"

lemma hlcFromMetadata_stamp: "hlc_fits h \<Longrightarrow> hlcFromMetadata (stamp_meta h m) = h"
  by (cases h) (simp add: hlcFromMetadata_def stamp_meta_def stored_int_def ParseInt_FormatInt hlc_fits_def)

subsection \<open>Rows\<close>

record hosted_row =
  HCoordinate :: string
  HSHA256 :: string
  HSize :: int
  HChecksums :: strmap
  HMetadata :: strmap
  HMutable :: bool
  HOrigin :: string
  HSite :: string
  HPublishedBy :: string

record quarantine_row =
  QDetail :: string
  QReleased :: bool
  QHLC :: hlc

record side_meta =
  SSHA256 :: string
  SSize :: int
  SChecksums :: strmap
  SMetadata :: strmap

record conflict_row =
  CFeed :: string
  CPath :: string
  CCoordinate :: string
  CWinnerSite :: string
  CLoserSite :: string
  CWinner :: side_meta
  CLoser :: side_meta
  CResolved :: "string option"

record resolution =
  KeepSHA :: string
  RSize :: int
  RChecksums :: strmap
  RMetadata :: strmap
  RHLC :: hlc

record resolution_row = resolution +
  RCoordinate :: string
  ROperator :: string
  RDecidedBy :: string

record token_row =
  TName :: string
  THash :: string
  TRevoked :: bool

record payload =
  malformed :: bool
  j_feed :: string
  j_path :: string
  j_coordinate :: string
  j_sha256 :: string
  j_size :: int
  j_checksums :: strmap
  j_metadata :: strmap
  j_mutable :: bool
  j_published_by :: string
  j_site :: string
  j_hash :: string
  j_reason :: string
  j_detail :: string
  j_keep_sha256 :: string
  j_operator :: string

record journal_entry =
  OriginSite :: string
  OriginSeq :: int
  EKind :: string
  Payload :: payload
  EHLC :: hlc
  SchemaVersion :: int

record cursor =
  AppliedSeq :: int
  DurableSeq :: int
  LastOKAt :: "int option"
  LastError :: string
  OriginUUID :: "string option"

record db =
  clock :: hlc_row
  hosted_manifests :: "string \<times> string \<Rightarrow> hosted_row option"
  quarantine :: "string \<times> string \<times> string \<Rightarrow> quarantine_row option"
  publish_conflicts :: "conflict_row list"
  conflict_resolutions :: "string \<times> string \<Rightarrow> resolution_row option"
  tokens :: "token_row list"
  repl_journal :: "(journal_entry \<times> int) list"
  repl_parked :: "(journal_entry \<times> string \<times> nat) list"
  repl_cursors :: "string \<times> string \<Rightarrow> cursor option"
  repl_peer_identity :: "string \<Rightarrow> string option"
  site_identity :: "(string \<times> string) option"

subsection \<open>Publishing: \<^verbatim>\<open>InsertHostedTx\<close>\<close>

datatype publish_error = AlreadyPublished string string

record hosted_input =
  IFeed :: string
  IPath :: string
  IRow :: hosted_row

definition InsertHostedTx :: "int \<Rightarrow> hosted_input \<Rightarrow> db \<Rightarrow> publish_error + bool \<times> db" where
  "InsertHostedTx now_ms r s =
     (let c = repl_hlc_now now_ms (clock s);
          s = s\<lparr>clock := c\<rparr>;
          key = (IFeed r, IPath r);
          row = (IRow r)\<lparr>HMetadata := stamp_meta (reading c) (HMetadata (IRow r)),
                         HOrigin := (if HOrigin (IRow r) = [] then ''publish'' else HOrigin (IRow r))\<rparr>
      in case hosted_manifests s key of
           None \<Rightarrow> Inr (True, s\<lparr>hosted_manifests := (hosted_manifests s)(key \<mapsto> row)\<rparr>)
         | Some existing \<Rightarrow>
             if HSHA256 existing = HSHA256 row then Inr (False, s)
             else if \<not> HMutable existing \<or> \<not> HMutable row then Inl (AlreadyPublished (IFeed r) (IPath r))
             else Inr (True, s\<lparr>hosted_manifests := (hosted_manifests s)(key \<mapsto> existing
                    \<lparr>HSHA256 := HSHA256 row, HSize := HSize row, HChecksums := HChecksums row,
                     HMetadata := HMetadata row, HPublishedBy := HPublishedBy row, HSite := HSite row\<rparr>)\<rparr>))"

subsection \<open>Journal\<close>

definition AppendJournal :: "int \<Rightarrow> string \<Rightarrow> string \<Rightarrow> payload \<Rightarrow> db \<Rightarrow> journal_entry \<times> db" where
  "AppendJournal now_ms site kind p s =
     (let c = repl_hlc_next now_ms (clock s);
          e = \<lparr>OriginSite = site, OriginSeq = last_seq c, EKind = kind, Payload = p, EHLC = reading c,
               SchemaVersion = 1\<rparr>
      in (e, s\<lparr>clock := c, repl_journal := repl_journal s @ [(e, now_ms)]\<rparr>))"

definition in_journal :: "string \<Rightarrow> int \<Rightarrow> db \<Rightarrow> bool" where
  "in_journal origin seq s = list_ex (\<lambda>(e, _). OriginSite e = origin \<and> OriginSeq e = seq) (repl_journal s)"

definition ApplyForeignJournal :: "int \<Rightarrow> journal_entry \<Rightarrow> db \<Rightarrow> bool \<times> db" where
  "ApplyForeignJournal now_ms e s =
     (let s = s\<lparr>clock := repl_hlc_recv (EHLC e) (clock s)\<rparr>
      in if in_journal (OriginSite e) (OriginSeq e) s then (False, s)
         else (True, s\<lparr>repl_journal := repl_journal s @ [(e, now_ms)]\<rparr>))"

definition ReceiveClock :: "hlc \<Rightarrow> db \<Rightarrow> db" where
  "ReceiveClock h s = s\<lparr>clock := repl_hlc_recv h (clock s)\<rparr>"

definition origin_entries :: "string \<Rightarrow> db \<Rightarrow> journal_entry list" where
  "origin_entries origin s = filter (\<lambda>e. OriginSite e = origin) (map fst (repl_journal s))"

definition ReadJournal :: "string \<Rightarrow> int \<Rightarrow> int \<Rightarrow> db \<Rightarrow> journal_entry list" where
  "ReadJournal origin after limit s =
     (let limit = (if limit \<le> 0 \<or> limit > 1000 then 200 else limit)
      in take (nat limit) (sort_key OriginSeq (filter (\<lambda>e. OriginSeq e > after) (origin_entries origin s))))"

definition JournalHead :: "string \<Rightarrow> db \<Rightarrow> int \<times> int" where
  "JournalHead origin s =
     (let seqs = map OriginSeq (origin_entries origin s)
      in if seqs = [] then (0, 0) else (Max (set seqs), Min (set seqs)))"

definition KnownOrigins :: "db \<Rightarrow> string list" where
  "KnownOrigins s = sort (remdups (map (\<lambda>(e, _). OriginSite e) (repl_journal s)))"

text \<open>Rows below a watermark go, except the newest of the origin.\<close>

definition PruneJournal :: "string \<Rightarrow> int \<Rightarrow> db \<Rightarrow> db" where
  "PruneJournal origin below s = s\<lparr>repl_journal :=
     filter (\<lambda>(e, _). \<not> (OriginSite e = origin \<and> OriginSeq e < below \<and> OriginSeq e < fst (JournalHead origin s)))
       (repl_journal s)\<rparr>"

definition PruneJournalOlderThan :: "int \<Rightarrow> string \<Rightarrow> int \<Rightarrow> db \<Rightarrow> db" where
  "PruneJournalOlderThan now_ms origin retention s =
     (if retention \<le> 0 then s
      else s\<lparr>repl_journal :=
        filter (\<lambda>(e, created). \<not> ((origin = [] \<or> OriginSite e = origin) \<and>
            created < now_ms - retention div 1000000000 * 1000 \<and>
            OriginSeq e < fst (JournalHead (OriginSite e) s))) (repl_journal s)\<rparr>)"

subsection \<open>Cursors and peers\<close>

definition zero_cursor :: cursor where
  "zero_cursor = \<lparr>AppliedSeq = 0, DurableSeq = 0, LastOKAt = None, LastError = [], OriginUUID = None\<rparr>"

definition GetCursor :: "string \<Rightarrow> string \<Rightarrow> db \<Rightarrow> cursor" where
  "GetCursor peer origin s = (case repl_cursors s (peer, origin) of None \<Rightarrow> zero_cursor | Some c \<Rightarrow> c)"

definition uuid_arg :: "string \<Rightarrow> string option" where
  "uuid_arg u = (if u = [] then None else Some u)"

definition coalesce :: "'a option \<Rightarrow> 'a option \<Rightarrow> 'a option" where
  "coalesce a b = (case a of None \<Rightarrow> b | Some _ \<Rightarrow> a)"

definition SetCursorTx :: "int \<Rightarrow> string \<Rightarrow> string \<Rightarrow> int \<Rightarrow> int \<Rightarrow> string \<Rightarrow> string \<Rightarrow> db \<Rightarrow> db" where
  "SetCursorTx now_ms peer origin applied durable err originUUID s =
     s\<lparr>repl_cursors := (repl_cursors s)((peer, origin) \<mapsto>
       (case repl_cursors s (peer, origin) of
          None \<Rightarrow> \<lparr>AppliedSeq = applied, DurableSeq = durable, LastOKAt = Some now_ms, LastError = err,
                   OriginUUID = uuid_arg originUUID\<rparr>
        | Some c \<Rightarrow> \<lparr>AppliedSeq = applied, DurableSeq = min durable applied, LastOKAt = Some now_ms, LastError = err,
                   OriginUUID = coalesce (uuid_arg originUUID) (OriginUUID c)\<rparr>))\<rparr>"

definition RecordCursorError :: "string \<Rightarrow> string \<Rightarrow> string \<Rightarrow> db \<Rightarrow> db" where
  "RecordCursorError peer origin msg s =
     (if origin = [] \<or> origin = ''*'' then
        s\<lparr>repl_cursors := (\<lambda>k. map_option (\<lambda>c. if fst k = peer then c\<lparr>LastError := msg\<rparr> else c) (repl_cursors s k))\<rparr>
      else
        s\<lparr>repl_cursors := (repl_cursors s)((peer, origin) \<mapsto> (GetCursor peer origin s)\<lparr>LastError := msg\<rparr>)\<rparr>)"

definition mark_ok :: "int \<Rightarrow> string \<Rightarrow> string \<Rightarrow> string \<Rightarrow> db \<Rightarrow> db" where
  "mark_ok now_ms peer originUUID origin s =
     s\<lparr>repl_cursors := (repl_cursors s)((peer, origin) \<mapsto>
        (GetCursor peer origin s)\<lparr>LastOKAt := Some now_ms, LastError := [],
           OriginUUID := coalesce (OriginUUID (GetCursor peer origin s)) (uuid_arg originUUID)\<rparr>)\<rparr>"

definition MarkPeerPollOK :: "int \<Rightarrow> string \<Rightarrow> string list \<Rightarrow> string \<Rightarrow> db \<Rightarrow> db" where
  "MarkPeerPollOK now_ms peer origins originUUID s =
     fold (mark_ok now_ms peer originUUID) (if origins = [] then [peer] else origins)
       (s\<lparr>repl_cursors := (\<lambda>k. map_option (\<lambda>c. if fst k = peer then c\<lparr>LastError := []\<rparr> else c) (repl_cursors s k))\<rparr>)"

definition RecordPeerAck :: "int \<Rightarrow> string \<Rightarrow> string \<Rightarrow> int \<Rightarrow> db \<Rightarrow> db" where
  "RecordPeerAck now_ms peer origin seq s =
     (if peer = [] \<or> peer = ''unknown'' then s
      else s\<lparr>repl_cursors := (repl_cursors s)((peer, origin) \<mapsto>
        (case repl_cursors s (peer, origin) of
           None \<Rightarrow> zero_cursor\<lparr>AppliedSeq := seq, DurableSeq := seq, LastOKAt := Some now_ms\<rparr>
         | Some c \<Rightarrow> c\<lparr>AppliedSeq := max (AppliedSeq c) seq, DurableSeq := max (DurableSeq c) seq,
                       LastOKAt := Some now_ms\<rparr>))\<rparr>)"

definition MinCursorAcrossPeers :: "string \<Rightarrow> string list \<Rightarrow> db \<Rightarrow> int option" where
  "MinCursorAcrossPeers origin peers s =
     (if peers = [] then None
      else
        let cs = List.map_filter (\<lambda>peer. repl_cursors s (peer, origin)) (remdups peers)
        in if cs = [] \<or> length cs < length peers then None
           else Some (Min (DurableSeq ` set cs)))"

definition PinPeerIdentity :: "string \<Rightarrow> string \<Rightarrow> db \<Rightarrow> (string \<times> string) + db" where
  "PinPeerIdentity peer uuid s =
     (case repl_peer_identity s peer of
        None \<Rightarrow> Inr (s\<lparr>repl_peer_identity := (repl_peer_identity s)(peer \<mapsto> uuid)\<rparr>)
      | Some stored \<Rightarrow> if stored \<noteq> uuid then Inl (uuid, stored) else Inr s)"

definition EnsureSiteIdentity :: "string \<Rightarrow> string \<Rightarrow> db \<Rightarrow> string + (string \<times> string) \<times> db" where
  "EnsureSiteIdentity fresh_uuid site s =
     (let (i, s) = (case site_identity s of
                      Some i \<Rightarrow> (i, s)
                    | None \<Rightarrow> ((site, fresh_uuid), s\<lparr>site_identity := Some (site, fresh_uuid)\<rparr>))
      in if fst i \<noteq> site then Inl (fst i) else Inr (i, s))"

definition drop_origin :: "string \<Rightarrow> db \<Rightarrow> db" where
  "drop_origin origin s = s
     \<lparr>repl_journal := filter (\<lambda>(e, _). OriginSite e \<noteq> origin) (repl_journal s),
      repl_parked := filter (\<lambda>(e, _). OriginSite e \<noteq> origin) (repl_parked s)\<rparr>"

definition ForgetOriginJournal :: "string \<Rightarrow> db \<Rightarrow> db" where
  "ForgetOriginJournal origin s = drop_origin origin s"

definition ResetPeerStream :: "string \<Rightarrow> db \<Rightarrow> db" where
  "ResetPeerStream peer s = drop_origin peer
     (s\<lparr>repl_cursors := (\<lambda>k. map_option (\<lambda>c. if fst k = peer then c\<lparr>AppliedSeq := 0, DurableSeq := 0, LastError := []\<rparr> else c)
          (repl_cursors s k))\<rparr>)"

definition ResetPeerTrust :: "string \<Rightarrow> db \<Rightarrow> string option \<times> db" where
  "ResetPeerTrust peer s =
     (repl_peer_identity s peer,
      drop_origin peer (s
        \<lparr>repl_peer_identity := (repl_peer_identity s)(peer := None),
         repl_cursors := (\<lambda>k. map_option (\<lambda>c. if fst k = peer
             then c\<lparr>AppliedSeq := 0, DurableSeq := 0, LastError := [], OriginUUID := None\<rparr> else c) (repl_cursors s k))\<rparr>))"

definition ForgetPeerIdentity :: "string \<Rightarrow> db \<Rightarrow> string + string \<times> db" where
  "ForgetPeerIdentity peer s =
     (case repl_peer_identity s peer of
        None \<Rightarrow> Inl peer
      | Some uuid \<Rightarrow> Inr (uuid, s\<lparr>repl_peer_identity := (repl_peer_identity s)(peer := None)\<rparr>))"

subsection \<open>Parked events\<close>

definition ParkEvent :: "journal_entry \<Rightarrow> string \<Rightarrow> db \<Rightarrow> db" where
  "ParkEvent e reason s = s\<lparr>repl_parked :=
     (if list_ex (\<lambda>(e', _). OriginSite e' = OriginSite e \<and> OriginSeq e' = OriginSeq e) (repl_parked s)
      then map (\<lambda>(e', r, n). if OriginSite e' = OriginSite e \<and> OriginSeq e' = OriginSeq e then (e', reason, n + 1) else (e', r, n))
             (repl_parked s)
      else repl_parked s @ [(e, reason, 0)])\<rparr>"

definition parkedEvents :: "string \<Rightarrow> int \<Rightarrow> db \<Rightarrow> journal_entry list" where
  "parkedEvents origin limit s =
     take (nat (if limit \<le> 0 then 100 else limit))
       (filter (\<lambda>e. origin = [] \<or> OriginSite e = origin) (map fst (repl_parked s)))"

definition UnparkEvent :: "string \<Rightarrow> int \<Rightarrow> db \<Rightarrow> db" where
  "UnparkEvent origin seq s = s\<lparr>repl_parked :=
     filter (\<lambda>(e, _). \<not> (OriginSite e = origin \<and> OriginSeq e = seq)) (repl_parked s)\<rparr>"

end
