(* ===== verification/Repl_Sql.thy ===== *)
theory Repl_Sql
  imports Repl_State
begin

text \<open>
  The merge statements of the replication applier, \<^verbatim>\<open>src/core/repl/sql.go\<close>, and the payloads of
  \<^verbatim>\<open>events.go\<close>.  Each SQL statement is a function of the tables; an \<^verbatim>\<open>ON CONFLICT\<close> clause is a
  case distinction on the keyed row.  The shared facts about the registers they implement are at the
  end: every one of them keeps the greatest stamp it has seen.
\<close>

subsection \<open>Payloads\<close>

record manifest_put =
  Feed :: string
  MPath :: string
  Coord :: string
  SHA256 :: string
  Size :: int
  Checksums :: strmap
  Metadata :: strmap
  Mutable :: bool
  Publisher :: string
  MSite :: string

definition unmarshal_manifest_put :: "payload \<Rightarrow> manifest_put option" where
  "unmarshal_manifest_put j =
     (if malformed j then None
      else Some \<lparr>Feed = j_feed j, MPath = j_path j, Coord = j_coordinate j, SHA256 = j_sha256 j, Size = j_size j,
                 Checksums = j_checksums j, Metadata = j_metadata j, Mutable = j_mutable j,
                 Publisher = j_published_by j, MSite = j_site j\<rparr>)"

definition zero_payload :: payload where
  "zero_payload = \<lparr>malformed = False, j_feed = [], j_path = [], j_coordinate = [], j_sha256 = [], j_size = 0,
     j_checksums = [], j_metadata = [], j_mutable = False, j_published_by = [], j_site = [], j_hash = [],
     j_reason = [], j_detail = [], j_keep_sha256 = [], j_operator = []\<rparr>"

definition marshal_manifest_put :: "manifest_put \<Rightarrow> payload" where
  "marshal_manifest_put p = zero_payload\<lparr>j_feed := Feed p, j_path := MPath p, j_coordinate := Coord p,
     j_sha256 := SHA256 p, j_size := Size p, j_checksums := Checksums p, j_metadata := Metadata p,
     j_mutable := Mutable p, j_published_by := Publisher p, j_site := MSite p\<rparr>"

lemma unmarshal_marshal [simp]: "unmarshal_manifest_put (marshal_manifest_put p) = Some p"
  by (simp add: unmarshal_manifest_put_def marshal_manifest_put_def zero_payload_def)

subsection \<open>Stored coordinates\<close>

definition hostedState :: "string \<Rightarrow> string \<Rightarrow> db \<Rightarrow> hosted_row option" where
  "hostedState feed path s = hosted_manifests s (feed, path)"

text \<open>
  \<^verbatim>\<open>COALESCE((metadata->>'hlc_wall')::bigint, 0)\<close>: an absent key is zero, and text that is not a
  number makes the statement fail (\<open>None\<close>).
\<close>

definition bigint_column :: "string \<Rightarrow> strmap \<Rightarrow> int option" where
  "bigint_column k m = (case map_of m k of None \<Rightarrow> Some 0 | Some v \<Rightarrow> ParseInt v)"

definition stored_stamp :: "strmap \<Rightarrow> hlc option" where
  "stored_stamp m =
     (case bigint_column ''hlc_wall'' m of
        None \<Rightarrow> None
      | Some w \<Rightarrow> (case bigint_column ''hlc_logical'' m of None \<Rightarrow> None | Some l \<Rightarrow> Some (HLC w l)))"

definition isNewerThanStored :: "string \<Rightarrow> string \<Rightarrow> hlc \<Rightarrow> string \<Rightarrow> string \<Rightarrow> db \<Rightarrow> bool option" where
  "isNewerThanStored feed path h incomingSHA storedSHA s =
     (case hosted_manifests s (feed, path) of
        None \<Rightarrow> Some True
      | Some r \<Rightarrow>
          (case stored_stamp (HMetadata r) of
             None \<Rightarrow> None
           | Some stored \<Rightarrow>
               Some (if Before stored h then True
                     else if stored = h \<and> incomingSHA < storedSHA then True
                     else False)))"

definition publishing_site :: "manifest_put \<Rightarrow> journal_entry \<Rightarrow> string" where
  "publishing_site p e = (if MSite p \<noteq> [] then MSite p else OriginSite e)"

definition encodeMaps :: "manifest_put \<Rightarrow> journal_entry \<Rightarrow> strmap \<times> strmap" where
  "encodeMaps p e = (Checksums p, stamp_meta (EHLC e) (Metadata p))"

definition insertHosted :: "manifest_put \<Rightarrow> journal_entry \<Rightarrow> db \<Rightarrow> db" where
  "insertHosted p e s =
     (case hosted_manifests s (Feed p, MPath p) of
        Some _ \<Rightarrow> s
      | None \<Rightarrow> s\<lparr>hosted_manifests := (hosted_manifests s)((Feed p, MPath p) \<mapsto>
          \<lparr>HCoordinate = Coord p, HSHA256 = SHA256 p, HSize = Size p, HChecksums = fst (encodeMaps p e),
           HMetadata = snd (encodeMaps p e), HMutable = Mutable p, HOrigin = ''replication'',
           HSite = publishing_site p e, HPublishedBy = Publisher p\<rparr>)\<rparr>)"

definition updateHosted :: "manifest_put \<Rightarrow> journal_entry \<Rightarrow> db \<Rightarrow> db" where
  "updateHosted p e s =
     (case hosted_manifests s (Feed p, MPath p) of
        None \<Rightarrow> s
      | Some r \<Rightarrow> s\<lparr>hosted_manifests := (hosted_manifests s)((Feed p, MPath p) \<mapsto> r
          \<lparr>HSHA256 := SHA256 p, HSize := Size p, HChecksums := fst (encodeMaps p e),
           HMetadata := snd (encodeMaps p e), HMutable := Mutable p, HOrigin := ''replication'',
           HSite := publishing_site p e, HPublishedBy := Publisher p\<rparr>)\<rparr>)"

subsection \<open>Quarantine registers\<close>

definition quarantineTx :: "string \<Rightarrow> string \<Rightarrow> string \<Rightarrow> string \<Rightarrow> hlc \<Rightarrow> db \<Rightarrow> db" where
  "quarantineTx feed coordinate reason detail h s =
     (case quarantine s (feed, coordinate, reason) of
        None \<Rightarrow> s\<lparr>quarantine := (quarantine s)((feed, coordinate, reason) \<mapsto>
          \<lparr>QDetail = detail, QReleased = False, QHLC = h\<rparr>)\<rparr>
      | Some q \<Rightarrow>
          if QHLC q \<le> h then s\<lparr>quarantine := (quarantine s)((feed, coordinate, reason) \<mapsto>
            \<lparr>QDetail = detail, QReleased = False, QHLC = h\<rparr>)\<rparr>
          else s)"

definition releaseQuarantineTx :: "string \<Rightarrow> string \<Rightarrow> string \<Rightarrow> hlc \<Rightarrow> db \<Rightarrow> db" where
  "releaseQuarantineTx feed coordinate reason h s =
     (case quarantine s (feed, coordinate, reason) of
        None \<Rightarrow> s\<lparr>quarantine := (quarantine s)((feed, coordinate, reason) \<mapsto>
          \<lparr>QDetail = [], QReleased = True, QHLC = h\<rparr>)\<rparr>
      | Some q \<Rightarrow>
          if QHLC q < h then s\<lparr>quarantine := (quarantine s)((feed, coordinate, reason) \<mapsto>
            q\<lparr>QReleased := True, QHLC := h\<rparr>)\<rparr>
          else s)"

definition conflict_reason :: string where
  "conflict_reason = ''cross_site_conflict''"

definition open_conflicts :: "string \<Rightarrow> string \<Rightarrow> db \<Rightarrow> nat" where
  "open_conflicts feed coordinate s =
     length (filter (\<lambda>c. CFeed c = feed \<and> CCoordinate c = coordinate \<and> CResolved c = None) (publish_conflicts s))"

definition syncConflictQuarantineTx :: "string \<Rightarrow> string \<Rightarrow> db \<Rightarrow> db" where
  "syncConflictQuarantineTx feed coordinate s =
     (let nopen = open_conflicts feed coordinate s;
          key = (feed, coordinate, conflict_reason);
          detail = FormatInt (int nopen) @ '' unresolved cross-site conflict(s)''
      in if nopen > 0 then
           s\<lparr>quarantine := (quarantine s)(key \<mapsto>
             (case quarantine s key of
                None \<Rightarrow> \<lparr>QDetail = detail, QReleased = False, QHLC = HLC 0 0\<rparr>
              | Some q \<Rightarrow> q\<lparr>QDetail := detail, QReleased := False\<rparr>))\<rparr>
         else
           (case quarantine s key of
              None \<Rightarrow> s
            | Some q \<Rightarrow> s\<lparr>quarantine := (quarantine s)(key \<mapsto> q\<lparr>QReleased := True\<rparr>)\<rparr>))"

subsection \<open>Decisions\<close>

definition storedResolution :: "string \<Rightarrow> string \<Rightarrow> db \<Rightarrow> resolution option" where
  "storedResolution feed path s = map_option resolution.truncate (conflict_resolutions s (feed, path))"

definition recordResolution ::
  "string \<Rightarrow> string \<Rightarrow> string \<Rightarrow> resolution \<Rightarrow> string \<Rightarrow> string \<Rightarrow> db \<Rightarrow> db" where
  "recordResolution feed path coord r operator decidedBy s =
     (let row = resolution.extend r \<lparr>RCoordinate = coord, ROperator = operator, RDecidedBy = decidedBy\<rparr>;
          put = s\<lparr>conflict_resolutions := (conflict_resolutions s)((feed, path) \<mapsto> row)\<rparr>
      in case conflict_resolutions s (feed, path) of
           None \<Rightarrow> put
         | Some old \<Rightarrow>
             if (RHLC old, KeepSHA old) < (RHLC r, KeepSHA r)
             then s\<lparr>conflict_resolutions := (conflict_resolutions s)((feed, path) \<mapsto> row\<lparr>RCoordinate := RCoordinate old\<rparr>)\<rparr>
             else s)"

definition side_list :: "string \<Rightarrow> string \<Rightarrow> db \<Rightarrow> side_meta list" where
  "side_list feed path s =
     concat (map (\<lambda>c. [CWinner c, CLoser c]) (filter (\<lambda>c. CFeed c = feed \<and> CPath c = path) (publish_conflicts s)))"

text \<open>
  \<^verbatim>\<open>SELECT size FROM hosted_manifests WHERE sha256 = $1 AND size > 0 LIMIT 1\<close>: without an order
  the database may answer with any such row, so the answer is an argument of what calls it,
  constrained by \<open>blob_size_ok\<close>.
\<close>

definition blob_size_ok :: "(string \<Rightarrow> int) \<Rightarrow> db \<Rightarrow> bool" where
  "blob_size_ok blobSize s \<longleftrightarrow>
     (\<forall>sha. (\<exists>k r. hosted_manifests s k = Some r \<and> HSHA256 r = sha \<and> HSize r > 0 \<and> blobSize sha = HSize r) \<or>
            (blobSize sha = 0 \<and> (\<forall>k r. hosted_manifests s k = Some r \<longrightarrow> HSHA256 r = sha \<longrightarrow> HSize r \<le> 0)))"

definition conflictSide :: "(string \<Rightarrow> int) \<Rightarrow> string \<Rightarrow> string \<Rightarrow> string \<Rightarrow> db \<Rightarrow> side_meta option" where
  "conflictSide blobSize feed path sha256hex s =
     (case find (\<lambda>c. SSHA256 c = sha256hex) (side_list feed path s) of
        None \<Rightarrow> None
      | Some meta \<Rightarrow>
          let meta = (if SSize meta = 0 \<and> SChecksums meta = [] then
                        (case hostedState feed path s of
                           Some stored \<Rightarrow>
                             if HSHA256 stored = sha256hex
                             then meta\<lparr>SSize := HSize stored, SChecksums := HChecksums stored, SMetadata := HMetadata stored\<rparr>
                             else meta
                         | None \<Rightarrow> meta)
                      else meta);
              meta = (if SSize meta = 0 \<and> blobSize sha256hex > 0 then meta\<lparr>SSize := blobSize sha256hex\<rparr> else meta)
          in Some meta)"

definition conflictSideSite :: "string \<Rightarrow> string \<Rightarrow> string \<Rightarrow> db \<Rightarrow> string" where
  "conflictSideSite feed path sha256hex s =
     (case find (\<lambda>c. CFeed c = feed \<and> CPath c = path \<and>
             (SSHA256 (CWinner c) = sha256hex \<or> SSHA256 (CLoser c) = sha256hex)) (publish_conflicts s) of
        None \<Rightarrow> []
      | Some c \<Rightarrow> if SSHA256 (CWinner c) = sha256hex then CWinnerSite c else CLoserSite c)"

definition close_conflicts :: "string \<Rightarrow> string \<Rightarrow> string \<Rightarrow> conflict_row list \<Rightarrow> conflict_row list" where
  "close_conflicts feed path keep =
     map (\<lambda>c. if CFeed c = feed \<and> CPath c = path \<and> CResolved c = None then c\<lparr>CResolved := Some keep\<rparr> else c)"

definition applyResolutionTx :: "string \<Rightarrow> string \<Rightarrow> string \<Rightarrow> resolution \<Rightarrow> string \<Rightarrow> db \<Rightarrow> db" where
  "applyResolutionTx feed path coord r decidedBy s =
     (let site = conflictSideSite feed path (KeepSHA r) s;
          keptSite = (if site \<noteq> [] then site else decidedBy);
          row = (case hosted_manifests s (feed, path) of
                   None \<Rightarrow> \<lparr>HCoordinate = coord, HSHA256 = KeepSHA r, HSize = RSize r, HChecksums = RChecksums r,
                            HMetadata = RMetadata r, HMutable = False, HOrigin = ''replication'', HSite = keptSite,
                            HPublishedBy = ''conflict-resolution''\<rparr>
                 | Some old \<Rightarrow> old\<lparr>HSHA256 := KeepSHA r, HSize := RSize r, HChecksums := RChecksums r,
                                   HMetadata := RMetadata r\<rparr>)
      in syncConflictQuarantineTx feed coord (s
           \<lparr>hosted_manifests := (hosted_manifests s)((feed, path) \<mapsto> row),
            publish_conflicts := close_conflicts feed path (KeepSHA r) (publish_conflicts s)\<rparr>))"

subsection \<open>Conflict records\<close>

definition recordResolvedConflictTx :: "manifest_put \<Rightarrow> side_meta \<Rightarrow> side_meta \<Rightarrow> string \<Rightarrow> db \<Rightarrow> db" where
  "recordResolvedConflictTx p kept rejected rejectedSite s =
     (if list_ex (\<lambda>c. CFeed c = Feed p \<and> CPath c = MPath p \<and>
          (SSHA256 (CWinner c) = SSHA256 rejected \<or> SSHA256 (CLoser c) = SSHA256 rejected)) (publish_conflicts s)
      then s
      else s\<lparr>publish_conflicts := publish_conflicts s @
        [\<lparr>CFeed = Feed p, CPath = MPath p, CCoordinate = Coord p, CWinnerSite = ''resolved'', CLoserSite = rejectedSite,
          CWinner = kept, CLoser = rejected, CResolved = Some (SSHA256 kept)\<rparr>]\<rparr>)"

definition importConflictTx :: "conflict_row \<Rightarrow> db \<Rightarrow> db" where
  "importConflictTx c s =
     (let s = (if list_ex (\<lambda>d. CFeed d = CFeed c \<and> CPath d = CPath c \<and> SSHA256 (CWinner d) = SSHA256 (CWinner c) \<and>
                    SSHA256 (CLoser d) = SSHA256 (CLoser c)) (publish_conflicts s)
               then s
               else s\<lparr>publish_conflicts := publish_conflicts s @ [c\<lparr>CResolved := None\<rparr>]\<rparr>)
      in syncConflictQuarantineTx (CFeed c) (CCoordinate c) s)"

definition recordConflictTx :: "manifest_put \<Rightarrow> side_meta \<Rightarrow> side_meta \<Rightarrow> string \<Rightarrow> string \<Rightarrow> db \<Rightarrow> db" where
  "recordConflictTx p winner loser winnerSite loserSite s =
     s\<lparr>publish_conflicts := publish_conflicts s @
       [\<lparr>CFeed = Feed p, CPath = MPath p, CCoordinate = Coord p, CWinnerSite = winnerSite, CLoserSite = loserSite,
         CWinner = winner, CLoser = loser, CResolved = None\<rparr>]\<rparr>"

end
