(* ===== verification/Repl_Applier.thy ===== *)
theory Repl_Applier
  imports Repl_Sql
begin

text \<open>
  The applier, \<^verbatim>\<open>src/core/repl/applier.go\<close>: it merges the journal of a peer into this site, one
  transaction per event, and parks what cannot be applied yet.  A transaction is a function from the
  tables to an outcome; \<open>Inl\<close> rolls back.  The blobs a site holds are a set of digests; whether a
  transfer from a peer succeeds, and whether writing a projection succeeds, are parameters of the
  environment.  The texts of parked reasons leave out the wrapped error.
\<close>

subsection \<open>Environment and results\<close>

record env =
  ESite :: string
  EMaxSkew :: int
  ENow :: int
  EEager :: "string \<Rightarrow> bool"
  EBlobs :: bool
  EEnsure :: "string \<Rightarrow> int \<Rightarrow> string \<Rightarrow> bool"
  EProject :: bool

record projection_write =
  WFeed :: string
  WPath :: string
  WSHA256 :: string
  WSize :: int
  WChecksums :: strmap
  WMetadata :: strmap
  WOrigin :: string
  WPublisher :: string

datatype apply_error = Park string | Fail string

type_synonym applied = "db \<times> string set \<times> projection_write list"

record site_state =
  sdb :: db
  sblobs :: "string set"
  sprojected :: "projection_write list"

subsection \<open>Event kinds\<close>

definition "KindManifestPut = ''manifest_put''"
definition "KindBlobAvailable = ''blob_available''"
definition "KindTokenRevoke = ''token_revoke''"
definition "KindQuarantineSet = ''quarantine_set''"
definition "KindQuarantineRelease = ''quarantine_release''"
definition "KindConflictResolve = ''conflict_resolve''"

lemmas kind_defs = KindManifestPut_def KindBlobAvailable_def KindTokenRevoke_def KindQuarantineSet_def
  KindQuarantineRelease_def KindConflictResolve_def

fun isHex :: "string \<Rightarrow> bool" where
  "isHex [] = True"
| "isHex (c # s) =
     (if (c < CHR ''0'' \<or> c > CHR ''9'') \<and> (c < CHR ''a'' \<or> c > CHR ''f'') then False else isHex s)"

subsection \<open>Applying one event\<close>

definition decision_write :: "string \<Rightarrow> string \<Rightarrow> resolution \<Rightarrow> string \<Rightarrow> string \<Rightarrow> projection_write" where
  "decision_write feed path d origin publisher =
     \<lparr>WFeed = feed, WPath = path, WSHA256 = KeepSHA d, WSize = RSize d, WChecksums = RChecksums d,
      WMetadata = RMetadata d, WOrigin = origin, WPublisher = publisher\<rparr>"

definition incoming_side :: "manifest_put \<Rightarrow> side_meta" where
  "incoming_side p = \<lparr>SSHA256 = SHA256 p, SSize = Size p, SChecksums = Checksums p, SMetadata = Metadata p\<rparr>"

definition stored_side :: "hosted_row \<Rightarrow> side_meta" where
  "stored_side r = \<lparr>SSHA256 = HSHA256 r, SSize = HSize r, SChecksums = HChecksums r, SMetadata = HMetadata r\<rparr>"

definition side_write :: "manifest_put \<Rightarrow> side_meta \<Rightarrow> journal_entry \<Rightarrow> projection_write" where
  "side_write p m e =
     \<lparr>WFeed = Feed p, WPath = MPath p, WSHA256 = SSHA256 m, WSize = SSize m, WChecksums = SChecksums m,
      WMetadata = SMetadata m, WOrigin = OriginSite e, WPublisher = Publisher p\<rparr>"

text \<open>The branch of a coordinate an operator already decided.\<close>

definition put_resolved :: "manifest_put \<Rightarrow> journal_entry \<Rightarrow> resolution \<Rightarrow> applied \<Rightarrow> applied" where
  "put_resolved p e d = (\<lambda>(s, touched, pending).
     let s = (if SHA256 p \<noteq> KeepSHA d then
                syncConflictQuarantineTx (Feed p) (Coord p)
                  (recordResolvedConflictTx p
                     \<lparr>SSHA256 = KeepSHA d, SSize = RSize d, SChecksums = RChecksums d, SMetadata = RMetadata d\<rparr>
                     (incoming_side p) (OriginSite e) s)
              else s);
         s = applyResolutionTx (Feed p) (MPath p) (Coord p) d (OriginSite e) s
     in (s, insert (Feed p) touched, pending @ [decision_write (Feed p) (MPath p) d (OriginSite e) (Publisher p)]))"

text \<open>The branch of rule K1: two byte sequences for one immutable coordinate.\<close>

definition put_conflict :: "manifest_put \<Rightarrow> journal_entry \<Rightarrow> hosted_row \<Rightarrow> db \<Rightarrow> side_meta \<times> db" where
  "put_conflict p e existing s =
     (let incoming = incoming_side p;
          stored = stored_side existing;
          storedWins = (SSHA256 stored < SSHA256 incoming);
          winner = (if storedWins then stored else incoming);
          loser = (if storedWins then incoming else stored);
          winnerSite = (if storedWins then HSite existing else OriginSite e);
          loserSite = (if storedWins then OriginSite e else HSite existing);
          s = (if SSHA256 winner \<noteq> HSHA256 existing then updateHosted p e s else s);
          s = recordConflictTx p winner loser winnerSite loserSite s
      in (winner, syncConflictQuarantineTx (Feed p) (Coord p) s))"

definition applyManifestPut :: "env \<Rightarrow> string set \<Rightarrow> journal_entry \<Rightarrow> applied \<Rightarrow> apply_error + applied" where
  "applyManifestPut v blobs e = (\<lambda>(s, touched, pending).
     case unmarshal_manifest_put (Payload e) of
       None \<Rightarrow> Inl (Park ''malformed manifest_put payload'')
     | Some p \<Rightarrow>
         if Feed p = [] \<or> MPath p = [] \<or> length (SHA256 p) \<noteq> 64 then Inl (Park ''incomplete manifest_put payload'')
         else if EEager v (Feed p) \<and> EBlobs v \<and> SHA256 p \<notin> blobs then Inl (Park ''blob not available locally'')
         else
           (case storedResolution (Feed p) (MPath p) s of
              Some d \<Rightarrow> Inr (put_resolved p e d (s, touched, pending))
            | None \<Rightarrow>
                let done = (\<lambda>m s. Inr (s, insert (Feed p) touched, pending @ [side_write p m e]))
                in case hostedState (Feed p) (MPath p) s of
                     None \<Rightarrow> done (incoming_side p) (insertHosted p e s)
                   | Some existing \<Rightarrow>
                       if Mutable p \<and> HMutable existing then
                         (case isNewerThanStored (Feed p) (MPath p) (EHLC e) (SHA256 p) (HSHA256 existing) s of
                            None \<Rightarrow> Inl (Fail ''read stored hlc'')
                          | Some False \<Rightarrow> Inr (s, touched, pending)
                          | Some True \<Rightarrow> done (incoming_side p) (updateHosted p e s))
                       else if HSHA256 existing = SHA256 p then Inr (s, touched, pending)
                       else (case put_conflict p e existing s of (winner, s) \<Rightarrow> done winner s)))"

definition applyBlobAvailable :: "env \<Rightarrow> string \<Rightarrow> journal_entry \<Rightarrow> string set \<Rightarrow> apply_error + string set" where
  "applyBlobAvailable v peer e blobs =
     (if malformed (Payload e) then Inl (Park ''malformed blob_available payload'')
      else if j_sha256 (Payload e) = [] \<or> j_sha256 (Payload e) \<in> blobs then Inr blobs
      else if EEnsure v (j_sha256 (Payload e)) (j_size (Payload e)) peer then Inr (insert (j_sha256 (Payload e)) blobs)
      else Inr blobs)"

text \<open>The tombstone statement: a name already taken by another hash violates its constraint.\<close>

definition revoke_hash :: "string \<Rightarrow> db \<Rightarrow> db option" where
  "revoke_hash hash s =
     (if list_ex (\<lambda>t. THash t = hash) (tokens s) then
        Some (s\<lparr>tokens := map (\<lambda>t. if THash t = hash then t\<lparr>TRevoked := True\<rparr> else t) (tokens s)\<rparr>)
      else if list_ex (\<lambda>t. TName t = ''revoked:'' @ take 16 hash) (tokens s) then None
      else Some (s\<lparr>tokens := tokens s @ [\<lparr>TName = ''revoked:'' @ take 16 hash, THash = hash, TRevoked = True\<rparr>]\<rparr>))"

definition applyTokenRevoke :: "journal_entry \<Rightarrow> db \<Rightarrow> apply_error + db" where
  "applyTokenRevoke e s =
     (if malformed (Payload e) then Inl (Park ''malformed token_revoke payload'')
      else if length (j_hash (Payload e)) \<noteq> 64 then Inl (Park ''token_revoke carries an implausible hash'')
      else (case revoke_hash (j_hash (Payload e)) s of
              None \<Rightarrow> Inl (Fail ''apply token revoke'')
            | Some s' \<Rightarrow> Inr s'))"

definition applyQuarantineSet :: "journal_entry \<Rightarrow> db \<Rightarrow> apply_error + db" where
  "applyQuarantineSet e s =
     (let p = Payload e in
      if malformed p then Inl (Park ''malformed quarantine_set payload'')
      else if j_feed p = [] \<or> j_coordinate p = [] \<or> j_reason p = [] then Inl (Park ''incomplete quarantine_set payload'')
      else Inr (quarantineTx (j_feed p) (j_coordinate p) (j_reason p) (j_detail p) (EHLC e) s))"

definition release_reason :: "payload \<Rightarrow> string" where
  "release_reason p = (if j_reason p = [] then ''manual'' else j_reason p)"

definition applyQuarantineRelease :: "journal_entry \<Rightarrow> db \<Rightarrow> apply_error + db" where
  "applyQuarantineRelease e s =
     (let p = Payload e in
      if malformed p then Inl (Park ''malformed quarantine_release payload'')
      else Inr (releaseQuarantineTx (j_feed p) (j_coordinate p) (release_reason p) (EHLC e) s))"

definition applyConflictResolve :: "(string \<Rightarrow> int) \<Rightarrow> journal_entry \<Rightarrow> applied \<Rightarrow> apply_error + applied" where
  "applyConflictResolve blobSize e = (\<lambda>(s, touched, pending).
     let p = Payload e in
     if malformed p then Inl (Park ''malformed conflict_resolve payload'')
     else if j_feed p = [] \<or> j_path p = [] \<or> length (j_keep_sha256 p) \<noteq> 64 \<or> \<not> isHex (j_keep_sha256 p)
       then Inl (Park ''implausible conflict_resolve payload'')
     else
       (case conflictSide blobSize (j_feed p) (j_path p) (j_keep_sha256 p) s of
          None \<Rightarrow> Inl (Park ''no recorded conflict names this digest'')
        | Some side \<Rightarrow>
            let d = \<lparr>KeepSHA = SSHA256 side, RSize = SSize side, RChecksums = SChecksums side,
                     RMetadata = SMetadata side, RHLC = EHLC e\<rparr>;
                s = recordResolution (j_feed p) (j_path p) (j_coordinate p) d (j_operator p) (OriginSite e) s;
                winning = (case storedResolution (j_feed p) (j_path p) s of Some r \<Rightarrow> r | None \<Rightarrow> d);
                s = applyResolutionTx (j_feed p) (j_path p) (j_coordinate p) winning (OriginSite e) s
            in Inr (s, insert (j_feed p) touched,
                    pending @ [decision_write (j_feed p) (j_path p) winning (OriginSite e) (j_operator p)])))"

definition on_db :: "(db \<Rightarrow> apply_error + db) \<Rightarrow> string set \<Rightarrow> applied \<Rightarrow> apply_error + applied \<times> string set" where
  "on_db f blobs = (\<lambda>(s, touched, pending).
     case f s of Inl err \<Rightarrow> Inl err | Inr s' \<Rightarrow> Inr ((s', touched, pending), blobs))"

definition dispatch ::
  "env \<Rightarrow> (string \<Rightarrow> int) \<Rightarrow> string \<Rightarrow> journal_entry \<Rightarrow> string set \<Rightarrow> applied \<Rightarrow> apply_error + applied \<times> string set" where
  "dispatch v blobSize peer e blobs st =
     (if EKind e = KindManifestPut then
        (case applyManifestPut v blobs e st of Inl err \<Rightarrow> Inl err | Inr st' \<Rightarrow> Inr (st', blobs))
      else if EKind e = KindBlobAvailable then
        (case applyBlobAvailable v peer e blobs of Inl err \<Rightarrow> Inl err | Inr blobs' \<Rightarrow> Inr (st, blobs'))
      else if EKind e = KindTokenRevoke then on_db (applyTokenRevoke e) blobs st
      else if EKind e = KindQuarantineSet then on_db (applyQuarantineSet e) blobs st
      else if EKind e = KindQuarantineRelease then on_db (applyQuarantineRelease e) blobs st
      else if EKind e = KindConflictResolve then
        (case applyConflictResolve blobSize e st of Inl err \<Rightarrow> Inl err | Inr st' \<Rightarrow> Inr (st', blobs))
      else Inl (Park (''unknown event kind '' @ EKind e)))"

text \<open>
  A snapshot entry is applied with every feed treated as lazy, and an entry that would be parked is
  an error instead.
\<close>

definition importSnapshotEntry ::
  "env \<Rightarrow> (string \<Rightarrow> int) \<Rightarrow> string \<Rightarrow> journal_entry \<Rightarrow> string set \<Rightarrow> applied \<Rightarrow> string + applied \<times> string set" where
  "importSnapshotEntry v blobSize peer e blobs st =
     (case dispatch (v\<lparr>EEager := (\<lambda>_. False)\<rparr>) blobSize peer e blobs st of
        Inl (Park reason) \<Rightarrow> Inl (''snapshot entry cannot be applied: '' @ reason)
      | Inl (Fail msg) \<Rightarrow> Inl msg
      | Inr r \<Rightarrow> Inr r)"

text \<open>\<^verbatim>\<open>NewApplier\<close>: a skew that is not positive means five minutes.\<close>

definition NewApplier :: "env \<Rightarrow> env" where
  "NewApplier v = (if EMaxSkew v \<le> 0 then v\<lparr>EMaxSkew := 5 * 60 * 1000000000\<rparr> else v)"

subsection \<open>The stream\<close>

text \<open>
  \<^verbatim>\<open>prefetchBlob\<close>: \<open>Inl\<close> is the parked error.  An eager feed's bytes are fetched before the
  transaction opens.
\<close>

definition prefetchBlob :: "env \<Rightarrow> string \<Rightarrow> journal_entry \<Rightarrow> string set \<Rightarrow> string + string set" where
  "prefetchBlob v peer e blobs =
     (if EKind e \<noteq> KindManifestPut \<or> \<not> EBlobs v then Inr blobs
      else (case unmarshal_manifest_put (Payload e) of
              None \<Rightarrow> Inl ''malformed manifest_put payload''
            | Some p \<Rightarrow>
                if SHA256 p = [] \<or> \<not> EEager v (Feed p) \<or> SHA256 p \<in> blobs then Inr blobs
                else if EEnsure v (SHA256 p) (Size p) peer then Inr (insert (SHA256 p) blobs)
                else Inl ''blob unavailable''))"

definition flushProjections :: "env \<Rightarrow> projection_write list \<Rightarrow> site_state \<Rightarrow> site_state" where
  "flushProjections v queued st =
     (if \<not> EProject v then st else st\<lparr>sprojected := sprojected st @ queued\<rparr>)"

text \<open>
  \<^verbatim>\<open>time.Duration(e.HLC.Wall - now) * time.Millisecond\<close>, both operations on 64-bit integers.
\<close>

definition skew_of :: "env \<Rightarrow> journal_entry \<Rightarrow> int" where
  "skew_of v e = wrap64 (wrap64 (Wall (EHLC e) - ENow v) * 1000000)"

definition park :: "journal_entry \<Rightarrow> string \<Rightarrow> site_state \<Rightarrow> site_state" where
  "park e reason st = st\<lparr>sdb := ParkEvent e reason (sdb st)\<rparr>"

definition applyOne ::
  "env \<Rightarrow> (string \<Rightarrow> int) \<Rightarrow> string \<Rightarrow> journal_entry \<Rightarrow> string set \<times> site_state \<Rightarrow> string option \<times> string set \<times> site_state" where
  "applyOne v blobSize peer e = (\<lambda>(touched, st).
     if skew_of v e > EMaxSkew v then (None, touched, park e ''clock skew'' st)
     else
       (case prefetchBlob v peer e (sblobs st) of
          Inl reason \<Rightarrow> (None, touched, park e reason st)
        | Inr blobs \<Rightarrow>
            let st = st\<lparr>sblobs := blobs\<rparr> in
            (case ApplyForeignJournal (ENow v) e (sdb st) of (fresh, s) \<Rightarrow>
               if \<not> fresh then (None, touched, st\<lparr>sdb := s\<rparr>)
               else
                 (case dispatch v blobSize peer e (sblobs st) (s, touched, []) of
                    Inl (Park reason) \<Rightarrow> (None, touched, park e reason st)
                  | Inl (Fail msg) \<Rightarrow> (Some msg, touched, st)
                  | Inr ((s', touched', pending), blobs') \<Rightarrow>
                      (None, touched', flushProjections v pending (st\<lparr>sdb := s', sblobs := blobs'\<rparr>))))))"

text \<open>
  \<^verbatim>\<open>ApplyBatch\<close>: what was applied before an error stays applied, so the state comes back either
  way, with the error of the entry that stopped the batch.
\<close>

fun ApplyBatch ::
  "env \<Rightarrow> (string \<Rightarrow> int) \<Rightarrow> string \<Rightarrow> journal_entry list \<Rightarrow> string set \<times> site_state \<Rightarrow> string option \<times> string set \<times> site_state" where
  "ApplyBatch v blobSize peer [] st = (None, st)"
| "ApplyBatch v blobSize peer (e # es) st =
     (if OriginSite e = ESite v then ApplyBatch v blobSize peer es st
      else if OriginSite e \<noteq> peer then (Some (''peer served an entry attributed to '' @ OriginSite e), st)
      else (case applyOne v blobSize peer e st of
              (Some err, st') \<Rightarrow> (Some err, st')
            | (None, st') \<Rightarrow> ApplyBatch v blobSize peer es st'))"

text \<open>
  \<^verbatim>\<open>RetryParked\<close> over the parked events of the peer's own origin.  The budget of two minutes is
  the number of events it reaches (\<open>budget\<close>).
\<close>

fun retry_events ::
  "env \<Rightarrow> (string \<Rightarrow> int) \<Rightarrow> string \<Rightarrow> journal_entry list \<Rightarrow> string set \<times> site_state \<Rightarrow> string option \<times> string set \<times> site_state" where
  "retry_events v blobSize peer [] st = (None, st)"
| "retry_events v blobSize peer (e # es) (touched, st) =
     (case prefetchBlob v peer e (sblobs st) of
        Inl _ \<Rightarrow> retry_events v blobSize peer es (touched, st)
      | Inr blobs \<Rightarrow>
          let st = st\<lparr>sblobs := blobs\<rparr> in
          (case dispatch v blobSize peer e (sblobs st) (snd (ApplyForeignJournal (ENow v) e (sdb st)), touched, []) of
             Inl (Park _) \<Rightarrow> retry_events v blobSize peer es (touched, st)
           | Inl (Fail msg) \<Rightarrow> (Some msg, touched, st)
           | Inr ((s', touched', pending), blobs') \<Rightarrow>
               let st = flushProjections v pending (st\<lparr>sdb := s', sblobs := blobs'\<rparr>);
                   st = st\<lparr>sdb := UnparkEvent (OriginSite e) (OriginSeq e) (sdb st)\<rparr>
               in retry_events v blobSize peer es (touched', st)))"

definition RetryParked ::
  "env \<Rightarrow> (string \<Rightarrow> int) \<Rightarrow> nat \<Rightarrow> string \<Rightarrow> site_state \<Rightarrow> string option \<times> string set \<times> site_state" where
  "RetryParked v blobSize budget peer st =
     retry_events v blobSize peer (take budget (parkedEvents peer 100 (sdb st))) ({}, st)"

end
