(* ===== verification/Repl_Convergence.thy ===== *)
theory Repl_Convergence
  imports Repl_Applier
begin

text \<open>
  Convergence of replicated state.  What a site has learned from a journal is abstracted to facts:
  the digests observed for each immutable path, the newest pointer of each mutable path, the newest
  decision of each quarantine register, and the revoked token hashes.  Facts grow by operations that
  commute and are idempotent, and applying an event changes the facts of a site by exactly such an
  operation (an interpretation of \<open>convergent_view\<close>): two sites that applied the same events, in any
  order and any number of times, agree.
\<close>

subsection \<open>Smaller digests rank higher\<close>

datatype rev_digest = Rev (digest: string)

instantiation rev_digest :: linorder
begin

definition less_rev_digest :: "rev_digest \<Rightarrow> rev_digest \<Rightarrow> bool" where
  "less_rev_digest a b \<longleftrightarrow> digest b < digest a"

definition less_eq_rev_digest :: "rev_digest \<Rightarrow> rev_digest \<Rightarrow> bool" where
  "less_eq_rev_digest a b \<longleftrightarrow> digest b \<le> digest a"

instance
  by intro_classes (auto simp: less_rev_digest_def less_eq_rev_digest_def rev_digest.expand)

end

subsection \<open>Facts\<close>

record facts =
  seen_digests :: "string \<times> string \<Rightarrow> string set"
  pointers :: "string \<times> string \<Rightarrow> (hlc \<times> rev_digest) option"
  registers :: "string \<times> string \<times> string \<Rightarrow> (hlc \<times> bool) option"
  revoked :: "string set"

datatype fact =
    Observe "string \<times> string" string
  | Point "string \<times> string" "hlc \<times> rev_digest"
  | Decide "string \<times> string \<times> string" "hlc \<times> bool"
  | Revoke string
  | Nothing

fun learn :: "fact \<Rightarrow> facts \<Rightarrow> facts" where
  "learn (Observe k d) f = f\<lparr>seen_digests := (seen_digests f)(k := insert d (seen_digests f k))\<rparr>"
| "learn (Point k p) f = f\<lparr>pointers := (pointers f)(k := max_step id p (pointers f k))\<rparr>"
| "learn (Decide k d) f = f\<lparr>registers := (registers f)(k := max_step id d (registers f k))\<rparr>"
| "learn (Revoke h) f = f\<lparr>revoked := insert h (revoked f)\<rparr>"
| "learn Nothing f = f"

interpretation learning: commuting_ops learn
proof
  fix a b :: fact and f :: facts
  show "learn a (learn b f) = learn b (learn a f)"
    by (cases a; cases b)
      (auto simp: fun_upd_def insert_commute fun_eq_iff max_register.commute)
  show "learn a (learn a f) = learn a f"
    by (cases a) (auto simp: max_register.idem)
qed

subsection \<open>The facts a site holds\<close>

type_synonym path_key = "string \<times> string"

definition conflict_key :: "conflict_row \<Rightarrow> path_key" where
  "conflict_key c = (CFeed c, CPath c)"

definition conflict_digests :: "db \<Rightarrow> path_key \<Rightarrow> string set" where
  "conflict_digests s k =
     (\<Union>c \<in> {c \<in> set (publish_conflicts s). conflict_key c = k}. {SSHA256 (CWinner c), SSHA256 (CLoser c)})"

definition row_digests :: "db \<Rightarrow> path_key \<Rightarrow> string set" where
  "row_digests s k = (case hosted_manifests s k of None \<Rightarrow> {} | Some r \<Rightarrow> {HSHA256 r})"

definition observed :: "db \<Rightarrow> path_key \<Rightarrow> string set" where
  "observed s k = row_digests s k \<union> conflict_digests s k"

definition pointer_of :: "db \<Rightarrow> path_key \<Rightarrow> (hlc \<times> rev_digest) option" where
  "pointer_of s k = map_option (\<lambda>r. (the (stored_stamp (HMetadata r)), Rev (HSHA256 r))) (hosted_manifests s k)"

definition register_of :: "db \<Rightarrow> string \<times> string \<times> string \<Rightarrow> (hlc \<times> bool) option" where
  "register_of s k = (if snd (snd k) = conflict_reason then None
     else map_option (\<lambda>q. (QHLC q, \<not> QReleased q)) (quarantine s k))"

definition revoked_hashes :: "db \<Rightarrow> string set" where
  "revoked_hashes s = {h. \<exists>t \<in> set (tokens s). THash t = h \<and> TRevoked t}"

definition facts_of :: "(path_key \<Rightarrow> bool) \<Rightarrow> db \<Rightarrow> facts" where
  "facts_of mp s =
     \<lparr>seen_digests = (\<lambda>k. if mp k then {} else observed s k),
      pointers = (\<lambda>k. if mp k then pointer_of s k else None),
      registers = register_of s, revoked = revoked_hashes s\<rparr>"

definition put_key :: "journal_entry \<Rightarrow> path_key" where
  "put_key e = (j_feed (Payload e), j_path (Payload e))"

definition fact_of :: "(path_key \<Rightarrow> bool) \<Rightarrow> journal_entry \<Rightarrow> fact" where
  "fact_of mp e =
     (let p = Payload e in
      if EKind e = KindManifestPut then
        (if mp (put_key e) then Point (put_key e) (EHLC e, Rev (j_sha256 p)) else Observe (put_key e) (j_sha256 p))
      else if EKind e = KindTokenRevoke then Revoke (j_hash p)
      else if EKind e = KindQuarantineSet then Decide (j_feed p, j_coordinate p, j_reason p) (EHLC e, True)
      else if EKind e = KindQuarantineRelease then Decide (j_feed p, j_coordinate p, release_reason p) (EHLC e, False)
      else Nothing)"

subsection \<open>Stores without operator decisions\<close>

definition conflict_blocked :: "string \<Rightarrow> string \<Rightarrow> db \<Rightarrow> bool" where
  "conflict_blocked feed coordinate s =
     (case quarantine s (feed, coordinate, conflict_reason) of None \<Rightarrow> False | Some q \<Rightarrow> \<not> QReleased q)"

definition rows_ok :: "(path_key \<Rightarrow> bool) \<Rightarrow> db \<Rightarrow> bool" where
  "rows_ok mp s \<longleftrightarrow> (\<forall>k r. hosted_manifests s k = Some r \<longrightarrow>
     HMutable r = mp k \<and> (mp k \<longrightarrow> stored_stamp (HMetadata r) \<noteq> None) \<and>
     (\<not> mp k \<longrightarrow> HSHA256 r = Min (observed s k)))"

definition conflicts_ok :: "(path_key \<Rightarrow> bool) \<Rightarrow> (path_key \<Rightarrow> string) \<Rightarrow> db \<Rightarrow> bool" where
  "conflicts_ok mp coord_of s \<longleftrightarrow> (\<forall>c \<in> set (publish_conflicts s).
     CResolved c = None \<and> CCoordinate c = coord_of (conflict_key c) \<and> \<not> mp (conflict_key c) \<and>
     SSHA256 (CWinner c) \<noteq> SSHA256 (CLoser c) \<and> hosted_manifests s (conflict_key c) \<noteq> None)"

definition blocks_ok :: "db \<Rightarrow> bool" where
  "blocks_ok s \<longleftrightarrow> (\<forall>f co. conflict_blocked f co s \<longleftrightarrow> (\<exists>c \<in> set (publish_conflicts s). CFeed c = f \<and> CCoordinate c = co))"

definition tombstones_ok :: "string set \<Rightarrow> db \<Rightarrow> bool" where
  "tombstones_ok H s \<longleftrightarrow> (\<forall>t \<in> set (tokens s). \<forall>h \<in> H. TName t = ''revoked:'' @ take 16 h \<longrightarrow> THash t = h)"

definition undecided :: "(path_key \<Rightarrow> bool) \<Rightarrow> (path_key \<Rightarrow> string) \<Rightarrow> string set \<Rightarrow> db \<Rightarrow> bool" where
  "undecided mp coord_of H s \<longleftrightarrow>
     (\<forall>k. conflict_resolutions s k = None) \<and> rows_ok mp s \<and> conflicts_ok mp coord_of s \<and> blocks_ok s \<and> tombstones_ok H s"

lemmas undecided_defs = undecided_def rows_ok_def conflicts_ok_def blocks_ok_def tombstones_ok_def

lemma observed_finite [simp]: "finite (observed s k)"
  by (auto simp: observed_def row_digests_def conflict_digests_def split: option.splits)

lemma stored_stamp_stamp_meta: "hlc_fits h \<Longrightarrow> stored_stamp (stamp_meta h m) = Some h"
  by (cases h) (simp add: stored_stamp_def bigint_column_def stamp_meta_def ParseInt_FormatInt hlc_fits_def)

subsection \<open>What the merge statements leave alone\<close>

lemma sync_other:
  "hosted_manifests (syncConflictQuarantineTx f co s) = hosted_manifests s"
  "publish_conflicts (syncConflictQuarantineTx f co s) = publish_conflicts s"
  "conflict_resolutions (syncConflictQuarantineTx f co s) = conflict_resolutions s"
  "tokens (syncConflictQuarantineTx f co s) = tokens s"
  "repl_journal (syncConflictQuarantineTx f co s) = repl_journal s"
  "k \<noteq> (f, co, conflict_reason) \<Longrightarrow> quarantine (syncConflictQuarantineTx f co s) k = quarantine s k"
  by (auto simp: syncConflictQuarantineTx_def Let_def split: option.splits)

lemma sync_blocks:
  "conflict_blocked f co (syncConflictQuarantineTx f co s) \<longleftrightarrow> open_conflicts f co s > 0"
  by (auto simp: syncConflictQuarantineTx_def conflict_blocked_def Let_def split: option.splits)

lemma sync_register [simp]: "register_of (syncConflictQuarantineTx f co s) = register_of s"
  by (auto simp: register_of_def fun_eq_iff sync_other)

lemma update_other:
  "quarantine (updateHosted p e s) = quarantine s"
  "publish_conflicts (updateHosted p e s) = publish_conflicts s"
  "conflict_resolutions (updateHosted p e s) = conflict_resolutions s"
  "tokens (updateHosted p e s) = tokens s"
  "repl_journal (updateHosted p e s) = repl_journal s"
  "k \<noteq> (Feed p, MPath p) \<Longrightarrow> hosted_manifests (updateHosted p e s) k = hosted_manifests s k"
  by (auto simp: updateHosted_def split: option.splits)

lemma insert_other:
  "quarantine (insertHosted p e s) = quarantine s"
  "publish_conflicts (insertHosted p e s) = publish_conflicts s"
  "conflict_resolutions (insertHosted p e s) = conflict_resolutions s"
  "tokens (insertHosted p e s) = tokens s"
  "repl_journal (insertHosted p e s) = repl_journal s"
  "k \<noteq> (Feed p, MPath p) \<Longrightarrow> hosted_manifests (insertHosted p e s) k = hosted_manifests s k"
  by (auto simp: insertHosted_def split: option.splits)

lemmas merge_other = sync_other update_other insert_other

subsection \<open>Publications\<close>

definition put_ok :: "(path_key \<Rightarrow> bool) \<Rightarrow> (path_key \<Rightarrow> string) \<Rightarrow> manifest_put \<Rightarrow> journal_entry \<Rightarrow> bool" where
  "put_ok mp coord_of p e \<longleftrightarrow> Feed p \<noteq> [] \<and> MPath p \<noteq> [] \<and> length (SHA256 p) = 64 \<and>
     Mutable p = mp (Feed p, MPath p) \<and> Coord p = coord_of (Feed p, MPath p) \<and> hlc_fits (EHLC e)"

text \<open>The store of a site after the digest \<open>d\<close> was observed for \<open>k\<close>: nothing else changed.\<close>

definition observes :: "path_key \<Rightarrow> string \<Rightarrow> db \<Rightarrow> db \<Rightarrow> bool" where
  "observes k d s s' \<longleftrightarrow> observed s' k = insert d (observed s k) \<and>
     (\<forall>k'. k' \<noteq> k \<longrightarrow> observed s' k' = observed s k' \<and> hosted_manifests s' k' = hosted_manifests s k') \<and>
     register_of s' = register_of s \<and> tokens s' = tokens s \<and> repl_journal s' = repl_journal s \<and>
     conflict_resolutions s' = conflict_resolutions s"

lemma observes_learn:
  assumes "observes k d s s'" and "\<not> mp k"
  shows "facts_of mp s' = learn (Observe k d) (facts_of mp s)"
proof -
  have "pointer_of s' k' = pointer_of s k'" if "mp k'" for k'
  proof -
    have "k' \<noteq> k" using that assms(2) by auto
    then show ?thesis using assms(1) by (cases k') (simp add: observes_def pointer_of_def)
  qed
  then show ?thesis
    using assms by (auto simp: facts_of_def observes_def fun_eq_iff revoked_hashes_def)
qed

lemma rows_ok_observes:
  assumes "rows_ok mp s" "observes k d s s'" "\<not> mp k"
    and "hosted_manifests s' k = Some r" "\<not> HMutable r" "HSHA256 r = Min (insert d (observed s k))"
  shows "rows_ok mp s'"
  using assms unfolding rows_ok_def observes_def by (metis option.inject)

lemma undecidedI:
  "\<lbrakk>\<forall>k. conflict_resolutions s k = None; rows_ok mp s; conflicts_ok mp coord_of s; blocks_ok s; tombstones_ok H s\<rbrakk>
   \<Longrightarrow> undecided mp coord_of H s"
  by (simp add: undecided_def)

lemma first_publication:
  assumes u: "undecided mp coord_of H s" and ok: "put_ok mp coord_of p e" and imm: "\<not> mp (Feed p, MPath p)"
    and none: "hosted_manifests s (Feed p, MPath p) = None"
  shows "observes (Feed p, MPath p) (SHA256 p) s (insertHosted p e s)" "undecided mp coord_of H (insertHosted p e s)"
proof -
  let ?k = "(Feed p, MPath p)" and ?s = "insertHosted p e s"
  have empty: "conflict_digests s ?k = {}"
    using u none by (auto simp: undecided_defs conflict_digests_def)
  have row: "\<exists>r. hosted_manifests ?s ?k = Some r \<and> HSHA256 r = SHA256 p \<and> \<not> HMutable r"
    using none ok imm by (simp add: insertHosted_def put_ok_def)
  show obs: "observes ?k (SHA256 p) s ?s"
    using row none empty
    by (auto simp: observes_def observed_def row_digests_def conflict_digests_def insert_other register_of_def
        split: option.splits)
  have "observed s ?k = {}" using none empty by (simp add: observed_def row_digests_def)
  then have "rows_ok mp ?s"
    using rows_ok_observes[of mp s ?k "SHA256 p" ?s] obs imm row u by (auto simp: undecided_def)
  moreover have "conflicts_ok mp coord_of ?s"
    using u row by (fastforce simp: undecided_def conflicts_ok_def insert_other insertHosted_def split: option.splits)
  ultimately show "undecided mp coord_of H ?s"
    using u by (simp add: undecided_def blocks_ok_def tombstones_ok_def conflict_blocked_def insert_other)
qed

lemma put_conflict_row:
  assumes "hosted_manifests s (Feed p, MPath p) = Some r" "put_conflict p e r s = (m, s')"
  shows "\<exists>r'. hosted_manifests s' (Feed p, MPath p) = Some r' \<and> HSHA256 r' = min (HSHA256 r) (SHA256 p) \<and>
           (HMutable r' = HMutable r \<or> HMutable r' = Mutable p)"
    and "SSHA256 m = min (HSHA256 r) (SHA256 p)"
    and "\<exists>c. publish_conflicts s' = publish_conflicts s @ [c] \<and> conflict_key c = (Feed p, MPath p) \<and>
           CCoordinate c = Coord p \<and> CResolved c = None \<and>
           {SSHA256 (CWinner c), SSHA256 (CLoser c)} = {HSHA256 r, SHA256 p} \<and>
           (HSHA256 r \<noteq> SHA256 p \<longrightarrow> SSHA256 (CWinner c) \<noteq> SSHA256 (CLoser c))"
  using assms
  by (auto simp: put_conflict_def Let_def merge_other recordConflictTx_def updateHosted_def stored_side_def
      incoming_side_def conflict_key_def min_def insert_commute split: if_splits)

lemma put_conflict_other:
  assumes "put_conflict p e r s = (m, s')"
  shows "k \<noteq> (Feed p, MPath p) \<Longrightarrow> hosted_manifests s' k = hosted_manifests s k"
    and "register_of s' = register_of s" "tokens s' = tokens s" "repl_journal s' = repl_journal s"
    and "conflict_resolutions s' = conflict_resolutions s"
  using assms
  by (auto simp: put_conflict_def Let_def merge_other recordConflictTx_def
      register_of_def fun_eq_iff simp del: fun_upd_apply split: if_splits)

lemma put_conflict_blocks:
  assumes "put_conflict p e r s = (m, s')"
  shows "conflict_blocked f co s' \<longleftrightarrow> (f, co) = (Feed p, Coord p) \<or> conflict_blocked f co s"
proof -
  obtain s1 w l ws ls where s': "s' = syncConflictQuarantineTx (Feed p) (Coord p) (recordConflictTx p w l ws ls s1)"
    and s1: "quarantine s1 = quarantine s"
    using assms by (auto simp: put_conflict_def Let_def update_other split: if_splits)
  have "open_conflicts (Feed p) (Coord p) (recordConflictTx p w l ws ls s1) > 0"
    by (simp add: open_conflicts_def recordConflictTx_def)
  then have "conflict_blocked (Feed p) (Coord p) s'" unfolding s' sync_blocks .
  moreover have "conflict_blocked f co s' = conflict_blocked f co s" if "(f, co) \<noteq> (Feed p, Coord p)"
  proof -
    have "quarantine s' (f, co, conflict_reason) = quarantine s (f, co, conflict_reason)"
      using that s1 unfolding s' by (subst sync_other) (auto simp: recordConflictTx_def)
    then show ?thesis by (simp add: conflict_blocked_def)
  qed
  ultimately show ?thesis by auto
qed

lemma second_publication:
  assumes u: "undecided mp coord_of H s" and ok: "put_ok mp coord_of p e" and imm: "\<not> mp (Feed p, MPath p)"
    and row: "hosted_manifests s (Feed p, MPath p) = Some r" and neq: "HSHA256 r \<noteq> SHA256 p"
    and put: "put_conflict p e r s = (m, s')"
  shows "observes (Feed p, MPath p) (SHA256 p) s s'" "undecided mp coord_of H s'"
proof -
  let ?k = "(Feed p, MPath p)"
  obtain r' where r': "hosted_manifests s' ?k = Some r'" "HSHA256 r' = min (HSHA256 r) (SHA256 p)"
      "HMutable r' = HMutable r \<or> HMutable r' = Mutable p"
    using put_conflict_row(1)[OF row put] by blast
  obtain c where c: "publish_conflicts s' = publish_conflicts s @ [c]" "conflict_key c = ?k" "CCoordinate c = Coord p"
      "CResolved c = None" "{SSHA256 (CWinner c), SSHA256 (CLoser c)} = {HSHA256 r, SHA256 p}"
      "SSHA256 (CWinner c) \<noteq> SSHA256 (CLoser c)"
    using put_conflict_row(3)[OF row put] neq by blast
  note rest = put_conflict_other[OF put]
  have digests: "conflict_digests s' k = (if k = ?k then {HSHA256 r, SHA256 p} else {}) \<union> conflict_digests s k" for k
    using c(2) c(5) unfolding conflict_digests_def c(1) by auto
  have seen: "observed s' ?k = insert (SHA256 p) (observed s ?k)"
    using r' row digests[of ?k] by (auto simp: observed_def row_digests_def min_def)
  show obs: "observes ?k (SHA256 p) s s'"
    unfolding observes_def using seen digests rest by (simp add: observed_def row_digests_def)
  have old: "HSHA256 r = Min (observed s ?k)" "\<not> HMutable r"
    using u row imm by (auto simp: undecided_def rows_ok_def)
  have "observed s ?k \<noteq> {}" using row by (simp add: observed_def row_digests_def)
  then have "HSHA256 r' = Min (insert (SHA256 p) (observed s ?k))"
    using r'(2) old by (simp add: min.commute)
  moreover have "\<not> HMutable r'" using r'(3) old(2) ok imm by (simp add: put_ok_def)
  ultimately have rows: "rows_ok mp s'"
    using rows_ok_observes[of mp s ?k "SHA256 p" s' r'] obs imm r'(1) u by (simp add: undecided_def)
  have kept: "hosted_manifests s' k \<noteq> None" if "hosted_manifests s k \<noteq> None" for k
    using that r'(1) rest(1)[of k] by (cases "k = ?k") auto
  have "conflicts_ok mp coord_of s'"
    using u ok imm c r'(1) kept by (auto simp: undecided_def conflicts_ok_def put_ok_def)
  moreover have "blocks_ok s'"
    using u c(1-3) put_conflict_blocks[OF put] by (auto simp: undecided_def blocks_ok_def conflict_key_def)
  ultimately show "undecided mp coord_of H s'"
    using u rows rest by (simp add: undecided_def tombstones_ok_def)
qed

lemma pointer_put:
  assumes u: "undecided mp coord_of H s" and ok: "put_ok mp coord_of p e" and mut: "mp (Feed p, MPath p)"
    and s': "s' = insertHosted p e s \<and> hosted_manifests s (Feed p, MPath p) = None \<or>
             s' = updateHosted p e s \<and> hosted_manifests s (Feed p, MPath p) \<noteq> None"
  shows "undecided mp coord_of H s'"
    and "facts_of mp s' = (facts_of mp s)\<lparr>pointers := (pointers (facts_of mp s))
           ((Feed p, MPath p) := Some (EHLC e, Rev (SHA256 p)))\<rparr>"
    and "repl_journal s' = repl_journal s"
proof -
  let ?k = "(Feed p, MPath p)"
  have fits: "hlc_fits (EHLC e)" "Mutable p" using ok mut by (auto simp: put_ok_def)
  have same: "quarantine s' = quarantine s" "publish_conflicts s' = publish_conflicts s" "tokens s' = tokens s"
      "conflict_resolutions s' = conflict_resolutions s"
    using s' by (auto simp: merge_other)
  have other: "hosted_manifests s' k = hosted_manifests s k" if "k \<noteq> ?k" for k
    using s' that by (auto simp: merge_other)
  obtain r where r: "hosted_manifests s' ?k = Some r" "HSHA256 r = SHA256 p" "HMutable r"
      "stored_stamp (HMetadata r) = Some (EHLC e)"
    using s' fits by (auto simp: insertHosted_def updateHosted_def encodeMaps_def stored_stamp_stamp_meta)
  have obs: "observed s' k = observed s k" if "\<not> mp k" for k
  proof -
    have "k \<noteq> ?k" using that mut by auto
    then show ?thesis using other[of k] by (simp add: observed_def row_digests_def conflict_digests_def same)
  qed
  show "repl_journal s' = repl_journal s" using s' by (auto simp: merge_other)
  have "rows_ok mp s'"
    unfolding rows_ok_def
  proof (intro allI impI)
    fix k r0 assume k: "hosted_manifests s' k = Some r0"
    show "HMutable r0 = mp k \<and> (mp k \<longrightarrow> stored_stamp (HMetadata r0) \<noteq> None) \<and>
       (\<not> mp k \<longrightarrow> HSHA256 r0 = Min (observed s' k))"
    proof (cases "k = ?k")
      case True
      then show ?thesis using k r mut by simp
    next
      case False
      then have "hosted_manifests s k = Some r0" using k other by simp
      then show ?thesis using u obs[of k] unfolding undecided_def rows_ok_def by metis
    qed
  qed
  moreover have "conflicts_ok mp coord_of s'"
    using u same other mut unfolding undecided_def conflicts_ok_def by (metis (no_types, lifting))
  ultimately show "undecided mp coord_of H s'"
    using u same by (simp add: undecided_def blocks_ok_def tombstones_ok_def conflict_blocked_def)
  show "facts_of mp s' = (facts_of mp s)\<lparr>pointers := (pointers (facts_of mp s))
           (?k := Some (EHLC e, Rev (SHA256 p)))\<rparr>"
    using obs r other same mut
    by (auto simp: facts_of_def fun_eq_iff pointer_of_def register_of_def revoked_hashes_def simp del: split_paired_All)
qed

text \<open>
  What every merge owes: the store stays undecided, the facts grow by the event's fact, and the
  journal is left to the caller.
\<close>

definition merges :: "(path_key \<Rightarrow> bool) \<Rightarrow> (path_key \<Rightarrow> string) \<Rightarrow> string set \<Rightarrow> fact \<Rightarrow> db \<Rightarrow> db \<Rightarrow> bool" where
  "merges mp coord_of H a s s' \<longleftrightarrow> undecided mp coord_of H s' \<and> facts_of mp s' = learn a (facts_of mp s) \<and>
     repl_journal s' = repl_journal s"

lemma merges_refl:
  "undecided mp coord_of H s \<Longrightarrow> learn a (facts_of mp s) = facts_of mp s \<Longrightarrow> merges mp coord_of H a s s"
  by (simp add: merges_def)

lemma merges_observes:
  "undecided mp coord_of H s' \<Longrightarrow> observes k d s s' \<Longrightarrow> \<not> mp k \<Longrightarrow> merges mp coord_of H (Observe k d) s s'"
  by (simp add: merges_def observes_learn) (simp add: observes_def)

lemma newer_pointer:
  assumes "hosted_manifests s (f, p) = Some r" "stored_stamp (HMetadata r) = Some st"
  shows "isNewerThanStored f p h d (HSHA256 r) s = Some ((st, Rev (HSHA256 r)) < (h, Rev d))"
  using assms by (auto simp: isNewerThanStored_def Before_iff less_prod_def' less_rev_digest_def)

lemma pointer_merges:
  assumes u: "undecided mp coord_of H s" and ok: "put_ok mp coord_of p e" and mut: "mp (Feed p, MPath p)"
    and s': "s' = insertHosted p e s \<and> hosted_manifests s (Feed p, MPath p) = None \<or>
             s' = updateHosted p e s \<and> (\<exists>r st. hosted_manifests s (Feed p, MPath p) = Some r \<and>
               stored_stamp (HMetadata r) = Some st \<and> (st, Rev (HSHA256 r)) < (EHLC e, Rev (SHA256 p)))"
  shows "merges mp coord_of H (Point (Feed p, MPath p) (EHLC e, Rev (SHA256 p))) s s'"
proof -
  let ?k = "(Feed p, MPath p)"
  have "max_step id (EHLC e, Rev (SHA256 p)) (pointers (facts_of mp s) ?k) = Some (EHLC e, Rev (SHA256 p))"
    using s' mut by (auto simp: facts_of_def pointer_of_def max_step_def max_def)
  moreover have "s' = insertHosted p e s \<and> hosted_manifests s ?k = None \<or> s' = updateHosted p e s \<and> hosted_manifests s ?k \<noteq> None"
    using s' by auto
  ultimately show ?thesis
    using pointer_put[OF u ok mut] by (simp add: merges_def)
qed

lemma applyManifestPut_merges:
  assumes u: "undecided mp coord_of H s" and p: "unmarshal_manifest_put (Payload e) = Some p"
    and ok: "put_ok mp coord_of p e" and blob: "\<not> (EEager v (Feed p) \<and> EBlobs v \<and> SHA256 p \<notin> blobs)"
    and kind: "EKind e = KindManifestPut"
  shows "\<exists>s' touched' pending'. applyManifestPut v blobs e (s, touched, pending) = Inr (s', touched', pending') \<and>
           merges mp coord_of H (fact_of mp e) s s'"
proof -
  let ?k = "(Feed p, MPath p)"
  have key: "put_key e = ?k" "j_sha256 (Payload e) = SHA256 p"
    using p by (auto simp: unmarshal_manifest_put_def put_key_def split: if_splits)
  have none: "storedResolution (Feed p) (MPath p) s = None"
    using u by (simp add: undecided_def storedResolution_def)
  have size: "\<not> (Feed p = [] \<or> MPath p = [] \<or> length (SHA256 p) \<noteq> 64)" using ok by (simp add: put_ok_def)
  note here = applyManifestPut_def p size blob none hostedState_def
  have fact: "fact_of mp e = (if mp ?k then Point ?k (EHLC e, Rev (SHA256 p)) else Observe ?k (SHA256 p))"
    using key kind by (simp add: fact_of_def Let_def)
  show ?thesis
  proof (cases "hosted_manifests s ?k")
    case None
    then have "merges mp coord_of H (fact_of mp e) s (insertHosted p e s)"
      using pointer_merges[OF u ok] first_publication[OF u ok] fact by (simp add: merges_observes)
    then show ?thesis using None here by simp
  next
    case (Some r)
    show ?thesis
    proof (cases "mp ?k")
      case True
      then have mut: "Mutable p \<and> HMutable r" using u ok Some by (auto simp: undecided_def rows_ok_def put_ok_def)
      obtain st where st: "stored_stamp (HMetadata r) = Some st"
        using u Some True unfolding undecided_def rows_ok_def by fast
      note newer = newer_pointer[OF Some st, of "EHLC e" "SHA256 p"]
      show ?thesis
      proof (cases "(st, Rev (HSHA256 r)) < (EHLC e, Rev (SHA256 p))")
        case yes: True
        then have "merges mp coord_of H (fact_of mp e) s (updateHosted p e s)"
          using pointer_merges[OF u ok True] fact True Some st by simp
        moreover have "isNewerThanStored (Feed p) (MPath p) (EHLC e) (SHA256 p) (HSHA256 r) s = Some True"
          unfolding newer using yes by simp
        ultimately show ?thesis using Some here mut by simp
      next
        case no: False
        then have "learn (fact_of mp e) (facts_of mp s) = facts_of mp s"
          using fact True Some st by (auto simp: facts_of_def pointer_of_def max_step_def max_def fun_eq_iff)
        then have "merges mp coord_of H (fact_of mp e) s s" by (rule merges_refl[OF u])
        moreover have "isNewerThanStored (Feed p) (MPath p) (EHLC e) (SHA256 p) (HSHA256 r) s = Some False"
          unfolding newer using no by simp
        ultimately show ?thesis using Some here mut by simp
      qed
    next
      case False
      then have imm: "\<not> Mutable p" using ok by (simp add: put_ok_def)
      show ?thesis
      proof (cases "HSHA256 r = SHA256 p")
        case True
        then have "learn (fact_of mp e) (facts_of mp s) = facts_of mp s"
          using fact False Some by (auto simp: facts_of_def observed_def row_digests_def fun_eq_iff)
        then have "merges mp coord_of H (fact_of mp e) s s" by (rule merges_refl[OF u])
        then show ?thesis using Some here imm True by simp
      next
        case neq: False
        obtain m s' where put: "put_conflict p e r s = (m, s')" by force
        have "merges mp coord_of H (fact_of mp e) s s'"
          using second_publication[OF u ok False Some neq put] fact False by (simp add: merges_observes)
        then show ?thesis using Some here imm neq put by simp
      qed
    qed
  qed
qed

subsection \<open>Registers and tombstones\<close>

lemma register_merges:
  assumes u: "undecided mp coord_of H s" and reason: "r \<noteq> conflict_reason"
    and s': "s' = s\<lparr>quarantine := (quarantine s)((f, co, r) \<mapsto> q)\<rparr>"
    and q: "Some (QHLC q, \<not> QReleased q) = max_step id d (register_of s (f, co, r))"
  shows "merges mp coord_of H (Decide (f, co, r) d) s s'"
proof -
  have "undecided mp coord_of H s'"
    using u reason
    by (simp add: s' undecided_def rows_ok_def conflicts_ok_def blocks_ok_def conflict_blocked_def tombstones_ok_def
        observed_def row_digests_def conflict_digests_def)
  moreover have "register_of s' = (register_of s)((f, co, r) := max_step id d (register_of s (f, co, r)))"
    using reason q by (auto simp: s' register_of_def fun_eq_iff)
  ultimately show ?thesis
    by (simp add: merges_def facts_of_def)
      (simp add: s' fun_eq_iff observed_def row_digests_def conflict_digests_def pointer_of_def revoked_hashes_def)
qed

lemma quarantineTx_merges:
  assumes u: "undecided mp coord_of H s" and reason: "r \<noteq> conflict_reason"
  shows "merges mp coord_of H (Decide (f, co, r) (h, True)) s (quarantineTx f co r detail h s)"
proof (cases "quarantine s (f, co, r)")
  case None
  then show ?thesis
    by (intro register_merges[OF u reason]) (auto simp: quarantineTx_def register_of_def max_step_def reason)
next
  case (Some q)
  show ?thesis
  proof (cases "QHLC q \<le> h")
    case True
    then show ?thesis using Some
      by (intro register_merges[OF u reason])
        (auto simp: quarantineTx_def register_of_def max_step_def reason max_def less_eq_prod_def)
  next
    case False
    then show ?thesis using Some reason
      by (intro merges_refl[OF u, THEN back_subst[of "merges mp coord_of H _ s"]])
        (auto simp: quarantineTx_def facts_of_def register_of_def max_step_def max_def less_eq_prod_def fun_eq_iff)
  qed
qed

lemma releaseQuarantineTx_merges:
  assumes u: "undecided mp coord_of H s" and reason: "r \<noteq> conflict_reason"
  shows "merges mp coord_of H (Decide (f, co, r) (h, False)) s (releaseQuarantineTx f co r h s)"
proof (cases "quarantine s (f, co, r)")
  case None
  then show ?thesis
    by (intro register_merges[OF u reason]) (auto simp: releaseQuarantineTx_def register_of_def max_step_def reason)
next
  case (Some q)
  show ?thesis
  proof (cases "QHLC q < h")
    case True
    then show ?thesis using Some
      by (intro register_merges[OF u reason])
        (auto simp: releaseQuarantineTx_def register_of_def max_step_def reason max_def less_eq_prod_def)
  next
    case False
    then show ?thesis using Some reason
      by (intro merges_refl[OF u, THEN back_subst[of "merges mp coord_of H _ s"]])
        (auto simp: releaseQuarantineTx_def facts_of_def register_of_def max_step_def max_def less_eq_prod_def fun_eq_iff)
  qed
qed

lemma revoked_hashes_tokens: "revoked_hashes (s\<lparr>tokens := ts\<rparr>) = {h. \<exists>t \<in> set ts. THash t = h \<and> TRevoked t}"
  by (simp add: revoked_hashes_def)

lemma revoked_after:
  "(\<exists>t \<in> set (map (\<lambda>t. if THash t = h then t\<lparr>TRevoked := True\<rparr> else t) ts). THash t = x \<and> TRevoked t) \<longleftrightarrow>
   (\<exists>t \<in> set ts. THash t = x \<and> (TRevoked t \<or> x = h))"
  by (induction ts) auto

lemma revoke_hash_tokens:
  assumes stones: "tombstones_ok H s" and h: "h \<in> H" and inj: "inj_on (take 16) H"
  shows "\<exists>ts. revoke_hash h s = Some (s\<lparr>tokens := ts\<rparr>) \<and> tombstones_ok H (s\<lparr>tokens := ts\<rparr>) \<and>
    revoked_hashes (s\<lparr>tokens := ts\<rparr>) = insert h (revoked_hashes s)"
proof (cases "\<exists>t \<in> set (tokens s). THash t = h")
  case True
  let ?ts = "map (\<lambda>t. if THash t = h then t\<lparr>TRevoked := True\<rparr> else t) (tokens s)"
  have "tombstones_ok H (s\<lparr>tokens := ?ts\<rparr>)" using stones by (auto simp: tombstones_ok_def)
  moreover have "revoked_hashes (s\<lparr>tokens := ?ts\<rparr>) = insert h (revoked_hashes s)"
    using True unfolding revoked_hashes_tokens revoked_after by (auto simp: revoked_hashes_def)
  ultimately show ?thesis using True by (auto simp: revoke_hash_def list_ex_iff)
next
  case False
  let ?ts = "tokens s @ [\<lparr>TName = ''revoked:'' @ take 16 h, THash = h, TRevoked = True\<rparr>]"
  have free: "\<not> (\<exists>t \<in> set (tokens s). TName t = ''revoked:'' @ take 16 h)"
    using stones h False unfolding tombstones_ok_def by blast
  have "tombstones_ok H (s\<lparr>tokens := ?ts\<rparr>)"
    using stones inj_onD[OF inj _ _ h] by (simp add: tombstones_ok_def) metis
  moreover have "revoked_hashes (s\<lparr>tokens := ?ts\<rparr>) = insert h (revoked_hashes s)"
    by (auto simp: revoked_hashes_def)
  ultimately show ?thesis using False free by (auto simp: revoke_hash_def list_ex_iff)
qed

lemma revoke_hash_merges:
  assumes u: "undecided mp coord_of H s" and h: "h \<in> H" and inj: "inj_on (take 16) H"
  shows "\<exists>s'. revoke_hash h s = Some s' \<and> merges mp coord_of H (Revoke h) s s'"
proof -
  have frame: "merges mp coord_of H (Revoke h) s (s\<lparr>tokens := ts\<rparr>)"
    if "tombstones_ok H (s\<lparr>tokens := ts\<rparr>)" "revoked_hashes (s\<lparr>tokens := ts\<rparr>) = insert h (revoked_hashes s)" for ts
    using that u
    by (simp add: merges_def undecided_def rows_ok_def conflicts_ok_def blocks_ok_def conflict_blocked_def facts_of_def
        observed_def row_digests_def conflict_digests_def pointer_of_def register_of_def fun_eq_iff)
  have stones: "tombstones_ok H s" using u by (simp add: undecided_def)
  show ?thesis using revoke_hash_tokens[OF stones h inj] frame by blast
qed

subsection \<open>One event\<close>

text \<open>
  The world the sites share: which paths are mutable, which coordinate a path belongs to, the token
  hashes in use (their first sixteen characters tell them apart), and the event each origin wrote
  under each sequence number.
\<close>

record world =
  mutable_path :: "path_key \<Rightarrow> bool"
  coordinate_of :: "path_key \<Rightarrow> string"
  hashes :: "string set"
  event_at :: "string \<Rightarrow> int \<Rightarrow> journal_entry"

definition well_formed :: "world \<Rightarrow> journal_entry \<Rightarrow> bool" where
  "well_formed w e \<longleftrightarrow>
     (let p = Payload e in
      \<not> malformed p \<and>
      (EKind e = KindManifestPut \<and> j_feed p \<noteq> [] \<and> j_path p \<noteq> [] \<and> length (j_sha256 p) = 64 \<and>
         j_mutable p = mutable_path w (put_key e) \<and> j_coordinate p = coordinate_of w (put_key e) \<and> hlc_fits (EHLC e) \<or>
       EKind e = KindBlobAvailable \<or>
       EKind e = KindTokenRevoke \<and> length (j_hash p) = 64 \<and> j_hash p \<in> hashes w \<or>
       EKind e = KindQuarantineSet \<and> j_feed p \<noteq> [] \<and> j_coordinate p \<noteq> [] \<and> j_reason p \<noteq> [] \<and> j_reason p \<noteq> conflict_reason \<or>
       EKind e = KindQuarantineRelease \<and> release_reason p \<noteq> conflict_reason))"

text \<open>An event this site takes in from its origin: the clock is within the skew, the bytes arrive.\<close>

definition acceptable :: "world \<Rightarrow> env \<Rightarrow> journal_entry \<Rightarrow> bool" where
  "acceptable w v e \<longleftrightarrow> well_formed w e \<and> event_at w (OriginSite e) (OriginSeq e) = e \<and>
     inj_on (take 16) (hashes w) \<and> OriginSite e \<noteq> ESite v \<and> skew_of v e \<le> EMaxSkew v \<and>
     (EKind e = KindManifestPut \<and> EEager v (j_feed (Payload e)) \<longrightarrow>
        EEnsure v (j_sha256 (Payload e)) (j_size (Payload e)) (OriginSite e))"

abbreviation undecided_in :: "world \<Rightarrow> db \<Rightarrow> bool" where
  "undecided_in w \<equiv> undecided (mutable_path w) (coordinate_of w) (hashes w)"

abbreviation merges_in :: "world \<Rightarrow> journal_entry \<Rightarrow> db \<Rightarrow> db \<Rightarrow> bool" where
  "merges_in w e \<equiv> merges (mutable_path w) (coordinate_of w) (hashes w) (fact_of (mutable_path w) e)"

lemma dispatch_merges:
  assumes u: "undecided_in w s" and wf: "well_formed w e" and inj: "inj_on (take 16) (hashes w)"
    and blob: "EKind e = KindManifestPut \<Longrightarrow> \<not> (EEager v (j_feed (Payload e)) \<and> EBlobs v \<and> j_sha256 (Payload e) \<notin> blobs)"
  shows "\<exists>s' touched' pending' blobs'. dispatch v blobSize peer e blobs (s, touched, pending) =
           Inr ((s', touched', pending'), blobs') \<and> merges_in w e s s'"
proof -
  have ok: "\<not> malformed (Payload e)" using wf by (simp add: well_formed_def Let_def)
  consider (put) "EKind e = KindManifestPut" | (blob) "EKind e = KindBlobAvailable" | (revoke) "EKind e = KindTokenRevoke"
    | (set) "EKind e = KindQuarantineSet" | (release) "EKind e = KindQuarantineRelease"
    using wf by (auto simp: well_formed_def Let_def)
  then show ?thesis
  proof cases
    case put
    obtain p where p: "unmarshal_manifest_put (Payload e) = Some p" "Feed p = j_feed (Payload e)"
        "SHA256 p = j_sha256 (Payload e)" and pok: "put_ok (mutable_path w) (coordinate_of w) p e"
      using wf put ok by (auto simp: unmarshal_manifest_put_def put_ok_def well_formed_def put_key_def kind_defs Let_def)
    have "\<not> (EEager v (Feed p) \<and> EBlobs v \<and> SHA256 p \<notin> blobs)" using blob[OF put] p by simp
    from applyManifestPut_merges[OF u p(1) pok this put, of touched pending]
    show ?thesis using put by (auto simp: dispatch_def)
  next
    case blob
    have "merges_in w e s s"
      using blob by (intro merges_refl[OF u]) (simp add: fact_of_def Let_def kind_defs)
    then show ?thesis using blob ok by (auto simp: dispatch_def applyBlobAvailable_def kind_defs)
  next
    case revoke
    have h: "j_hash (Payload e) \<in> hashes w" "length (j_hash (Payload e)) = 64"
      using wf revoke by (auto simp: well_formed_def Let_def kind_defs)
    have "fact_of (mutable_path w) e = Revoke (j_hash (Payload e))"
      using revoke by (simp add: fact_of_def Let_def kind_defs)
    then show ?thesis using revoke_hash_merges[OF u h(1) inj] revoke ok h(2)
      by (auto simp: dispatch_def on_db_def applyTokenRevoke_def kind_defs)
  next
    case set
    then show ?thesis using wf quarantineTx_merges[OF u]
      by (auto simp: dispatch_def on_db_def applyQuarantineSet_def kind_defs well_formed_def fact_of_def Let_def)
  next
    case release
    then show ?thesis using wf releaseQuarantineTx_merges[OF u]
      by (auto simp: dispatch_def on_db_def applyQuarantineRelease_def kind_defs well_formed_def fact_of_def Let_def)
  qed
qed

subsection \<open>Streams\<close>

lemma facts_of_frame:
  "facts_of mp (s\<lparr>clock := c\<rparr>) = facts_of mp s" "facts_of mp (s\<lparr>repl_journal := j\<rparr>) = facts_of mp s"
  by (simp_all add: facts_of_def observed_def row_digests_def conflict_digests_def pointer_of_def register_of_def
      revoked_hashes_def fun_eq_iff)

lemma undecided_frame:
  "undecided mp coord_of H (s\<lparr>clock := c\<rparr>) = undecided mp coord_of H s"
  "undecided mp coord_of H (s\<lparr>repl_journal := j\<rparr>) = undecided mp coord_of H s"
  by (simp_all add: undecided_def rows_ok_def conflicts_ok_def blocks_ok_def conflict_blocked_def tombstones_ok_def
      observed_def row_digests_def conflict_digests_def)

definition learned :: "world \<Rightarrow> facts \<Rightarrow> journal_entry \<Rightarrow> bool" where
  "learned w f e \<longleftrightarrow> learn (fact_of (mutable_path w) (event_at w (OriginSite e) (OriginSeq e))) f = f"

definition view :: "world \<Rightarrow> string set \<times> site_state \<Rightarrow> facts" where
  "view w st = facts_of (mutable_path w) (sdb (snd st))"

text \<open>A site in step: undecided, and every event in its journal is part of its facts.\<close>

definition in_step :: "world \<Rightarrow> string set \<times> site_state \<Rightarrow> bool" where
  "in_step w st \<longleftrightarrow> undecided_in w (sdb (snd st)) \<and>
     list_all (learned w (view w st)) (map fst (repl_journal (sdb (snd st))))"

definition take_in :: "env \<Rightarrow> (string \<Rightarrow> int) \<Rightarrow> journal_entry \<Rightarrow> string set \<times> site_state \<Rightarrow> string set \<times> site_state" where
  "take_in v blobSize e st = snd (applyOne v blobSize (OriginSite e) e st)"

lemma learned_more: "learned w f e \<Longrightarrow> learned w (learn a f) e"
  unfolding learned_def using learning.commute by metis

lemma flushProjections_sdb [simp]: "sdb (flushProjections v ws st) = sdb st"
  by (simp add: flushProjections_def)

lemma prefetch_acceptable:
  assumes "acceptable w v e"
  shows "\<exists>blobs'. prefetchBlob v (OriginSite e) e blobs = Inr blobs' \<and>
    (EKind e = KindManifestPut \<longrightarrow> \<not> (EEager v (j_feed (Payload e)) \<and> EBlobs v \<and> j_sha256 (Payload e) \<notin> blobs'))"
proof (cases "EKind e = KindManifestPut")
  case True
  then have "\<not> malformed (Payload e)" "length (j_sha256 (Payload e)) = 64"
      "EEager v (j_feed (Payload e)) \<longrightarrow> EEnsure v (j_sha256 (Payload e)) (j_size (Payload e)) (OriginSite e)"
    using assms by (auto simp: acceptable_def well_formed_def Let_def kind_defs)
  then show ?thesis using True by (auto simp: prefetchBlob_def unmarshal_manifest_put_def)
qed (simp add: prefetchBlob_def)

text \<open>An acceptable event is taken in without an error: its fact is learned and nothing is parked.\<close>

lemma take_in_step:
  assumes inv: "in_step w st" and acc: "acceptable w v e"
  shows "fst (applyOne v blobSize (OriginSite e) e st) = None"
    and "in_step w (take_in v blobSize e st)"
    and "view w (take_in v blobSize e st) = learn (fact_of (mutable_path w) e) (view w st)"
proof -
  obtain touched s0 where st: "st = (touched, s0)" by (cases st)
  have u: "undecided_in w (sdb s0)" and known: "list_all (learned w (view w st)) (map fst (repl_journal (sdb s0)))"
    using inv by (auto simp: in_step_def st)
  have wf: "well_formed w e" and at: "event_at w (OriginSite e) (OriginSeq e) = e"
    and inj: "inj_on (take 16) (hashes w)" and skew: "\<not> EMaxSkew v < skew_of v e"
    using acc by (auto simp: acceptable_def)
  obtain blobs where pre: "prefetchBlob v (OriginSite e) e (sblobs s0) = Inr blobs"
    and blob: "EKind e = KindManifestPut \<Longrightarrow> \<not> (EEager v (j_feed (Payload e)) \<and> EBlobs v \<and> j_sha256 (Payload e) \<notin> blobs)"
    using prefetch_acceptable[OF acc] by blast
  define c where "c = repl_hlc_recv (EHLC e) (clock (sdb s0))"
  show "fst (applyOne v blobSize (OriginSite e) e st) = None" "in_step w (take_in v blobSize e st)"
    "view w (take_in v blobSize e st) = learn (fact_of (mutable_path w) e) (view w st)"
  proof (atomize(full), cases "in_journal (OriginSite e) (OriginSeq e) (sdb s0)")
    case True
    then have j: "in_journal (OriginSite e) (OriginSeq e) (sdb s0\<lparr>clock := c\<rparr>)" by (simp add: in_journal_def)
    have one: "applyOne v blobSize (OriginSite e) e st = (None, touched, s0\<lparr>sblobs := blobs, sdb := (sdb s0)\<lparr>clock := c\<rparr>\<rparr>)"
      using skew pre j by (simp add: applyOne_def st ApplyForeignJournal_def c_def Let_def)
    obtain e' t where "(e', t) \<in> set (repl_journal (sdb s0))" "OriginSite e' = OriginSite e" "OriginSeq e' = OriginSeq e"
      using True by (auto simp: in_journal_def list_ex_iff)
    then have "learned w (view w st) e'" using known by (auto simp: list_all_iff)
    then have "learn (fact_of (mutable_path w) e) (view w st) = view w st"
      using at \<open>OriginSite e' = _\<close> \<open>OriginSeq e' = _\<close> by (simp add: learned_def)
    then show "fst (applyOne v blobSize (OriginSite e) e st) = None \<and> in_step w (take_in v blobSize e st) \<and>
      view w (take_in v blobSize e st) = learn (fact_of (mutable_path w) e) (view w st)"
      using one u known by (simp add: take_in_def in_step_def view_def st facts_of_frame undecided_frame)
  next
    case False
    then have j: "\<not> in_journal (OriginSite e) (OriginSeq e) (sdb s0\<lparr>clock := c\<rparr>)" by (simp add: in_journal_def)
    let ?s = "sdb s0\<lparr>clock := c, repl_journal := repl_journal (sdb s0) @ [(e, ENow v)]\<rparr>"
    have u': "undecided_in w ?s" using u by (simp add: undecided_frame)
    obtain s' touched' pending' blobs' where d: "dispatch v blobSize (OriginSite e) e blobs (?s, touched, []) =
        Inr ((s', touched', pending'), blobs')" and m: "merges_in w e ?s s'"
      using dispatch_merges[OF u' wf inj blob] by blast
    have one: "applyOne v blobSize (OriginSite e) e st =
        (None, touched', flushProjections v pending' (s0\<lparr>sdb := s', sblobs := blobs'\<rparr>))"
      using skew pre j d by (simp add: applyOne_def st ApplyForeignJournal_def c_def Let_def)
    have view': "facts_of (mutable_path w) s' = learn (fact_of (mutable_path w) e) (view w st)"
      using m by (simp add: merges_def facts_of_frame view_def st)
    have "learned w (learn (fact_of (mutable_path w) e) (view w st)) e"
      unfolding learned_def at by (rule learning.idem)
    moreover have "repl_journal s' = repl_journal (sdb s0) @ [(e, ENow v)]" using m by (simp add: merges_def)
    ultimately have "list_all (learned w (facts_of (mutable_path w) s')) (map fst (repl_journal s'))"
      using known unfolding view' by (auto simp: list_all_iff intro: learned_more)
    then show "fst (applyOne v blobSize (OriginSite e) e st) = None \<and> in_step w (take_in v blobSize e st) \<and>
      view w (take_in v blobSize e st) = learn (fact_of (mutable_path w) e) (view w st)"
      using one m view' by (simp add: take_in_def in_step_def view_def merges_def)
  qed
qed

interpretation stream: convergent_view "\<lambda>e. learn (fact_of (mutable_path w) e)" "take_in v blobSize" "view w" "in_step w"
    "acceptable w v" for w :: world and v :: env and blobSize :: "string \<Rightarrow> int"
  by unfold_locales (auto simp: learning.commute learning.idem take_in_step)

text \<open>A batch of a peer holds the entries of that peer; polling is one batch after another.\<close>

definition poll ::
  "env \<Rightarrow> (string \<Rightarrow> int) \<Rightarrow> string \<times> journal_entry list \<Rightarrow> string set \<times> site_state \<Rightarrow> string set \<times> site_state" where
  "poll v blobSize b st = snd (ApplyBatch v blobSize (fst b) (snd b) st)"

definition served_by :: "world \<Rightarrow> env \<Rightarrow> (string \<times> journal_entry list) list \<Rightarrow> bool" where
  "served_by w v bs \<longleftrightarrow> (\<forall>(peer, es) \<in> set bs. \<forall>e \<in> set es. OriginSite e = peer \<and> acceptable w v e)"

definition events :: "(string \<times> journal_entry list) list \<Rightarrow> journal_entry list" where
  "events bs = concat (map snd bs)"

lemma ApplyBatch_take_in:
  "\<lbrakk>in_step w st; \<forall>e \<in> set es. OriginSite e = peer \<and> acceptable w v e\<rbrakk> \<Longrightarrow>
   ApplyBatch v blobSize peer es st = (None, fold (take_in v blobSize) es st)"
proof (induction es arbitrary: st)
  case (Cons e es)
  then have acc: "acceptable w v e" "OriginSite e = peer" by auto
  obtain st' where one: "applyOne v blobSize peer e st = (None, st')"
    using take_in_step(1)[OF Cons.prems(1) acc(1), of blobSize] acc(2) by (metis prod.collapse)
  then have "st' = take_in v blobSize e st" using acc(2) by (simp add: take_in_def)
  moreover have "peer \<noteq> ESite v" using acc by (auto simp: acceptable_def)
  moreover have "ApplyBatch v blobSize peer es (take_in v blobSize e st) = (None, fold (take_in v blobSize) es (take_in v blobSize e st))"
    using Cons.prems(2) by (intro Cons.IH take_in_step(2)[OF Cons.prems(1) acc(1)]) auto
  ultimately show ?case using one acc(2) by simp
qed simp

lemma poll_take_in:
  "in_step w st \<Longrightarrow> served_by w v bs \<Longrightarrow> fold (poll v blobSize) bs st = fold (take_in v blobSize) (events bs) st"
proof (induction bs arbitrary: st)
  case (Cons b bs)
  have es: "\<forall>e \<in> set (snd b). OriginSite e = fst b \<and> acceptable w v e"
    using Cons.prems(2) by (cases b) (auto simp: served_by_def)
  have "in_step w (fold (take_in v blobSize) (snd b) st)"
    using stream.inv_fold[of w st "snd b" v blobSize] Cons.prems(1) es by blast
  moreover have "served_by w v bs" using Cons.prems(2) by (simp add: served_by_def)
  ultimately have "fold (poll v blobSize) bs (fold (take_in v blobSize) (snd b) st) =
      fold (take_in v blobSize) (events bs) (fold (take_in v blobSize) (snd b) st)"
    by (rule Cons.IH)
  moreover have "poll v blobSize b st = fold (take_in v blobSize) (snd b) st"
    using ApplyBatch_take_in[OF Cons.prems(1) es] by (simp add: poll_def)
  ultimately show ?case by (simp add: events_def)
qed (simp add: events_def)

lemma poll_view:
  assumes "in_step w st" and "served_by w v bs"
  shows "view w (fold (poll v blobSize) bs st) = fold (\<lambda>e. learn (fact_of (mutable_path w) e)) (events bs) (view w st)"
    and "in_step w (fold (poll v blobSize) bs st)"
proof -
  have acc: "\<forall>e \<in> set (events bs). acceptable w v e" using assms(2) by (fastforce simp: served_by_def events_def)
  show "view w (fold (poll v blobSize) bs st) = fold (\<lambda>e. learn (fact_of (mutable_path w) e)) (events bs) (view w st)"
    using stream.view_fold[OF assms(1) acc] poll_take_in[OF assms] by simp
  show "in_step w (fold (poll v blobSize) bs st)"
    using stream.inv_fold[OF assms(1) acc] poll_take_in[OF assms] by simp
qed

subsection \<open>What a site shows\<close>

definition served :: "db \<Rightarrow> path_key \<Rightarrow> string option" where
  "served s k = map_option HSHA256 (hosted_manifests s k)"

definition withheld :: "db \<Rightarrow> string \<times> string \<times> string \<Rightarrow> bool" where
  "withheld s k = (case quarantine s k of None \<Rightarrow> False | Some q \<Rightarrow> \<not> QReleased q)"

lemma observed_empty: "undecided_in w s \<Longrightarrow> \<not> mutable_path w k \<Longrightarrow> observed s k = {} \<longleftrightarrow> hosted_manifests s k = None"
  by (auto simp: undecided_def conflicts_ok_def observed_def row_digests_def conflict_digests_def split: option.splits)

lemma served_view:
  assumes "undecided_in w s"
  shows "served s k = (let f = facts_of (mutable_path w) s in
     if mutable_path w k then map_option (\<lambda>p. digest (snd p)) (pointers f k)
     else if seen_digests f k = {} then None else Some (Min (seen_digests f k)))"
proof (cases "hosted_manifests s k")
  case None
  then show ?thesis using observed_empty[OF assms, of k]
    by (simp add: served_def facts_of_def pointer_of_def Let_def)
next
  case (Some r)
  have "\<not> mutable_path w k \<longrightarrow> HSHA256 r = Min (observed s k)"
    using assms Some unfolding undecided_def rows_ok_def by blast
  then show ?thesis using Some observed_empty[OF assms, of k]
    by (simp add: served_def facts_of_def pointer_of_def Let_def)
qed

lemma conflict_iff_two_digests:
  assumes u: "undecided_in w s" and imm: "\<not> mutable_path w k"
  shows "(\<exists>c \<in> set (publish_conflicts s). conflict_key c = k) \<longleftrightarrow> card (observed s k) \<ge> 2"
proof
  assume "\<exists>c \<in> set (publish_conflicts s). conflict_key c = k"
  then obtain c where c: "c \<in> set (publish_conflicts s)" "conflict_key c = k" by blast
  then have "SSHA256 (CWinner c) \<noteq> SSHA256 (CLoser c)" using u by (auto simp: undecided_def conflicts_ok_def)
  moreover have "{SSHA256 (CWinner c), SSHA256 (CLoser c)} \<subseteq> observed s k"
    using c by (auto simp: observed_def conflict_digests_def)
  ultimately show "card (observed s k) \<ge> 2"
    using card_mono[OF observed_finite, of "{SSHA256 (CWinner c), SSHA256 (CLoser c)}" s k] by simp
next
  assume two: "card (observed s k) \<ge> 2"
  show "\<exists>c \<in> set (publish_conflicts s). conflict_key c = k"
  proof (rule ccontr)
    assume "\<not> ?thesis"
    then have "observed s k = row_digests s k" by (auto simp: observed_def conflict_digests_def)
    then have "card (observed s k) \<le> 1" by (simp add: row_digests_def split: option.splits)
    then show False using two by simp
  qed
qed

lemma withheld_view:
  assumes u: "undecided_in w s"
  shows "withheld s (f, co, r) = (let v = facts_of (mutable_path w) s in
     if r = conflict_reason
     then \<exists>p. \<not> mutable_path w (f, p) \<and> coordinate_of w (f, p) = co \<and> card (seen_digests v (f, p)) \<ge> 2
     else (case registers v (f, co, r) of None \<Rightarrow> False | Some d \<Rightarrow> snd d))"
proof (cases "r = conflict_reason")
  case True
  have "withheld s (f, co, r) \<longleftrightarrow> (\<exists>c \<in> set (publish_conflicts s). CFeed c = f \<and> CCoordinate c = co)"
    using u True by (auto simp: withheld_def undecided_def blocks_ok_def conflict_blocked_def)
  also have "\<dots> \<longleftrightarrow> (\<exists>p. \<not> mutable_path w (f, p) \<and> coordinate_of w (f, p) = co \<and>
      (\<exists>c \<in> set (publish_conflicts s). conflict_key c = (f, p)))"
    using u unfolding undecided_def conflicts_ok_def conflict_key_def by auto
  also have "\<dots> \<longleftrightarrow> (\<exists>p. \<not> mutable_path w (f, p) \<and> coordinate_of w (f, p) = co \<and> card (observed s (f, p)) \<ge> 2)"
    using conflict_iff_two_digests[OF u] by blast
  finally show ?thesis using True by (auto simp: facts_of_def Let_def)
next
  case False
  then show ?thesis by (auto simp: withheld_def facts_of_def register_of_def Let_def split: option.splits)
qed

lemma fold_learn_seen:
  "seen_digests (fold (\<lambda>e. learn (fact_of mp e)) es f) k = seen_digests f k \<union>
     {j_sha256 (Payload e) | e. e \<in> set es \<and> EKind e = KindManifestPut \<and> put_key e = k \<and> \<not> mp k}"
  by (induction es arbitrary: f) (auto simp: fact_of_def Let_def)

lemma fold_learn_pointers:
  "mp k \<Longrightarrow> pointers (fold (\<lambda>e. learn (fact_of mp e)) es f) k =
     fold (max_step (\<lambda>e. (EHLC e, Rev (j_sha256 (Payload e)))))
       (filter (\<lambda>e. EKind e = KindManifestPut \<and> put_key e = k) es) (pointers f k)"
proof (induction es arbitrary: f)
  case (Cons e es)
  have "pointers (learn (fact_of mp e) f) k =
      (if EKind e = KindManifestPut \<and> put_key e = k then max_step (\<lambda>e. (EHLC e, Rev (j_sha256 (Payload e)))) e (pointers f k)
       else pointers f k)"
    using Cons.prems by (auto simp: fact_of_def Let_def max_step_def split: option.splits)
  then show ?case using Cons by simp
qed simp

definition pull ::
  "env \<Rightarrow> (string \<Rightarrow> int) \<Rightarrow> (string \<times> journal_entry list) list \<Rightarrow> string set \<times> site_state \<Rightarrow> db" where
  "pull v blobSize bs st = sdb (snd (fold (poll v blobSize) bs st))"

lemma pull_facts:
  assumes "in_step w st" and "served_by w v bs"
  shows "facts_of (mutable_path w) (pull v blobSize bs st) =
           fold (\<lambda>e. learn (fact_of (mutable_path w) e)) (events bs) (view w st)"
    and "undecided_in w (pull v blobSize bs st)"
  using poll_view[OF assms, of blobSize] by (simp_all add: view_def pull_def in_step_def)

definition no_facts :: facts where
  "no_facts = \<lparr>seen_digests = (\<lambda>_. {}), pointers = (\<lambda>_. None), registers = (\<lambda>_. None), revoked = {}\<rparr>"

definition published :: "journal_entry list \<Rightarrow> path_key \<Rightarrow> journal_entry list" where
  "published es k = filter (\<lambda>e. EKind e = KindManifestPut \<and> put_key e = k) es"

definition sha_of :: "journal_entry \<Rightarrow> string" where
  "sha_of e = j_sha256 (Payload e)"


text \<open>Two sites, two publishers of one immutable path, and a third site that knows nothing yet.\<close>

definition example_put :: "string \<Rightarrow> int \<Rightarrow> bool \<Rightarrow> char \<Rightarrow> journal_entry" where
  "example_put site wall mutable d = \<lparr>OriginSite = site, OriginSeq = 1, EKind = KindManifestPut,
     Payload = zero_payload\<lparr>j_feed := ''npm'', j_path := ''p'', j_coordinate := ''p@1'',
       j_sha256 := replicate 64 d, j_mutable := mutable\<rparr>,
     EHLC = HLC wall 0, SchemaVersion = 1\<rparr>"

definition example_world :: "bool \<Rightarrow> world" where
  "example_world mutable = \<lparr>mutable_path = (\<lambda>_. mutable), coordinate_of = (\<lambda>_. ''p@1''), hashes = {},
     event_at = (\<lambda>origin seq. if origin = ''ams'' then example_put ''ams'' 5 mutable CHR ''a''
                             else example_put ''ber'' 7 mutable CHR ''b'')\<rparr>"

definition example_env :: env where
  "example_env = \<lparr>ESite = ''cph'', EMaxSkew = 300000000000, ENow = 0, EEager = (\<lambda>_. False), EBlobs = True,
     EEnsure = (\<lambda>_ _ _. False), EProject = True\<rparr>"

definition empty_db :: db where
  "empty_db = \<lparr>clock = \<lparr>wall_ms = 0, logical = 0, last_seq = 0\<rparr>, hosted_manifests = (\<lambda>_. None), quarantine = (\<lambda>_. None),
     publish_conflicts = [], conflict_resolutions = (\<lambda>_. None), tokens = [], repl_journal = [], repl_parked = [],
     repl_cursors = (\<lambda>_. None), repl_peer_identity = (\<lambda>_. None), site_identity = None\<rparr>"

definition fresh_site :: "string set \<times> site_state" where
  "fresh_site = ({}, \<lparr>sdb = empty_db, sblobs = {}, sprojected = []\<rparr>)"

definition example_batches :: "bool \<Rightarrow> (string \<times> journal_entry list) list" where
  "example_batches mutable = [(''ams'', [example_put ''ams'' 5 mutable CHR ''a'']), (''ber'', [example_put ''ber'' 7 mutable CHR ''b''])]"

lemma fresh_in_step: "in_step w fresh_site" "view w fresh_site = no_facts"
  by (auto simp: in_step_def view_def fresh_site_def empty_db_def no_facts_def facts_of_def fun_eq_iff observed_def
      row_digests_def conflict_digests_def pointer_of_def register_of_def revoked_hashes_def undecided_defs
      conflict_blocked_def)

lemma example_served_by: "served_by (example_world m) example_env (example_batches m)"
  by (simp add: served_by_def example_batches_def acceptable_def well_formed_def example_world_def example_put_def
      put_key_def example_env_def zero_payload_def hlc_fits_def skew_of_def wrap64_def kind_defs)


text \<open>
  C2: Rule K1.  A site that starts empty and pulls any batches serves, at an immutable path, the
  smallest digest among those published for it; and as soon as two different digests were published,
  the coordinate is withheld as a cross-site conflict.
\<close>

theorem smallest_digest_wins:
  assumes "in_step w st" "view w st = no_facts" "served_by w v bs" "\<not> mutable_path w (feed, path)"
  defines "D \<equiv> sha_of ` set (published (events bs) (feed, path))"
  shows "served (pull v blobSize bs st) (feed, path) = (if D = {} then None else Some (Min D)) \<and>
    (card D \<ge> 2 \<longrightarrow> withheld (pull v blobSize bs st) (feed, coordinate_of w (feed, path), conflict_reason))"
proof -
  note p = pull_facts[OF assms(1,3), of blobSize]
  have D: "seen_digests (facts_of (mutable_path w) (pull v blobSize bs st)) (feed, path) = D"
    using assms(2,4) unfolding p(1) fold_learn_seen D_def published_def sha_of_def by (auto simp: no_facts_def)
  show ?thesis
    using assms(4) D by (auto simp: served_view[OF p(2)] withheld_view[OF p(2)] Let_def)
qed

theorem smallest_digest_wins_witness:
  "served (pull example_env (\<lambda>_. 0) (example_batches False) fresh_site) (''npm'', ''p'') = Some (replicate 64 CHR ''a'') \<and>
   withheld (pull example_env (\<lambda>_. 0) (example_batches False) fresh_site) (''npm'', ''p@1'', conflict_reason)"
proof -
  have sha: "sha_of ` set (published (events (example_batches False)) (''npm'', ''p'')) = {replicate 64 CHR ''a'', replicate 64 CHR ''b''}"
    by (simp add: published_def events_def example_batches_def example_put_def put_key_def zero_payload_def sha_of_def)
  have lt: "replicate 64 CHR ''a'' < replicate 64 CHR ''b''" by code_simp
  show ?thesis
    using smallest_digest_wins[OF fresh_in_step example_served_by[of False], of "''npm''" "''p''" "\<lambda>_. 0"] lt unfolding sha
    by (simp add: example_world_def min_def less_imp_le replicate_eq_replicate)
qed

text \<open>
  Last writer wins.  A site that starts empty and pulls any batches serves, at a mutable path
  that was published at least once, the digest of the publication with the greatest clock stamp, and
  of the smallest digest among equal stamps.
\<close>

theorem newest_pointer_wins:
  assumes "in_step w st" "view w st = no_facts" "served_by w v bs" "mutable_path w k"
    and "published (events bs) k \<noteq> []"
  shows "served (pull v blobSize bs st) k =
    Some (digest (snd (Max ((\<lambda>e. (EHLC e, Rev (sha_of e))) ` set (published (events bs) k)))))"
proof -
  note p = pull_facts[OF assms(1,3), of blobSize]
  have "pointers (facts_of (mutable_path w) (pull v blobSize bs st)) k =
      fold (max_step (\<lambda>e. (EHLC e, Rev (sha_of e)))) (published (events bs) k) None"
    using assms(2,4) unfolding p(1) published_def sha_of_def by (simp add: fold_learn_pointers no_facts_def)
  then show ?thesis
    using assms(4,5) by (simp add: served_view[OF p(2)] fold_max_step)
qed

theorem newest_pointer_wins_witness:
  "served (pull example_env (\<lambda>_. 0) (example_batches True) fresh_site) (''npm'', ''p'') = Some (replicate 64 CHR ''b'')"
proof -
  have pub: "published (events (example_batches True)) (''npm'', ''p'') =
      [example_put ''ams'' 5 True CHR ''a'', example_put ''ber'' 7 True CHR ''b'']"
    by (simp add: published_def events_def example_batches_def example_put_def put_key_def zero_payload_def)
  show ?thesis
    using newest_pointer_wins[OF fresh_in_step example_served_by[of True], of "(''npm'', ''p'')" "\<lambda>_. 0"] unfolding pub
    by (simp add: example_world_def example_put_def max_def less_eq_prod_def sha_of_def less_hlc_def)
qed

end
