(* ===== verification/Repl_Safety.thy ===== *)
theory Repl_Safety
  imports Repl_Convergence
begin

text \<open>
  What the applier keeps for every stream a peer may send, well formed or not.  A relation between
  the store before and after that is reflexive, transitive and kept by the single statements is kept
  by whole batches and retries: this is the locale \<open>applier_keeps\<close>.  It is interpreted for sticky
  token revocations, for the register of operator decisions, for decided coordinates, and for the
  clock that stays ahead of the journal.
\<close>

subsection \<open>From single statements to streams\<close>

locale applier_keeps =
  fixes keeps :: "db \<Rightarrow> db \<Rightarrow> bool"
  assumes keeps_refl: "keeps s s"
    and keeps_trans: "keeps s s' \<Longrightarrow> keeps s' s'' \<Longrightarrow> keeps s s''"
    and keeps_receive: "keeps s (s\<lparr>clock := repl_hlc_recv (EHLC e) (clock s)\<rparr>)"
    and keeps_foreign: "keeps s (s\<lparr>clock := repl_hlc_recv (EHLC e) (clock s), repl_journal := repl_journal s @ [(e, now)]\<rparr>)"
    and keeps_parked: "keeps s (s\<lparr>repl_parked := ps\<rparr>)"
    and keeps_dispatch:
      "dispatch v blobSize peer e blobs (s, touched, pending) = Inr ((s', touched', pending'), blobs') \<Longrightarrow> keeps s s'"
begin

lemma keeps_ApplyForeignJournal: "keeps s (snd (ApplyForeignJournal now e s))"
  using keeps_receive keeps_foreign by (simp add: ApplyForeignJournal_def Let_def)

lemma keeps_park: "keeps (sdb st) (sdb (park e reason st))"
  using keeps_parked by (simp add: park_def ParkEvent_def)

lemma keeps_Unpark: "keeps s (UnparkEvent origin seq s)"
  using keeps_parked by (simp add: UnparkEvent_def)

lemma keeps_applyOne:
  assumes "applyOne v blobSize peer e (touched, st) = (err, touched', st')"
  shows "keeps (sdb st) (sdb st')"
proof (cases "skew_of v e > EMaxSkew v")
  case True
  then show ?thesis using assms keeps_park by (auto simp: applyOne_def)
next
  case skew: False
  show ?thesis
  proof (cases "prefetchBlob v peer e (sblobs st)")
    case (Inl reason)
    then show ?thesis using assms skew keeps_park by (auto simp: applyOne_def)
  next
    case (Inr blobs)
    obtain fresh s where f: "ApplyForeignJournal (ENow v) e (sdb st) = (fresh, s)" by force
    then have ks: "keeps (sdb st) s" using keeps_ApplyForeignJournal[of "sdb st" "ENow v" e] by simp
    note here = assms skew Inr f applyOne_def
    consider (again) "\<not> fresh"
      | (error) err' where fresh "dispatch v blobSize peer e blobs (s, touched, []) = Inl err'"
      | (ok) s' t' p' b' where fresh "dispatch v blobSize peer e blobs (s, touched, []) = Inr ((s', t', p'), b')"
      by (cases "dispatch v blobSize peer e blobs (s, touched, [])") (auto simp: split_paired_all)
    then show ?thesis
    proof cases
      case again
      then show ?thesis using here ks by (auto simp: Let_def)
    next
      case error
      then show ?thesis using here keeps_park[of "st\<lparr>sblobs := blobs\<rparr>"] keeps_refl
        by (cases err') (auto simp: Let_def)
    next
      case ok
      then show ?thesis using here keeps_trans[OF ks keeps_dispatch[OF ok(2)]]
        by (auto simp: Let_def flushProjections_def)
    qed
  qed
qed

lemma keeps_ApplyBatch: "keeps (sdb (snd st)) (sdb (snd (snd (ApplyBatch v blobSize peer es st))))"
proof (induction es arbitrary: st)
  case Nil
  then show ?case by (simp add: keeps_refl)
next
  case (Cons e es)
  obtain touched s0 where st: "st = (touched, s0)" by (cases st)
  obtain err touched' s1 where one: "applyOne v blobSize peer e (touched, s0) = (err, touched', s1)"
    by (metis prod.collapse)
  note k = keeps_applyOne[OF one]
  have "keeps (sdb s0) (sdb (snd (snd (ApplyBatch v blobSize peer es (touched', s1)))))"
    using keeps_trans[OF k] Cons.IH[of "(touched', s1)"] by simp
  then show ?case
    using Cons.IH[of "(touched, s0)"] k keeps_refl by (cases err) (simp_all add: st one)
qed

lemma keeps_retry_events: "keeps (sdb st) (sdb (snd (snd (retry_events v blobSize peer es (touched, st)))))"
proof (induction es arbitrary: touched st)
  case Nil
  then show ?case by (simp add: keeps_refl)
next
  case (Cons e es)
  show ?case
  proof (cases "prefetchBlob v peer e (sblobs st)")
    case (Inl r)
    then show ?thesis using Cons.IH by simp
  next
    case (Inr blobs)
    let ?s = "snd (ApplyForeignJournal (ENow v) e (sdb st))"
    consider (parked) r where "dispatch v blobSize peer e blobs (?s, touched, []) = Inl (Park r)"
      | (failed) m where "dispatch v blobSize peer e blobs (?s, touched, []) = Inl (Fail m)"
      | (ok) s' t' p' b' where "dispatch v blobSize peer e blobs (?s, touched, []) = Inr ((s', t', p'), b')"
      by (cases "dispatch v blobSize peer e blobs (?s, touched, [])") (auto simp: split_paired_all elim: apply_error.exhaust)
    then show ?thesis
    proof cases
      case parked
      then show ?thesis using Inr Cons.IH[of "st\<lparr>sblobs := blobs\<rparr>"] by (simp add: Let_def)
    next
      case failed
      then show ?thesis using Inr keeps_refl by (simp add: Let_def)
    next
      case ok
      let ?st = "flushProjections v p' (st\<lparr>sdb := s', sblobs := b'\<rparr>)"
      have "keeps (sdb st) (UnparkEvent (OriginSite e) (OriginSeq e) s')"
        by (rule keeps_trans[OF keeps_ApplyForeignJournal keeps_trans[OF keeps_dispatch[OF ok] keeps_Unpark]])
      moreover have "sdb ?st = s'" by (simp add: flushProjections_def)
      ultimately show ?thesis
        using Inr ok keeps_trans[OF _ Cons.IH[of "?st\<lparr>sdb := UnparkEvent (OriginSite e) (OriginSeq e) (sdb ?st)\<rparr>"]]
        by (simp add: Let_def)
    qed
  qed
qed

lemma keeps_RetryParked: "keeps (sdb st) (sdb (snd (snd (RetryParked v blobSize budget peer st))))"
  unfolding RetryParked_def by (rule keeps_retry_events)

end

subsection \<open>What one event can do to the store\<close>

lemma applyManifestPut_cases:
  assumes "applyManifestPut v blobs e (s, touched, pending) = Inr (s', touched', pending')"
  obtains (decided) p d where "unmarshal_manifest_put (Payload e) = Some p" "storedResolution (Feed p) (MPath p) s = Some d"
      "s' = fst (put_resolved p e d (s, touched, pending))"
    | (first) p where "storedResolution (Feed p) (MPath p) s = None" "hosted_manifests s (Feed p, MPath p) = None" "s' = insertHosted p e s"
    | (moved) p r where "storedResolution (Feed p) (MPath p) s = None" "hosted_manifests s (Feed p, MPath p) = Some r"
        "Mutable p" "HMutable r" "s' = updateHosted p e s"
    | (conflict) p r where "storedResolution (Feed p) (MPath p) s = None" "hosted_manifests s (Feed p, MPath p) = Some r"
        "HSHA256 r \<noteq> SHA256 p" "s' = snd (put_conflict p e r s)"
    | (same) "s' = s"
proof -
  obtain p where p: "unmarshal_manifest_put (Payload e) = Some p"
    using assms by (auto simp: applyManifestPut_def split: option.splits)
  note here = assms[unfolded applyManifestPut_def p prod.case option.case Let_def hostedState_def]
  show ?thesis
  proof (cases "storedResolution (Feed p) (MPath p) s")
    case (Some d)
    then have "(s', touched', pending') = put_resolved p e d (s, touched, pending)" using here by (auto split: if_splits)
    then show ?thesis using decided[OF p Some] by (metis fst_conv)
  next
    case none: None
    show ?thesis
    proof (cases "hosted_manifests s (Feed p, MPath p)")
      case None
      then show ?thesis using here none first[OF none] by (auto split: if_splits)
    next
      case (Some r)
      note here' = here[unfolded none Some option.case]
      show ?thesis
      proof (cases "Mutable p \<and> HMutable r")
        case True
        then show ?thesis using here' moved[OF none Some] same
          by (auto split: if_splits option.splits bool.splits)
      next
        case False
        then show ?thesis using here' conflict[OF none Some] same by (auto split: if_splits prod.splits)
      qed
    qed
  qed
qed

lemma dispatch_cases:
  assumes "dispatch v blobSize peer e blobs (s, touched, pending) = Inr ((s', touched', pending'), blobs')"
  obtains (put) "applyManifestPut v blobs e (s, touched, pending) = Inr (s', touched', pending')"
    | (resolve) "applyConflictResolve blobSize e (s, touched, pending) = Inr (s', touched', pending')"
    | (revoke) h where "revoke_hash h s = Some s'"
    | (setq) f c r d h where "s' = quarantineTx f c r d h s"
    | (release) f c r h where "s' = releaseQuarantineTx f c r h s"
    | (same) "s' = s"
proof -
  note d = assms[unfolded dispatch_def on_db_def prod.case]
  consider "EKind e = KindManifestPut" | "EKind e = KindBlobAvailable" | "EKind e = KindTokenRevoke" | "EKind e = KindQuarantineSet"
    | "EKind e = KindQuarantineRelease" | "EKind e = KindConflictResolve"
    using d by (auto split: if_splits)
  then show ?thesis
  proof cases
    case 1
    then show ?thesis using d put by (auto split: sum.splits)
  next
    case 2
    then show ?thesis using d same by (auto simp: kind_defs split: sum.splits)
  next
    case 3
    then have "applyTokenRevoke e s = Inr s'" using d by (auto simp: kind_defs split: sum.splits)
    then show ?thesis using revoke by (auto simp: applyTokenRevoke_def split: if_splits option.splits)
  next
    case 4
    then have "applyQuarantineSet e s = Inr s'" using d by (auto simp: kind_defs split: sum.splits)
    then show ?thesis using setq by (auto simp: applyQuarantineSet_def Let_def split: if_splits)
  next
    case 5
    then have "applyQuarantineRelease e s = Inr s'" using d by (auto simp: kind_defs split: sum.splits)
    then show ?thesis using release by (auto simp: applyQuarantineRelease_def Let_def split: if_splits)
  next
    case 6
    then show ?thesis using d resolve by (auto simp: kind_defs split: sum.splits)
  qed
qed

lemma recordResolution_recorded: "conflict_resolutions (recordResolution f p c d opr site s) (f, p) \<noteq> None"
  by (auto simp: recordResolution_def Let_def split: option.splits)

lemma applyConflictResolve_cases:
  assumes "applyConflictResolve blobSize e (s, touched, pending) = Inr (s', touched', pending')"
  obtains f p c d opr site where
    "s' = applyResolutionTx f p c (the (storedResolution f p (recordResolution f p c d opr site s))) site
            (recordResolution f p c d opr site s)"
    "conflict_resolutions (recordResolution f p c d opr site s) (f, p) \<noteq> None"
proof -
  let ?p = "Payload e"
  obtain side where side: "conflictSide blobSize (j_feed ?p) (j_path ?p) (j_keep_sha256 ?p) s = Some side"
    using assms by (auto simp: applyConflictResolve_def Let_def split: if_splits option.splits)
  let ?d = "\<lparr>KeepSHA = SSHA256 side, RSize = SSize side, RChecksums = SChecksums side, RMetadata = SMetadata side, RHLC = EHLC e\<rparr>"
  let ?s = "recordResolution (j_feed ?p) (j_path ?p) (j_coordinate ?p) ?d (j_operator ?p) (OriginSite e) s"
  have some: "conflict_resolutions ?s (j_feed ?p, j_path ?p) \<noteq> None" by (rule recordResolution_recorded)
  then obtain r where r: "storedResolution (j_feed ?p) (j_path ?p) ?s = Some r" by (auto simp: storedResolution_def)
  have "s' = applyResolutionTx (j_feed ?p) (j_path ?p) (j_coordinate ?p) r (OriginSite e) ?s"
    using assms side r by (auto simp: applyConflictResolve_def Let_def split: if_splits)
  then show ?thesis using that[of "j_feed ?p" "j_path ?p" "j_coordinate ?p" ?d "j_operator ?p" "OriginSite e"] some r by simp
qed

subsection \<open>Revocations are sticky\<close>

definition revocations_kept :: "db \<Rightarrow> db \<Rightarrow> bool" where
  "revocations_kept s s' \<longleftrightarrow> revoked_hashes s \<subseteq> revoked_hashes s'"

lemma put_resolved_other:
  "tokens (fst (put_resolved p e d (s, touched, pending))) = tokens s"
  "conflict_resolutions (fst (put_resolved p e d (s, touched, pending))) = conflict_resolutions s"
  "k \<noteq> (Feed p, MPath p) \<Longrightarrow> hosted_manifests (fst (put_resolved p e d (s, touched, pending))) k = hosted_manifests s k"
  by (auto simp: put_resolved_def applyResolutionTx_def recordResolvedConflictTx_def sync_other Let_def split: option.splits)

lemma applyResolutionTx_other:
  "tokens (applyResolutionTx f p c d site s) = tokens s"
  "conflict_resolutions (applyResolutionTx f p c d site s) = conflict_resolutions s"
  "k \<noteq> (f, p) \<Longrightarrow> hosted_manifests (applyResolutionTx f p c d site s) k = hosted_manifests s k"
  by (auto simp: applyResolutionTx_def sync_other Let_def split: option.splits)

lemma recordResolution_other:
  "tokens (recordResolution f p c d opr site s) = tokens s"
  "hosted_manifests (recordResolution f p c d opr site s) = hosted_manifests s"
  "publish_conflicts (recordResolution f p c d opr site s) = publish_conflicts s"
  "k \<noteq> (f, p) \<Longrightarrow> conflict_resolutions (recordResolution f p c d opr site s) k = conflict_resolutions s k"
  by (auto simp: recordResolution_def Let_def split: option.splits)

lemma quarantine_other:
  "tokens (quarantineTx f c r d h s) = tokens s" "tokens (releaseQuarantineTx f c r h s) = tokens s"
  "conflict_resolutions (quarantineTx f c r d h s) = conflict_resolutions s"
  "conflict_resolutions (releaseQuarantineTx f c r h s) = conflict_resolutions s"
  "hosted_manifests (quarantineTx f c r d h s) = hosted_manifests s"
  "hosted_manifests (releaseQuarantineTx f c r h s) = hosted_manifests s"
  "publish_conflicts (quarantineTx f c r d h s) = publish_conflicts s"
  "publish_conflicts (releaseQuarantineTx f c r h s) = publish_conflicts s"
  by (auto simp: quarantineTx_def releaseQuarantineTx_def split: option.splits)

lemma revoke_other:
  assumes "revoke_hash h s = Some s'"
  shows "conflict_resolutions s' = conflict_resolutions s" "hosted_manifests s' = hosted_manifests s"
    "publish_conflicts s' = publish_conflicts s"
  using assms by (auto simp: revoke_hash_def split: if_splits)

lemma dispatch_tokens:
  assumes "dispatch v blobSize peer e blobs (s, touched, pending) = Inr ((s', touched', pending'), blobs')"
  shows "tokens s' = tokens s \<or> (\<exists>h. revoke_hash h s = Some s')"
  using assms
proof (cases rule: dispatch_cases)
  case put
  then show ?thesis
    by (cases rule: applyManifestPut_cases)
      (auto simp: put_resolved_other merge_other put_conflict_other(3)[OF surjective_pairing])
next
  case resolve
  then show ?thesis
    by (cases rule: applyConflictResolve_cases) (simp add: applyResolutionTx_other recordResolution_other)
qed (auto simp: quarantine_other)

interpretation sticky: applier_keeps revocations_kept
proof unfold_locales
  fix v blobSize peer e blobs s touched pending s' touched' pending' blobs'
  assume "dispatch v blobSize peer e blobs (s, touched, pending) = Inr ((s', touched', pending'), blobs')"
  then consider "tokens s' = tokens s" | h where "revoke_hash h s = Some s'" using dispatch_tokens by blast
  then show "revocations_kept s s'"
  proof cases
    case (2 h)
    then show ?thesis by (force simp: revoke_hash_def revocations_kept_def revoked_hashes_def split: if_splits)
  qed (simp add: revocations_kept_def revoked_hashes_def)
qed (auto simp: revocations_kept_def revoked_hashes_def)

subsection \<open>Decisions\<close>

definition rank_of :: "resolution_row \<Rightarrow> hlc \<times> string" where
  "rank_of d = (RHLC d, KeepSHA d)"

definition decisions_grow :: "db \<Rightarrow> db \<Rightarrow> bool" where
  "decisions_grow s s' \<longleftrightarrow> (\<forall>k a. conflict_resolutions s k = Some a \<longrightarrow>
     (\<exists>b. conflict_resolutions s' k = Some b \<and> rank_of a \<le> rank_of b))"

lemma decisions_grow_cong: "conflict_resolutions s' = conflict_resolutions s'' \<Longrightarrow> decisions_grow s s'' \<Longrightarrow> decisions_grow s s'"
  by (simp add: decisions_grow_def)

lemma recordResolution_grows: "decisions_grow s (recordResolution f p c d opr site s)"
  unfolding decisions_grow_def
proof (intro allI impI)
  fix k a assume a: "conflict_resolutions s k = Some a"
  show "\<exists>b. conflict_resolutions (recordResolution f p c d opr site s) k = Some b \<and> rank_of a \<le> rank_of b"
  proof (cases "k = (f, p)")
    case True
    then show ?thesis using a
      by (auto simp: recordResolution_def Let_def rank_of_def resolution.defs resolution_row.defs)
  next
    case False
    then show ?thesis using a by (simp add: recordResolution_other)
  qed
qed

lemma dispatch_decisions:
  assumes "dispatch v blobSize peer e blobs (s, touched, pending) = Inr ((s', touched', pending'), blobs')"
  shows "conflict_resolutions s' = conflict_resolutions s \<or>
    (\<exists>f p c d opr site. conflict_resolutions s' = conflict_resolutions (recordResolution f p c d opr site s))"
  using assms
proof (cases rule: dispatch_cases)
  case put
  then show ?thesis
    by (cases rule: applyManifestPut_cases)
      (auto simp: put_resolved_other merge_other put_conflict_other(5)[OF surjective_pairing])
next
  case resolve
  then show ?thesis
    by (cases rule: applyConflictResolve_cases) (metis applyResolutionTx_other(2))
qed (auto simp: quarantine_other revoke_other)

interpretation decisions: applier_keeps decisions_grow
proof unfold_locales
  fix s s' s'' assume "decisions_grow s s'" "decisions_grow s' s''"
  then show "decisions_grow s s''" unfolding decisions_grow_def by (meson order_trans)
next
  fix v blobSize peer e blobs s touched pending s' touched' pending' blobs'
  assume "dispatch v blobSize peer e blobs (s, touched, pending) = Inr ((s', touched', pending'), blobs')"
  from dispatch_decisions[OF this] show "decisions_grow s s'"
    by (elim disjE exE)
      (erule decisions_grow_cong, simp add: decisions_grow_def, erule decisions_grow_cong, rule recordResolution_grows)
qed (auto simp: decisions_grow_def)

text \<open>A decided path serves the digest the operator kept and has no open conflict.\<close>

definition decided_ok :: "db \<Rightarrow> bool" where
  "decided_ok s \<longleftrightarrow> (\<forall>k d. conflict_resolutions s k = Some d \<longrightarrow>
     served s k = Some (KeepSHA d) \<and> (\<forall>c \<in> set (publish_conflicts s). conflict_key c = k \<longrightarrow> CResolved c \<noteq> None))"

definition stays_decided :: "db \<Rightarrow> db \<Rightarrow> bool" where
  "stays_decided s s' \<longleftrightarrow> (decided_ok s \<longrightarrow> decided_ok s')"

text \<open>An event about \<open>k\<close> leaves other paths alone; if \<open>k\<close> is decided afterwards, it serves the kept digest.\<close>

lemma stays_decidedI:
  assumes other: "\<And>k'. k' \<noteq> k \<Longrightarrow> hosted_manifests s' k' = hosted_manifests s k' \<and>
      conflict_resolutions s' k' = conflict_resolutions s k' \<and>
      (\<forall>c \<in> set (publish_conflicts s'). conflict_key c = k' \<longrightarrow> CResolved c = None \<longrightarrow> c \<in> set (publish_conflicts s))"
    and this_key: "\<And>d. conflict_resolutions s' k = Some d \<Longrightarrow> served s' k = Some (KeepSHA d) \<and>
      (\<forall>c \<in> set (publish_conflicts s'). conflict_key c = k \<longrightarrow> CResolved c \<noteq> None)"
  shows "stays_decided s s'"
  unfolding stays_decided_def decided_ok_def
proof (intro impI allI)
  fix k' d
  assume s: "\<forall>k d. conflict_resolutions s k = Some d \<longrightarrow>
     served s k = Some (KeepSHA d) \<and> (\<forall>c \<in> set (publish_conflicts s). conflict_key c = k \<longrightarrow> CResolved c \<noteq> None)"
    and d: "conflict_resolutions s' k' = Some d"
  show "served s' k' = Some (KeepSHA d) \<and> (\<forall>c \<in> set (publish_conflicts s'). conflict_key c = k' \<longrightarrow> CResolved c \<noteq> None)"
  proof (cases "k' = k")
    case True
    then show ?thesis using this_key d by simp
  next
    case False
    then have "conflict_resolutions s k' = Some d" using other d by simp
    then have "served s k' = Some (KeepSHA d)" "\<forall>c \<in> set (publish_conflicts s). conflict_key c = k' \<longrightarrow> CResolved c \<noteq> None"
      using s by blast+
    then show ?thesis using other[OF False] by (auto simp: served_def)
  qed
qed

lemma stays_decided_same:
  "\<lbrakk>hosted_manifests s' = hosted_manifests s; conflict_resolutions s' = conflict_resolutions s;
    publish_conflicts s' = publish_conflicts s\<rbrakk> \<Longrightarrow> stays_decided s s'"
  by (simp add: stays_decided_def decided_ok_def served_def)

lemma applyResolutionTx_conflicts:
  "publish_conflicts (applyResolutionTx f p c d site s) = close_conflicts f p (KeepSHA d) (publish_conflicts s)"
  by (simp add: applyResolutionTx_def sync_other Let_def)

lemma close_conflicts_closed:
  assumes "cr \<in> set (close_conflicts f p keep cs)"
  shows "conflict_key cr = (f, p) \<Longrightarrow> CResolved cr \<noteq> None" and "conflict_key cr \<noteq> (f, p) \<Longrightarrow> cr \<in> set cs"
proof -
  obtain c where c: "c \<in> set cs"
      "cr = (if CFeed c = f \<and> CPath c = p \<and> CResolved c = None then c\<lparr>CResolved := Some keep\<rparr> else c)"
    using assms by (auto simp: close_conflicts_def)
  show "conflict_key cr = (f, p) \<Longrightarrow> CResolved cr \<noteq> None" using c(2) by (simp add: conflict_key_def split: if_splits)
  show "conflict_key cr \<noteq> (f, p) \<Longrightarrow> cr \<in> set cs" using c by (cases "CFeed c = f \<and> CPath c = p") (auto simp: conflict_key_def)
qed

lemma applyResolutionTx_serves: "served (applyResolutionTx f p c d site s) (f, p) = Some (KeepSHA d)"
  by (simp add: applyResolutionTx_def sync_other served_def Let_def split: option.split)

lemma applyResolutionTx_closes:
  assumes "cr \<in> set (publish_conflicts (applyResolutionTx f p c d site s))"
  shows "conflict_key cr = (f, p) \<Longrightarrow> CResolved cr \<noteq> None" and "conflict_key cr \<noteq> (f, p) \<Longrightarrow> cr \<in> set (publish_conflicts s)"
  using close_conflicts_closed[of cr] assms unfolding applyResolutionTx_conflicts by blast+

lemmas applyResolutionTx_decides = applyResolutionTx_serves applyResolutionTx_closes

lemma applyResolutionTx_stays_decided:
  assumes r: "conflict_resolutions s1 (f, p) = Some row" "KeepSHA row = KeepSHA d"
    and h: "hosted_manifests s1 = hosted_manifests s"
    and o: "\<And>k. k \<noteq> (f, p) \<Longrightarrow> conflict_resolutions s1 k = conflict_resolutions s k"
    and cs: "\<And>cr. cr \<in> set (publish_conflicts s1) \<Longrightarrow> conflict_key cr \<noteq> (f, p) \<Longrightarrow> cr \<in> set (publish_conflicts s)"
  shows "stays_decided s (applyResolutionTx f p c d site s1)" (is "stays_decided s ?s")
proof (rule stays_decidedI[where k = "(f, p)"])
  fix k assume k: "k \<noteq> (f, p)"
  then have "\<forall>cr \<in> set (publish_conflicts ?s). conflict_key cr = k \<longrightarrow> cr \<in> set (publish_conflicts s)"
    using cs applyResolutionTx_decides(3) by blast
  then show "hosted_manifests ?s k = hosted_manifests s k \<and> conflict_resolutions ?s k = conflict_resolutions s k \<and>
      (\<forall>cr \<in> set (publish_conflicts ?s). conflict_key cr = k \<longrightarrow> CResolved cr = None \<longrightarrow> cr \<in> set (publish_conflicts s))"
    using k h o by (simp add: applyResolutionTx_other)
next
  fix d' assume "conflict_resolutions ?s (f, p) = Some d'"
  then have "KeepSHA d' = KeepSHA d" using r by (simp add: applyResolutionTx_other)
  then show "served ?s (f, p) = Some (KeepSHA d') \<and>
      (\<forall>cr \<in> set (publish_conflicts ?s). conflict_key cr = (f, p) \<longrightarrow> CResolved cr \<noteq> None)"
    using applyResolutionTx_decides(1,2) by metis
qed

lemma KeepSHA_truncate [simp]: "KeepSHA (resolution.truncate r) = KeepSHA r"
  by (simp add: resolution.truncate_def)

lemma put_resolved_stays_decided:
  assumes "storedResolution (Feed p) (MPath p) s = Some d"
  shows "stays_decided s (fst (put_resolved p e d (s, touched, pending)))"
proof -
  define s1 where "s1 = (if SHA256 p \<noteq> KeepSHA d then
      syncConflictQuarantineTx (Feed p) (Coord p) (recordResolvedConflictTx p
        \<lparr>SSHA256 = KeepSHA d, SSize = RSize d, SChecksums = RChecksums d, SMetadata = RMetadata d\<rparr>
        (incoming_side p) (OriginSite e) s) else s)"
  have s': "fst (put_resolved p e d (s, touched, pending)) = applyResolutionTx (Feed p) (MPath p) (Coord p) d (OriginSite e) s1"
    by (simp add: put_resolved_def s1_def Let_def)
  have h: "hosted_manifests s1 = hosted_manifests s" and r: "conflict_resolutions s1 = conflict_resolutions s"
    by (simp_all add: s1_def sync_other recordResolvedConflictTx_def)
  have c: "c \<in> set (publish_conflicts s)" if "c \<in> set (publish_conflicts s1)" "conflict_key c \<noteq> (Feed p, MPath p)" for c
    using that by (auto simp: s1_def sync_other recordResolvedConflictTx_def conflict_key_def split: if_splits)
  obtain row where "conflict_resolutions s1 (Feed p, MPath p) = Some row" "KeepSHA row = KeepSHA d"
    using assms r by (auto simp: storedResolution_def)
  then show ?thesis unfolding s' by (rule applyResolutionTx_stays_decided) (auto simp: h r intro: c)
qed

lemma resolve_stays_decided:
  assumes "conflict_resolutions s (f, p) = Some r"
    and same: "hosted_manifests s = hosted_manifests s0" "publish_conflicts s = publish_conflicts s0"
      "\<And>k. k \<noteq> (f, p) \<Longrightarrow> conflict_resolutions s k = conflict_resolutions s0 k"
  shows "stays_decided s0 (applyResolutionTx f p c (the (storedResolution f p s)) site s)"
  by (rule applyResolutionTx_stays_decided[OF assms(1)]) (simp_all add: storedResolution_def assms)

lemma undecided_stays:
  assumes none: "storedResolution f p s = None" and r: "conflict_resolutions s' = conflict_resolutions s"
    and h: "\<And>k. k \<noteq> (f, p) \<Longrightarrow> hosted_manifests s' k = hosted_manifests s k"
    and c: "\<And>cr. cr \<in> set (publish_conflicts s') \<Longrightarrow> cr \<in> set (publish_conflicts s) \<or> conflict_key cr = (f, p)"
  shows "stays_decided s s'"
proof (rule stays_decidedI[where k = "(f, p)"])
  fix k assume k: "k \<noteq> (f, p)"
  then have "\<forall>cr \<in> set (publish_conflicts s'). conflict_key cr = k \<longrightarrow> cr \<in> set (publish_conflicts s)" using c by blast
  then show "hosted_manifests s' k = hosted_manifests s k \<and> conflict_resolutions s' k = conflict_resolutions s k \<and>
      (\<forall>cr \<in> set (publish_conflicts s'). conflict_key cr = k \<longrightarrow> CResolved cr = None \<longrightarrow> cr \<in> set (publish_conflicts s))"
    using h[OF k] r by simp
qed (use none r in \<open>simp add: storedResolution_def\<close>)

lemma put_conflict_conflicts:
  "cr \<in> set (publish_conflicts (snd (put_conflict p e r s))) \<Longrightarrow>
   cr \<in> set (publish_conflicts s) \<or> conflict_key cr = (Feed p, MPath p)"
  by (auto simp: put_conflict_def Let_def merge_other recordConflictTx_def conflict_key_def split: if_splits)

interpretation decided: applier_keeps stays_decided
proof unfold_locales
  fix v blobSize peer e blobs s touched pending s' touched' pending' blobs'
  assume "dispatch v blobSize peer e blobs (s, touched, pending) = Inr ((s', touched', pending'), blobs')"
  then show "stays_decided s s'"
  proof (cases rule: dispatch_cases)
    case put
    then show ?thesis
    proof (cases rule: applyManifestPut_cases)
      case (decided p d)
      then show ?thesis using put_resolved_stays_decided by simp
    next
      case (conflict p r)
      show ?thesis
        unfolding conflict(4)
        by (rule undecided_stays[OF conflict(1)])
          (erule put_conflict_other[OF surjective_pairing] put_conflict_conflicts
            | rule put_conflict_other[OF surjective_pairing])+
    next
      case (first p)
      show ?thesis unfolding first(3) by (rule undecided_stays[OF first(1)]) (simp_all add: merge_other)
    next
      case (moved p r)
      show ?thesis unfolding moved(5) by (rule undecided_stays[OF moved(1)]) (simp_all add: merge_other)
    qed (auto intro: stays_decided_same)
  next
    case resolve
    then obtain f p c d opr site r where
        s': "s' = applyResolutionTx f p c (the (storedResolution f p (recordResolution f p c d opr site s))) site
              (recordResolution f p c d opr site s)"
      and r: "conflict_resolutions (recordResolution f p c d opr site s) (f, p) = Some r"
      by (rule applyConflictResolve_cases) blast
    show ?thesis unfolding s'
      by (rule resolve_stays_decided[OF r]) (simp_all add: recordResolution_other)
  qed (auto simp: quarantine_other revoke_other intro!: stays_decided_same)
qed ((rule stays_decided_same; simp) | simp add: stays_decided_def)+

subsection \<open>The clock stays ahead of the journal\<close>

definition clock_ahead :: "db \<Rightarrow> bool" where
  "clock_ahead s \<longleftrightarrow> (\<forall>(e, t) \<in> set (repl_journal s). EHLC e \<le> reading (clock s))"

definition stays_ahead :: "db \<Rightarrow> db \<Rightarrow> bool" where
  "stays_ahead s s' \<longleftrightarrow> (clock_ahead s \<longrightarrow> clock_ahead s')"

lemma sync_clock: "clock (syncConflictQuarantineTx f co s) = clock s"
  by (simp add: syncConflictQuarantineTx_def Let_def split: option.splits)

lemma applyResolutionTx_journal:
  "repl_journal (applyResolutionTx f p c d site s) = repl_journal s" "clock (applyResolutionTx f p c d site s) = clock s"
  by (simp_all add: applyResolutionTx_def sync_other sync_clock Let_def)

lemma dispatch_journal:
  assumes "dispatch v blobSize peer e blobs (s, touched, pending) = Inr ((s', touched', pending'), blobs')"
  shows "repl_journal s' = repl_journal s \<and> clock s' = clock s"
  using assms
proof (cases rule: dispatch_cases)
  case put
  then show ?thesis
    by (cases rule: applyManifestPut_cases)
      (auto simp: put_resolved_def applyResolutionTx_journal recordResolvedConflictTx_def insertHosted_def updateHosted_def
        put_conflict_def recordConflictTx_def sync_other sync_clock Let_def split: option.splits)
next
  case resolve
  then show ?thesis
    by (cases rule: applyConflictResolve_cases)
      (auto simp: applyResolutionTx_journal recordResolution_def Let_def split: option.splits)
qed (auto simp: quarantineTx_def releaseQuarantineTx_def revoke_hash_def split: option.splits if_splits)

interpretation ahead: applier_keeps stays_ahead
proof unfold_locales
  fix s :: db and e :: journal_entry and now
  have "reading (clock s) \<le> reading (repl_hlc_recv (EHLC e) (clock s))" "EHLC e \<le> reading (repl_hlc_recv (EHLC e) (clock s))"
    using recv_later by (auto simp: less_imp_le)
  then show "stays_ahead s (s\<lparr>clock := repl_hlc_recv (EHLC e) (clock s)\<rparr>)"
    "stays_ahead s (s\<lparr>clock := repl_hlc_recv (EHLC e) (clock s), repl_journal := repl_journal s @ [(e, now)]\<rparr>)"
    by (fastforce simp: stays_ahead_def clock_ahead_def)+
next
  fix v blobSize peer e blobs s touched pending s' touched' pending' blobs'
  assume "dispatch v blobSize peer e blobs (s, touched, pending) = Inr ((s', touched', pending'), blobs')"
  then show "stays_ahead s s'" using dispatch_journal by (simp add: stays_ahead_def clock_ahead_def)
qed (auto simp: stays_ahead_def clock_ahead_def)

subsection \<open>Replays and foreign journals\<close>

text \<open>What a site publishes or decides on, and the journal it serves to others.\<close>

definition content where
  "content s = (hosted_manifests s, quarantine s, publish_conflicts s, conflict_resolutions s, tokens s, repl_journal s)"

lemma applyOne_replay:
  assumes "in_journal (OriginSite e) (OriginSeq e) (sdb (snd st))"
  shows "content (sdb (snd (snd (applyOne v blobSize peer e st)))) = content (sdb (snd st))"
    and "fst (applyOne v blobSize peer e st) = None"
proof -
  obtain touched s0 where st: "st = (touched, s0)" by (cases st)
  have "in_journal (OriginSite e) (OriginSeq e) (sdb s0\<lparr>clock := c\<rparr>)" for c
    using assms by (simp add: st in_journal_def)
  then show "content (sdb (snd (snd (applyOne v blobSize peer e st)))) = content (sdb (snd st))"
    and "fst (applyOne v blobSize peer e st) = None"
    by (auto simp: st applyOne_def park_def ParkEvent_def content_def ApplyForeignJournal_def Let_def split: sum.split)
qed

lemma in_journal_content: "content s = content s' \<Longrightarrow> in_journal orig n s = in_journal orig n s'"
  by (simp add: content_def in_journal_def)

lemma applyOne_journal:
  assumes "applyOne v blobSize peer e (touched, st) = (err, touched', st')"
  shows "repl_journal (sdb st') = repl_journal (sdb st) \<or>
    (repl_journal (sdb st') = repl_journal (sdb st) @ [(e, ENow v)] \<and> \<not> in_journal (OriginSite e) (OriginSeq e) (sdb st))"
proof (cases "in_journal (OriginSite e) (OriginSeq e) (sdb st)")
  case True
  then show ?thesis using applyOne_replay(1)[of e "(touched, st)" v blobSize peer] assms by (simp add: content_def)
next
  case False
  let ?s = "sdb st\<lparr>clock := repl_hlc_recv (EHLC e) (clock (sdb st)), repl_journal := repl_journal (sdb st) @ [(e, ENow v)]\<rparr>"
  have f: "ApplyForeignJournal (ENow v) e (sdb st) = (True, ?s)"
    using False by (simp add: ApplyForeignJournal_def in_journal_def Let_def)
  show ?thesis
  proof (cases "skew_of v e > EMaxSkew v \<or> (\<exists>r. prefetchBlob v peer e (sblobs st) = Inl r)")
    case True
    then show ?thesis using assms by (auto simp: applyOne_def park_def ParkEvent_def split: if_splits)
  next
    case ok: False
    then obtain blobs where b: "prefetchBlob v peer e (sblobs st) = Inr blobs"
      by (cases "prefetchBlob v peer e (sblobs st)") auto
    show ?thesis
    proof (cases "dispatch v blobSize peer e blobs (?s, touched, [])")
      case (Inl err')
      then show ?thesis using assms ok b f
        by (cases err') (auto simp: applyOne_def park_def ParkEvent_def Let_def)
    next
      case (Inr r)
      obtain s' t' p' b' where r: "r = ((s', t', p'), b')" by (cases r) auto
      have "repl_journal s' = repl_journal (sdb st) @ [(e, ENow v)]" using dispatch_journal[OF Inr[unfolded r]] by simp
      then show ?thesis using assms ok b f Inr r False by (auto simp: applyOne_def Let_def)
    qed
  qed
qed

text \<open>
  Replays are harmless.  A batch whose entries this site has already journaled ends without an
  error and changes no artifact, quarantine, conflict, decision, token or journal entry, whatever the
  peer is and whatever the entries now contain.
\<close>

theorem replay_changes_nothing:
  assumes "\<forall>e \<in> set es. OriginSite e = peer \<and> in_journal (OriginSite e) (OriginSeq e) (sdb (snd st))"
  shows "fst (ApplyBatch v blobSize peer es st) = None \<and>
    content (sdb (snd (snd (ApplyBatch v blobSize peer es st)))) = content (sdb (snd st))"
  using assms
proof (induction es arbitrary: st)
  case (Cons e es)
  let ?one = "applyOne v blobSize peer e st"
  have j: "in_journal (OriginSite e) (OriginSeq e) (sdb (snd st))" "OriginSite e = peer" using Cons.prems by auto
  note one = applyOne_replay[OF j(1), of v blobSize peer]
  have "fst (ApplyBatch v blobSize peer es (snd ?one)) = None \<and>
      content (sdb (snd (snd (ApplyBatch v blobSize peer es (snd ?one))))) = content (sdb (snd (snd ?one)))"
    using Cons.prems in_journal_content[OF one(1)] by (intro Cons.IH) auto
  moreover have "fst (ApplyBatch v blobSize peer es st) = None \<and>
      content (sdb (snd (snd (ApplyBatch v blobSize peer es st)))) = content (sdb (snd st))"
    using Cons.prems by (intro Cons.IH) auto
  ultimately show ?case using one j(2) by (auto simp: split: prod.splits option.splits)
qed simp

text \<open>A site that already applied one publication, and the same entry again.\<close>

definition replayed_site :: "string set \<times> site_state" where
  "replayed_site = snd (ApplyBatch example_env (\<lambda>_. 0) ''ams'' [example_put ''ams'' 5 False CHR ''a''] fresh_site)"

theorem replay_changes_nothing_witness:
  "content (sdb (snd (snd (ApplyBatch example_env (\<lambda>_. 0) ''ams'' [example_put ''ams'' 5 False CHR ''b''] replayed_site)))) =
   content (sdb (snd replayed_site)) \<and> repl_journal (sdb (snd replayed_site)) \<noteq> []"
proof -
  have j: "repl_journal (sdb (snd replayed_site)) = [(example_put ''ams'' 5 False CHR ''a'', 0)]" by code_simp
  have "\<forall>e \<in> set [example_put ''ams'' 5 False CHR ''b'']. OriginSite e = ''ams'' \<and> in_journal (OriginSite e) (OriginSeq e) (sdb (snd replayed_site))"
    by (simp add: in_journal_def j example_put_def)
  from replay_changes_nothing[OF this, of example_env "\<lambda>_. 0"] j show ?thesis by simp
qed

lemma ApplyBatch_journal:
  "\<exists>new. repl_journal (sdb (snd (snd (ApplyBatch v blobSize peer es st)))) = repl_journal (sdb (snd st)) @ new \<and>
     (\<forall>(e, t) \<in> set new. e \<in> set es \<and> OriginSite e = peer \<and> OriginSite e \<noteq> ESite v)"
proof (induction es arbitrary: st)
  case (Cons e es)
  obtain touched s0 where st: "st = (touched, s0)" by (cases st)
  obtain err touched' s1 where one: "applyOne v blobSize peer e (touched, s0) = (err, touched', s1)"
    by (metis prod.collapse)
  show ?case
  proof (cases "OriginSite e = ESite v \<or> OriginSite e \<noteq> peer")
    case True
    then show ?thesis using Cons.IH[of st] by (auto simp: st)
  next
    case False
    obtain new where new: "repl_journal (sdb s1) = repl_journal (sdb s0) @ new" "set new \<subseteq> {(e, ENow v)}"
      using applyOne_journal[OF one] by auto
    obtain new' where new': "repl_journal (sdb (snd (snd (ApplyBatch v blobSize peer es (touched', s1))))) = repl_journal (sdb s1) @ new'"
        "\<forall>(e, t) \<in> set new'. e \<in> set es \<and> OriginSite e = peer \<and> OriginSite e \<noteq> ESite v"
      using Cons.IH[of "(touched', s1)"] by auto
    show ?thesis
    proof (cases err)
      case None
      then show ?thesis using False new new' one by (intro exI[of _ "new @ new'"]) (auto simp: st)
    next
      case (Some m)
      then show ?thesis using False new one by (intro exI[of _ new]) (auto simp: st)
    qed
  qed
qed simp

text \<open>
  C8: A peer speaks only for itself.  Applying a batch appends to the journal, and every entry it
  appends was sent in the batch, carries the polled peer as its origin, and is not attributed to this
  site: no peer can write another site's history.
\<close>

theorem peer_writes_only_its_own_journal:
  "\<exists>new. repl_journal (sdb (snd (snd (ApplyBatch v blobSize peer es st)))) = repl_journal (sdb (snd st)) @ new \<and>
     list_all (\<lambda>(e, t). e \<in> set es \<and> OriginSite e = peer \<and> OriginSite e \<noteq> ESite v) new"
  using ApplyBatch_journal[of v blobSize peer es st] by (simp add: list_all_iff)

text \<open>
  C9: Revocations are sticky.  A token hash that is revoked at a site stays revoked through every
  batch and every retry of parked events, whatever the peers send.
\<close>

theorem revocation_is_sticky:
  "revoked_hashes (sdb (snd st)) \<subseteq> revoked_hashes (sdb (snd (snd (ApplyBatch v blobSize peer es st)))) \<and>
   revoked_hashes (sdb (snd st)) \<subseteq> revoked_hashes (sdb (snd (snd (RetryParked v blobSize budget peer (snd st)))))"
  using sticky.keeps_ApplyBatch[of st] sticky.keeps_RetryParked[of "snd st"] by (simp add: revocations_kept_def)

text \<open>
  C10: Decisions are terminal.  Once every decided path of a site serves the digest the operator kept
  and has no open conflict, this stays so through every batch and every retry; and a recorded
  decision is only ever replaced by one with a greater stamp, or by the greater digest at equal stamps.
\<close>

theorem decision_is_terminal:
  assumes "decided_ok (sdb (snd st))"
  shows "decided_ok (sdb (snd (snd (ApplyBatch v blobSize peer es st)))) \<and>
    decided_ok (sdb (snd (snd (RetryParked v blobSize budget peer (snd st))))) \<and>
    decisions_grow (sdb (snd st)) (sdb (snd (snd (ApplyBatch v blobSize peer es st)))) \<and>
    decisions_grow (sdb (snd st)) (sdb (snd (snd (RetryParked v blobSize budget peer (snd st)))))"
  using assms decided.keeps_ApplyBatch[of st] decided.keeps_RetryParked[of "snd st"]
    decisions.keeps_ApplyBatch[of st] decisions.keeps_RetryParked[of "snd st"] by (simp add: stays_decided_def)

text \<open>A site with a conflict between two publications, on which an operator kept the larger digest.\<close>

definition example_resolve :: journal_entry where
  "example_resolve = \<lparr>OriginSite = ''ber'', OriginSeq = 2, EKind = KindConflictResolve,
     Payload = zero_payload\<lparr>j_feed := ''npm'', j_path := ''p'', j_coordinate := ''p@1'', j_keep_sha256 := replicate 64 CHR ''b''\<rparr>,
     EHLC = HLC 9 0, SchemaVersion = 1\<rparr>"

definition decided_site :: "string set \<times> site_state" where
  "decided_site = snd (ApplyBatch example_env (\<lambda>_. 0) ''ber'' [example_resolve]
     (fold (poll example_env (\<lambda>_. 0)) (example_batches False) fresh_site))"

theorem decision_is_terminal_witness:
  "decided_ok (sdb (snd (snd (ApplyBatch example_env (\<lambda>_. 0) ''ams'' [(example_put ''ams'' 20 False CHR ''a'')\<lparr>OriginSeq := 7\<rparr>] decided_site)))) \<and>
   served (sdb (snd decided_site)) (''npm'', ''p'') = Some (replicate 64 CHR ''b'')"
proof -
  have serve: "served (sdb (snd decided_site)) (''npm'', ''p'') = Some (replicate 64 CHR ''b'')" by code_simp
  have "decided_ok (sdb (snd fresh_site))" by (simp add: decided_ok_def fresh_site_def empty_db_def)
  then have "decided_ok (sdb (snd (fold (poll example_env (\<lambda>_. 0)) (example_batches False) fresh_site)))"
    using decided.keeps_ApplyBatch by (simp del: ApplyBatch.simps add: example_batches_def poll_def stays_decided_def)
  then have "decided_ok (sdb (snd decided_site))"
    using decided.keeps_ApplyBatch by (simp del: ApplyBatch.simps add: decided_site_def stays_decided_def)
  from decision_is_terminal[OF this, of example_env "\<lambda>_. 0" "''ams''"] serve show ?thesis by blast
qed

text \<open>
  Local stamps come after the journal.  If the clock is not behind any entry of the journal, it
  is not behind any after a batch, and the entry a site then writes itself carries a stamp greater
  than every stamp in its journal, with the next sequence number.
\<close>

theorem local_entry_is_last:
  assumes "clock_ahead (sdb (snd st))" and s': "s' = sdb (snd (snd (ApplyBatch v blobSize peer es st)))"
  shows "clock_ahead s' \<and> (\<forall>(e, t) \<in> set (repl_journal s'). EHLC e < EHLC (fst (AppendJournal now site kind p s'))) \<and>
    clock_ahead (snd (AppendJournal now site kind p s')) \<and>
    OriginSeq (fst (AppendJournal now site kind p s')) = last_seq (clock s') + 1"
proof -
  have ahead: "clock_ahead s'" using assms(1) ahead.keeps_ApplyBatch[of st] by (simp add: stays_ahead_def s')
  have stamp: "EHLC (fst (AppendJournal now site kind p s')) = reading (repl_hlc_next now (clock s'))"
    by (simp add: AppendJournal_def Let_def)
  have later: "\<forall>(e, t) \<in> set (repl_journal s'). EHLC e < EHLC (fst (AppendJournal now site kind p s'))"
    using ahead next_later[of "clock s'" now] unfolding stamp clock_ahead_def by fastforce
  then have "clock_ahead (snd (AppendJournal now site kind p s'))"
    by (fastforce simp: clock_ahead_def AppendJournal_def Let_def)
  with ahead later show ?thesis by (simp add: AppendJournal_def Let_def repl_hlc_next_def)
qed

theorem local_entry_is_last_witness:
  "\<exists>h. h < EHLC (fst (AppendJournal 0 ''cph'' KindManifestPut zero_payload (sdb (snd replayed_site)))) \<and> h = HLC 5 0"
proof -
  have "clock_ahead (sdb (snd fresh_site))" by (simp add: clock_ahead_def fresh_site_def empty_db_def)
  moreover have "sdb (snd replayed_site) = sdb (snd (snd (ApplyBatch example_env (\<lambda>_. 0) ''ams'' [example_put ''ams'' 5 False CHR ''a''] fresh_site)))"
    by (simp only: replayed_site_def)
  ultimately have "\<forall>(e, t) \<in> set (repl_journal (sdb (snd replayed_site))).
      EHLC e < EHLC (fst (AppendJournal 0 ''cph'' KindManifestPut zero_payload (sdb (snd replayed_site))))"
    using local_entry_is_last by blast
  moreover have "repl_journal (sdb (snd replayed_site)) = [(example_put ''ams'' 5 False CHR ''a'', 0)]" by code_simp
  ultimately show ?thesis by (simp add: example_put_def)
qed

end
