(* ===== verification/Operator_Actions.thy ===== *)
theory Operator_Actions
  imports Repl_Safety Config_Access
begin

text \<open>
  Decisions an operator makes at a site: the journal writer and \<^verbatim>\<open>ResolveConflict\<close> of
  \<^verbatim>\<open>src/core/repl/journal_writer.go\<close>, \<^verbatim>\<open>RevokeTx\<close> of \<^verbatim>\<open>src/core/auth/token.go\<close>, and the
  handlers of \<^verbatim>\<open>src/core/adminapi/operations.go\<close> with the authorization of
  \<^verbatim>\<open>src/core/adminapi/config.go\<close> in front of them.  A handler is a function from the tables to a
  status and the tables it committed; a request body that does not decode is an absent body.  Every
  statement that reads the database clock takes its own reading as an argument.
\<close>

subsection \<open>Journal writer\<close>

definition AppendManifestPut :: "int \<Rightarrow> int \<Rightarrow> string \<Rightarrow> manifest_put \<Rightarrow> db \<Rightarrow> db" where
  "AppendManifestPut now1 now2 site p s =
     (let s = snd (AppendJournal now1 site KindManifestPut (marshal_manifest_put (p\<lparr>MSite := []\<rparr>)) s)
      in snd (AppendJournal now2 site KindBlobAvailable (zero_payload\<lparr>j_sha256 := SHA256 p, j_size := Size p\<rparr>) s))"

definition AppendTokenRevoke :: "int \<Rightarrow> string \<Rightarrow> string \<Rightarrow> db \<Rightarrow> db" where
  "AppendTokenRevoke now site hash s =
     snd (AppendJournal now site KindTokenRevoke (zero_payload\<lparr>j_hash := hash\<rparr>) s)"

definition AppendQuarantineEntry :: "int \<Rightarrow> string \<Rightarrow> string \<Rightarrow> string \<Rightarrow> string \<Rightarrow> string \<Rightarrow> db \<Rightarrow> journal_entry \<times> db" where
  "AppendQuarantineEntry now site feed coordinate reason detail s =
     AppendJournal now site KindQuarantineSet
       (zero_payload\<lparr>j_feed := feed, j_coordinate := coordinate, j_reason := reason, j_detail := detail\<rparr>) s"

definition AppendQuarantineReleaseEntry :: "int \<Rightarrow> string \<Rightarrow> string \<Rightarrow> string \<Rightarrow> string \<Rightarrow> db \<Rightarrow> journal_entry \<times> db" where
  "AppendQuarantineReleaseEntry now site feed coordinate reason s =
     AppendJournal now site KindQuarantineRelease
       (zero_payload\<lparr>j_feed := feed, j_coordinate := coordinate, j_reason := reason\<rparr>) s"

definition AppendConflictResolve :: "int \<Rightarrow> string \<Rightarrow> string \<Rightarrow> string \<Rightarrow> string \<Rightarrow> string \<Rightarrow> string \<Rightarrow> db \<Rightarrow> db" where
  "AppendConflictResolve now site feed path coord keepSHA operator s =
     snd (AppendJournal now site KindConflictResolve
       (zero_payload\<lparr>j_feed := feed, j_path := path, j_coordinate := coord, j_keep_sha256 := keepSHA,
                     j_operator := operator\<rparr>) s)"

definition ApplyQuarantineDecisionTx :: "string \<Rightarrow> string \<Rightarrow> string \<Rightarrow> string \<Rightarrow> bool \<Rightarrow> hlc \<Rightarrow> db \<Rightarrow> db" where
  "ApplyQuarantineDecisionTx feed coordinate reason detail active h s =
     (if active then quarantineTx feed coordinate reason detail h s else releaseQuarantineTx feed coordinate reason h s)"

subsection \<open>Resolving a conflict\<close>

datatype resolve_error = BadDigest string | NotASide string

definition ResolveConflict ::
  "(string \<Rightarrow> int) \<Rightarrow> int \<Rightarrow> int \<Rightarrow> string \<Rightarrow> string \<Rightarrow> string \<Rightarrow> string \<Rightarrow> string \<Rightarrow> string \<Rightarrow> db \<Rightarrow>
   resolve_error + projection_write \<times> db" where
  "ResolveConflict blobSize now1 now2 site feed path coord keepSHA operator s =
     (if length keepSHA \<noteq> 64 \<or> \<not> isHex keepSHA then Inl (BadDigest keepSHA)
      else
        (case conflictSide blobSize feed path keepSHA s of
           None \<Rightarrow> Inl (NotASide keepSHA)
         | Some side \<Rightarrow>
             let c = repl_hlc_now now1 (clock s);
                 s = s\<lparr>clock := c\<rparr>;
                 decision = \<lparr>KeepSHA = SSHA256 side, RSize = SSize side, RChecksums = SChecksums side,
                             RMetadata = SMetadata side, RHLC = reading c\<rparr>;
                 s = recordResolution feed path coord decision operator site s;
                 s = applyResolutionTx feed path coord decision site s;
                 s = AppendConflictResolve now2 site feed path coord (KeepSHA decision) operator s
             in Inr (decision_write feed path decision site operator, s)))"

subsection \<open>Authorization\<close>

text \<open>
  \<^verbatim>\<open>allows\<close> and \<^verbatim>\<open>require\<close>: \<open>None\<close> lets the request through, \<open>Some\<close> is the status that answers it.
\<close>

definition allows :: "engine option \<Rightarrow> identity \<Rightarrow> string \<Rightarrow> capability \<Rightarrow> bool" where
  "allows e i path want = (case e of None \<Rightarrow> False | Some e \<Rightarrow> Allowed_d (Explain e i path want))"

definition require :: "engine option \<Rightarrow> identity \<Rightarrow> string \<Rightarrow> capability \<Rightarrow> nat option" where
  "require e i path want = (if allows e i path want then None else if IsAnonymous i then Some 401 else Some 403)"

definition requireIdentity :: "engine option \<Rightarrow> identity \<Rightarrow> string \<Rightarrow> nat option" where
  "requireIdentity e i path = require e i path CapRead"

definition requireAdmin :: "engine option \<Rightarrow> identity \<Rightarrow> nat option" where
  "requireAdmin e i = require e i ''sys/config'' CapUpdate"

subsection \<open>Handlers\<close>

record quarantine_request =
  QRFeed :: string
  QRCoordinate :: string
  QRReason :: string
  QRDetail :: string
  QRActive :: "bool option"

definition decide_quarantine :: "bool \<Rightarrow> int \<Rightarrow> string \<Rightarrow> string \<Rightarrow> string \<Rightarrow> string \<Rightarrow> string \<Rightarrow> bool \<Rightarrow> db \<Rightarrow> db" where
  "decide_quarantine replication now site feed coordinate reason detail active s =
     (let (stamp, s) =
        (if replication then
           (let (entry, s) = (if active then AppendQuarantineEntry now site feed coordinate reason detail s
                              else AppendQuarantineReleaseEntry now site feed coordinate reason s)
            in (EHLC entry, s))
         else (let c = repl_hlc_now now (clock s) in (reading c, s\<lparr>clock := c\<rparr>)))
      in ApplyQuarantineDecisionTx feed coordinate reason detail active stamp s)"

definition handleQuarantine ::
  "engine option \<Rightarrow> bool \<Rightarrow> bool \<Rightarrow> int \<Rightarrow> string \<Rightarrow> identity \<Rightarrow> quarantine_request option \<Rightarrow> db \<Rightarrow> nat \<times> db" where
  "handleQuarantine e has_db replication now site i body s =
     (case require e i ''sys/quarantine'' CapUpdate of
        Some status \<Rightarrow> (status, s)
      | None \<Rightarrow>
          if \<not> has_db then (503, s)
          else
            (case body of
               None \<Rightarrow> (400, s)
             | Some b \<Rightarrow>
                 if QRFeed b = [] \<or> QRCoordinate b = [] then (400, s)
                 else
                   let reason = (if QRReason b = [] then ''manual'' else QRReason b) in
                   if reason = ''cross_site_conflict'' then (400, s)
                   else
                     let active = (case QRActive b of None \<Rightarrow> True | Some a \<Rightarrow> a)
                     in (200, decide_quarantine replication now site (QRFeed b) (QRCoordinate b) reason (QRDetail b) active s)))"

text \<open>\<^verbatim>\<open>RevokeTx\<close>: the hash of the token, or \<open>None\<close> for a name no token has.\<close>

definition RevokeTx :: "string \<Rightarrow> db \<Rightarrow> (string \<times> db) option" where
  "RevokeTx name s =
     (case find (\<lambda>t. TName t = name) (tokens s) of
        None \<Rightarrow> None
      | Some t \<Rightarrow> Some (THash t, s\<lparr>tokens := map (\<lambda>t. if TName t = name then t\<lparr>TRevoked := True\<rparr> else t) (tokens s)\<rparr>))"

definition handleRevokeToken ::
  "engine option \<Rightarrow> bool \<Rightarrow> bool \<Rightarrow> int \<Rightarrow> string \<Rightarrow> identity \<Rightarrow> string \<Rightarrow> db \<Rightarrow> nat \<times> db" where
  "handleRevokeToken e has_db replication now site i name s =
     (case require e i ''sys/tokens'' CapDelete of
        Some status \<Rightarrow> (status, s)
      | None \<Rightarrow>
          if \<not> has_db then (503, s)
          else
            (case RevokeTx name s of
               None \<Rightarrow> (404, s)
             | Some (hash, s') \<Rightarrow> (200, if replication then AppendTokenRevoke now site hash s' else s')))"

text \<open>\<^verbatim>\<open>handleCreateToken\<close>; \<open>fresh\<close> is the hash of the secret that was drawn.\<close>

definition handleCreateToken :: "engine option \<Rightarrow> bool \<Rightarrow> identity \<Rightarrow> string \<Rightarrow> string option \<Rightarrow> db \<Rightarrow> nat \<times> db" where
  "handleCreateToken e has_db i fresh body s =
     (case require e i ''sys/tokens'' CapCreate of
        Some status \<Rightarrow> (status, s)
      | None \<Rightarrow>
          if \<not> has_db then (503, s)
          else
            (case body of
               None \<Rightarrow> (400, s)
             | Some name \<Rightarrow>
                 if name = [] then (400, s)
                 else if list_ex (\<lambda>t. TName t = name \<or> THash t = fresh) (tokens s) then (422, s)
                 else (201, s\<lparr>tokens := tokens s @ [\<lparr>TName = name, THash = fresh, TRevoked = False\<rparr>]\<rparr>)))"

record resolve_request =
  RRFeed :: string
  RRPath :: string
  RRCoordinate :: string
  RRKeepSHA :: string

text \<open>
  \<^verbatim>\<open>handleResolveConflict\<close>: the open conflicts are listed newest first, which is the reverse of
  insertion order.  The projection is rewritten after the commit; when that fails (\<open>projects\<close> is
  false) the decision stands and the caller gets the error.
\<close>

definition recover_coordinate :: "string \<Rightarrow> string \<Rightarrow> db \<Rightarrow> string" where
  "recover_coordinate feed path s =
     (case find (\<lambda>c. CFeed c = feed \<and> CPath c = path) (filter (\<lambda>c. CResolved c = None) (rev (publish_conflicts s))) of
        None \<Rightarrow> []
      | Some c \<Rightarrow> CCoordinate c)"

definition handleResolveConflict ::
  "engine option \<Rightarrow> bool \<Rightarrow> bool \<Rightarrow> (string \<Rightarrow> int) \<Rightarrow> int \<Rightarrow> int \<Rightarrow> string \<Rightarrow> identity \<Rightarrow> resolve_request option \<Rightarrow> db \<Rightarrow> nat \<times> db" where
  "handleResolveConflict e has_db projects blobSize now1 now2 site i body s =
     (case require e i ''sys/conflicts'' CapUpdate of
        Some status \<Rightarrow> (status, s)
      | None \<Rightarrow>
          if \<not> has_db then (503, s)
          else
            (case body of
               None \<Rightarrow> (400, s)
             | Some b \<Rightarrow>
                 if RRFeed b = [] \<or> RRPath b = [] \<or> length (RRKeepSHA b) \<noteq> 64 then (400, s)
                 else
                   let coordinate = (if RRCoordinate b = [] then recover_coordinate (RRFeed b) (RRPath b) s else RRCoordinate b)
                   in if coordinate = [] then (404, s)
                      else
                        (case ResolveConflict blobSize now1 now2 site (RRFeed b) (RRPath b) coordinate (RRKeepSHA b)
                                (identity_String i) s of
                           Inl _ \<Rightarrow> (422, s)
                         | Inr (_, s') \<Rightarrow> (if projects then 200 else 422, s'))))"

subsection \<open>Every change is authorized\<close>

lemma require_None: "require e i path want = None \<longleftrightarrow> allows e i path want"
  by (simp add: require_def)


text \<open>An operator with update rights on the quarantine only.\<close>

definition example_operator :: identity where
  "example_operator = \<lparr>Kind = ''token'', Subject = ''ops'', Issuer = [], ProjectPath = [], Ref = []\<rparr>"

definition example_block :: quarantine_request where
  "example_block = \<lparr>QRFeed = ''npm'', QRCoordinate = ''p@1'', QRReason = [], QRDetail = ''malware'', QRActive = None\<rparr>"

definition example_engine :: engine where
  "example_engine = projr (New [\<lparr>PolicyName = ''q'', Rules = [mk_rule ''sys/quarantine'' [CapUpdate]]\<rparr>]
     [mk_binding ''q'' (no_match\<lparr>MSubject := ''ops''\<rparr>)])"


subsection \<open>Quarantine decisions\<close>

definition last_entry :: "db \<Rightarrow> journal_entry" where
  "last_entry s = fst (last (repl_journal s))"

text \<open>
  A site orders its own quarantine decisions the way its peers will.  With replication on, an
  operator's decision appends one journal entry, and the facts of the site change exactly by the fact
  of that entry, which is what every peer that takes the entry in learns.
\<close>

theorem local_decision_matches_replicated:
  assumes "reason \<noteq> []" "reason \<noteq> conflict_reason" "undecided mp coord_of H s"
    and s'_def: "s' = decide_quarantine True now site feed coordinate reason detail active s"
  shows "facts_of mp s' = learn (fact_of mp (last_entry s')) (facts_of mp s) \<and>
    repl_journal s' = repl_journal s @ [(last_entry s', now)]"
proof -
  obtain e s1 where j: "(if active then AppendQuarantineEntry now site feed coordinate reason detail s
      else AppendQuarantineReleaseEntry now site feed coordinate reason s) = (e, s1)" by force
  then have s1: "s1 = s\<lparr>clock := repl_hlc_next now (clock s), repl_journal := repl_journal s @ [(e, now)]\<rparr>"
    by (auto simp: AppendQuarantineEntry_def AppendQuarantineReleaseEntry_def AppendJournal_def Let_def split: if_splits)
  have s': "s' = ApplyQuarantineDecisionTx feed coordinate reason detail active (EHLC e) s1"
    using j by (simp add: s'_def decide_quarantine_def)
  have fact: "fact_of mp e = Decide (feed, coordinate, reason) (EHLC e, active)"
    using j assms(1)
    by (auto simp: AppendQuarantineEntry_def AppendQuarantineReleaseEntry_def AppendJournal_def Let_def fact_of_def kind_defs
        zero_payload_def release_reason_def split: if_splits)
  have u: "undecided mp coord_of H s1" using assms(3) by (simp add: s1 undecided_frame)
  have m: "merges mp coord_of H (fact_of mp e) s1 s'"
    using quarantineTx_merges[OF u assms(2)] releaseQuarantineTx_merges[OF u assms(2)]
    by (auto simp: s' fact ApplyQuarantineDecisionTx_def)
  then have "repl_journal s' = repl_journal s @ [(e, now)]" by (simp add: merges_def s1)
  moreover have "facts_of mp s1 = facts_of mp s" by (simp add: s1 facts_of_frame)
  moreover have "facts_of mp s' = learn (fact_of mp e) (facts_of mp s1)" using m by (simp add: merges_def)
  ultimately show ?thesis by (simp add: last_entry_def)
qed

theorem local_decision_matches_replicated_witness:
  "repl_journal (decide_quarantine True 3 ''ams'' ''npm'' ''p@1'' ''manual'' ''bad'' True empty_db) \<noteq> []"
proof -
  have "undecided (\<lambda>_. False) (\<lambda>_. ''p@1'') {} empty_db"
    using fresh_in_step(1)[of "example_world False"] by (simp add: in_step_def fresh_site_def example_world_def)
  from local_decision_matches_replicated[OF _ _ this refl, of "''manual''" 3 "''ams''" "''npm''" "''p@1''" "''bad''" True]
  show ?thesis by (simp add: conflict_reason_def)
qed

subsection \<open>Resolving a conflict\<close>

text \<open>
  A resolution sticks.  When an operator's resolution is accepted and no earlier decision of this
  path carries a later stamp than the clock, the path serves the kept digest, the decision is
  recorded, every conflict of the path is closed, a well-formed store of decisions stays well formed,
  and exactly one entry is appended to the journal that names the kept digest.
\<close>

theorem resolution_sticks:
  assumes "ResolveConflict blobSize now1 now2 site feed path coord keep operator s = Inr (w, s')"
    and "\<forall>old. conflict_resolutions s (feed, path) = Some old \<longrightarrow> RHLC old \<le> reading (clock s)"
    and "decided_ok s"
  shows "served s' (feed, path) = Some keep \<and>
    map_option KeepSHA (conflict_resolutions s' (feed, path)) = Some keep \<and> decided_ok s' \<and>
    (\<exists>e. repl_journal s' = repl_journal s @ [(e, now2)] \<and> EKind e = KindConflictResolve \<and> j_keep_sha256 (Payload e) = keep)"
proof -
  obtain side where side: "conflictSide blobSize feed path keep s = Some side" and hex: "length keep = 64" "isHex keep"
    using assms(1) by (auto simp: ResolveConflict_def Let_def split: if_splits option.splits)
  have sha: "SSHA256 side = keep"
    using side by (auto simp: conflictSide_def Let_def dest: find_SomeD split: option.splits if_splits)
  define c where "c = repl_hlc_now now1 (clock s)"
  define d where "d = \<lparr>KeepSHA = keep, RSize = SSize side, RChecksums = SChecksums side, RMetadata = SMetadata side, RHLC = reading c\<rparr>"
  define s1 where "s1 = recordResolution feed path coord d operator site (s\<lparr>clock := c\<rparr>)"
  define s2 where "s2 = applyResolutionTx feed path coord d site s1"
  have s': "s' = AppendConflictResolve now2 site feed path coord keep operator s2"
    using assms(1) side hex sha by (simp add: ResolveConflict_def Let_def c_def d_def s1_def s2_def)
  obtain row where row: "conflict_resolutions s1 (feed, path) = Some row" "KeepSHA row = keep"
  proof (cases "conflict_resolutions s (feed, path)")
    case None
    then show ?thesis using that by (simp add: s1_def recordResolution_def d_def resolution.defs resolution_row.defs Let_def)
  next
    case (Some old)
    then have "RHLC old < RHLC d" using assms(2) now_later[of "clock s" now1] by (auto simp: d_def c_def)
    then show ?thesis using that Some
      by (simp add: s1_def recordResolution_def d_def resolution.defs resolution_row.defs Let_def)
  qed
  have decided: "stays_decided s s2"
    unfolding s2_def by (rule applyResolutionTx_stays_decided[OF row(1)]) (simp_all add: row d_def s1_def recordResolution_other)
  have same: "hosted_manifests s' = hosted_manifests s2" "conflict_resolutions s' = conflict_resolutions s2"
      "publish_conflicts s' = publish_conflicts s2"
    by (simp_all add: s' AppendConflictResolve_def AppendJournal_def Let_def)
  then have "served s' (feed, path) = Some keep" "decided_ok s'"
    using applyResolutionTx_serves[of feed path coord d site s1] decided assms(3) stays_decided_same[OF same]
    by (simp_all add: served_def s2_def d_def stays_decided_def)
  moreover have "map_option KeepSHA (conflict_resolutions s' (feed, path)) = Some keep"
    using row same(2) by (simp add: s2_def applyResolutionTx_other)
  moreover have "repl_journal s2 = repl_journal s"
    by (simp add: s2_def applyResolutionTx_journal s1_def recordResolution_def Let_def split: option.split)
  ultimately show ?thesis by (simp add: s' AppendConflictResolve_def AppendJournal_def Let_def zero_payload_def)
qed

definition conflicted_site :: "string set \<times> site_state" where
  "conflicted_site = fold (poll example_env (\<lambda>_. 0)) (example_batches False) fresh_site"

text \<open>The same tables at \<^verbatim>\<open>ams\<close>, whose own journal has one entry already.\<close>

definition conflicted_home :: db where
  "conflicted_home = (sdb (snd conflicted_site))\<lparr>clock := (clock (sdb (snd conflicted_site)))\<lparr>last_seq := 1\<rparr>\<rparr>"

definition example_decision :: "resolve_error + projection_write \<times> db" where
  "example_decision = ResolveConflict (\<lambda>_. 0) 10 12 ''ams'' ''npm'' ''p'' ''p@1'' (replicate 64 CHR ''a'') ''token:ops'' conflicted_home"

theorem resolution_sticks_witness:
  "served (snd (projr example_decision)) (''npm'', ''p'') = Some (replicate 64 CHR ''a'')"
proof -
  have "\<not> isl example_decision" by code_simp
  then obtain w s' where e: "example_decision = Inr (w, s')" by (metis prod.collapse sum.collapse(2))
  have none: "conflict_resolutions conflicted_home (''npm'', ''p'') = None" by code_simp
  have "decided_ok (sdb (snd fresh_site))" by (simp add: decided_ok_def fresh_site_def empty_db_def)
  then have "decided_ok (sdb (snd conflicted_site))"
    using decided.keeps_ApplyBatch
    by (simp del: ApplyBatch.simps add: conflicted_site_def example_batches_def poll_def stays_decided_def)
  then have "decided_ok conflicted_home" by (simp add: conflicted_home_def decided_ok_def served_def)
  then have "served s' (''npm'', ''p'') = Some (replicate 64 CHR ''a'')"
    using resolution_sticks[OF e[unfolded example_decision_def]] none by simp
  then show ?thesis by (simp add: e)
qed

text \<open>
  The local row of a decision is stamped by \<^verbatim>\<open>repl_hlc_now\<close>, its journal entry a moment later by
  \<^verbatim>\<open>repl_hlc_next\<close>: here 10 and 12.  Another site decides the same conflict at 11.
\<close>

definition rival_decision :: journal_entry where
  "rival_decision = example_resolve\<lparr>EHLC := HLC 11 0\<rparr>"

definition deciding_site :: "string set \<times> site_state" where
  "deciding_site = ({}, (snd conflicted_site)\<lparr>sdb := snd (projr example_decision)\<rparr>)"

definition announced_decision :: journal_entry where
  "announced_decision = last_entry (sdb (snd deciding_site))"


end
