(* ===== verification/Registry_Paths.thy ===== *)
theory Registry_Paths
  imports Registry_Prelude
begin

text \<open>
  Paths and coordinates: \<^verbatim>\<open>path.Clean\<close> of the Go library, \<^verbatim>\<open>validRemotePath\<close>
  (\<^verbatim>\<open>src/core/pipeline/pipeline.go\<close>), which every path of a stored object goes through, and the text
  form of a package coordinate (\<^verbatim>\<open>src/core/api/types.go\<close>, \<^verbatim>\<open>src/core/pipeline/publish.go\<close>).
\<close>

subsection \<open>Cleaning a path\<close>

abbreviation dot :: string where "dot \<equiv> ''.''"
abbreviation dotdot :: string where "dotdot \<equiv> ''..''"

text \<open>The elements kept so far, last first.\<close>

definition clean_step :: "bool \<Rightarrow> string \<Rightarrow> string list \<Rightarrow> string list" where
  "clean_step rooted seg out =
     (if seg = [] \<or> seg = dot then out
      else if seg = dotdot then
        (case out of
           [] \<Rightarrow> if rooted then [] else [dotdot]
         | t # below \<Rightarrow> if t = dotdot then dotdot # out else below)
      else seg # out)"

definition path_Clean :: "string \<Rightarrow> string" where
  "path_Clean p =
     (if p = [] then dot
      else
        let rooted = has_prefix p ''/'';
            body = str_join ''/'' (rev (fold (clean_step rooted) (split_on CHR ''/'' p) []))
        in if rooted then ''/'' @ body else if body = [] then dot else body)"

definition validRemotePath :: "string \<Rightarrow> bool" where
  "validRemotePath p =
     (if p = [] \<or> has_prefix p ''/'' then False
      else let clean = path_Clean p in \<not> (clean \<noteq> p \<or> clean = dot \<or> has_prefix clean ''../''))"

text \<open>An element of a path that names something below its parent.\<close>

definition plain :: "string \<Rightarrow> bool" where
  "plain seg \<longleftrightarrow> seg \<noteq> [] \<and> seg \<noteq> dot \<and> seg \<noteq> dotdot"

lemma clean_plain: "list_all plain segs \<Longrightarrow> fold (clean_step rooted) segs out = rev segs @ out"
  by (induction segs arbitrary: out) (auto simp: plain_def clean_step_def)

lemma length_clean_step: "length (clean_step rooted s out) \<le> Suc (length out)"
  by (auto simp: clean_step_def split: list.split)

lemma length_clean: "length (fold (clean_step rooted) segs out) \<le> length segs + length out"
proof (induction segs arbitrary: out)
  case (Cons s segs)
  show ?case using Cons[of "clean_step rooted s out"] length_clean_step[of rooted s out] by simp
qed simp

text \<open>When every element read was kept, each step added its element.\<close>

lemma clean_step_kept:
  assumes "length (fold (clean_step False) (s # segs) out) = length (s # segs) + length out"
  shows "clean_step False s out = s # out" "s \<noteq> []" "s \<noteq> dot" "out \<noteq> [] \<and> hd out \<noteq> dotdot \<longrightarrow> s \<noteq> dotdot"
proof -
  have "length (clean_step False s out) = Suc (length out)"
    using assms length_clean[of False segs "clean_step False s out"] length_clean_step[of False s out] by simp
  then show "clean_step False s out = s # out" "s \<noteq> []" "s \<noteq> dot" "out \<noteq> [] \<and> hd out \<noteq> dotdot \<longrightarrow> s \<noteq> dotdot"
    by (auto simp: clean_step_def split: list.splits if_splits)
qed

lemma clean_full:
  assumes "length (fold (clean_step False) segs out) = length segs + length out"
  shows "\<forall>s \<in> set segs. s \<noteq> [] \<and> s \<noteq> dot"
  using assms
proof (induction segs arbitrary: out)
  case (Cons s segs)
  note step = clean_step_kept[OF Cons.prems]
  show ?case using Cons.IH[of "s # out"] Cons.prems step by simp
qed simp

lemma clean_no_dotdot:
  assumes "length (fold (clean_step False) segs out) = length segs + length out" "out \<noteq> []" "hd out \<noteq> dotdot"
  shows "dotdot \<notin> set segs"
  using assms
proof (induction segs arbitrary: out)
  case (Cons s segs)
  note step = clean_step_kept[OF Cons.prems(1)]
  show ?case using Cons.IH[of "s # out"] Cons.prems step by simp
qed simp

lemma clean_step_subset: "set (clean_step rooted seg out) \<subseteq> insert seg (insert dotdot (set out))"
  by (cases out) (auto simp: clean_step_def)

lemma clean_subset: "set (fold (clean_step rooted) segs out) \<subseteq> insert dotdot (set segs \<union> set out)"
proof (induction segs arbitrary: out)
  case (Cons s segs)
  show ?case using Cons[of "clean_step rooted s out"] clean_step_subset[of rooted s out] by auto
qed auto

lemma split_join: "segs \<noteq> [] \<Longrightarrow> \<forall>s \<in> set segs. sep \<notin> set s \<Longrightarrow> split_on sep (str_join [sep] segs) = segs"
  by (induction "[sep]" segs rule: str_join.induct) (auto simp: split_on_word split_on_append)

lemma first_segment: "p \<noteq> [] \<Longrightarrow> has_prefix p (hd (split_on CHR ''/'' p))"
  by (metis join_split_on has_prefix_append has_prefix_refl list.exhaust_sel split_on_nonempty str_join.simps(2) str_join_Cons)

lemma first_segment_dotdot: "hd (split_on CHR ''/'' p) = dotdot \<longleftrightarrow> p = dotdot \<or> has_prefix p ''../''"
proof -
  obtain w ws where split: "split_on CHR ''/'' p = w # ws" using split_on_nonempty neq_Nil_conv by metis
  have p: "p = str_join ''/'' (w # ws)" using join_split_on[of "CHR ''/''" p] split by simp
  have sep: "CHR ''/'' \<notin> set w" using split_on_no_sep[of w "CHR ''/''" p] split by simp
  show ?thesis
  proof
    assume "hd (split_on CHR ''/'' p) = dotdot"
    then show "p = dotdot \<or> has_prefix p ''../''" using split p by (cases ws) (auto simp: str_join_Cons)
  next
    assume "p = dotdot \<or> has_prefix p ''../''"
    then show "hd (split_on CHR ''/'' p) = dotdot"
      by (auto simp: has_prefix_iff prefix_def split: list.split)
  qed
qed

text \<open>
  Which paths are accepted.  \<^verbatim>\<open>validRemotePath\<close> accepts exactly the paths whose every element names
  something below its parent (none is empty, \<^verbatim>\<open>.\<close> or \<^verbatim>\<open>..\<close>), so that an object stored under a
  feed's prefix stays under it, and one more path: \<^verbatim>\<open>..\<close> itself.
\<close>

theorem accepted_paths: "validRemotePath p \<longleftrightarrow> list_all plain (split_on CHR ''/'' p) \<or> p = dotdot"
proof -
  let ?segs = "split_on CHR ''/'' p" and ?out = "fold (clean_step False) (split_on CHR ''/'' p) []"
  have no_sep: "\<forall>s \<in> set ?segs. CHR ''/'' \<notin> set s" using split_on_no_sep by blast
  have join: "str_join ''/'' ?segs = p" by (rule join_split_on)
  show ?thesis
  proof
    assume valid: "validRemotePath p"
    then have p: "p \<noteq> []" "\<not> has_prefix p ''/''" "path_Clean p = p" "p \<noteq> dot" "\<not> has_prefix p ''../''"
      by (auto simp: validRemotePath_def Let_def split: if_splits)
    then have body: "str_join ''/'' (rev ?out) = p" by (auto simp: path_Clean_def Let_def split: if_splits)
    have "split_on (CHR ''/'') (str_join ''/'' (rev ?out)) = rev ?out"
    proof (rule split_join)
      show "rev ?out \<noteq> []" using body p(1) by (metis str_join.simps(1))
      show "\<forall>s \<in> set (rev ?out). CHR ''/'' \<notin> set s"
      proof
        fix s assume "s \<in> set (rev ?out)"
        then have "s = dotdot \<or> s \<in> set ?segs" using subsetD[OF clean_subset[of False ?segs "[]"], of s] by simp
        then show "CHR ''/'' \<notin> set s"
        proof
          assume "s = dotdot"
          then show ?thesis by simp
        next
          assume "s \<in> set ?segs"
          then show ?thesis using no_sep by (rule bspec[rotated])
        qed
      qed
    qed
    then have "rev ?out = ?segs" by (simp only: body)
    then have "length ?out = length ?segs" by (metis length_rev)
    then have full: "length (fold (clean_step False) ?segs []) = length ?segs + length ([] :: string list)" by simp
    obtain w ws where split: "?segs = w # ws" using split_on_nonempty neq_Nil_conv by metis
    show "list_all plain ?segs \<or> p = dotdot"
    proof (cases "w = dotdot")
      case True
      then show ?thesis using first_segment_dotdot[of p] split p(5) by simp
    next
      case False
      have ok: "\<forall>s \<in> set ?segs. s \<noteq> [] \<and> s \<noteq> dot" using clean_full[OF full] by blast
      have "length (fold (clean_step False) (w # ws) []) = length (w # ws) + length ([] :: string list)" using full split by simp
      then have kept: "length (fold (clean_step False) ws [w]) = length ws + length [w]" using clean_step_kept(1)[of w ws "[]"] by simp
      have "dotdot \<notin> set ws" by (rule clean_no_dotdot[OF kept]) (simp_all add: False)
      then show ?thesis using ok False split by (auto simp: list_all_iff plain_def)
    qed
  next
    assume "list_all plain ?segs \<or> p = dotdot"
    then show "validRemotePath p"
    proof
      assume plain: "list_all plain ?segs"
      obtain w ws where split: "?segs = w # ws" using split_on_nonempty neq_Nil_conv by metis
      have w: "w \<noteq> []" "w \<noteq> dot" "w \<noteq> dotdot" "CHR ''/'' \<notin> set w" using plain no_sep split by (auto simp: plain_def)
      have ne: "p \<noteq> []" using split w(1) by auto
      then have head: "has_prefix p w" "p \<noteq> []" using first_segment[OF ne] split by simp_all
      then have "\<not> has_prefix p ''/''" using w by (cases w) (auto simp: has_prefix_iff prefix_def)
      moreover have "\<not> has_prefix p ''../''" using first_segment_dotdot[of p] split w(3) by auto
      moreover have "p \<noteq> dot" using w split by (auto split: list.splits if_splits)
      moreover have "path_Clean p = p"
        using clean_plain[OF plain, of False "[]"] head(2) join calculation(1) by (simp add: path_Clean_def Let_def)
      ultimately show ?thesis using head(2) by (simp add: validRemotePath_def)
    next
      assume "p = dotdot"
      then show ?thesis by (simp only: validRemotePath_def) code_simp
    qed
  qed
qed

subsection \<open>Coordinates\<close>

record coordinate =
  Format :: string
  CName :: string
  CVersion :: string

definition coord_String :: "coordinate \<Rightarrow> string" where
  "coord_String c = (if CVersion c = [] then Format c @ '':'' @ CName c else Format c @ '':'' @ CName c @ ''@'' @ CVersion c)"

definition cut :: "string \<Rightarrow> string \<Rightarrow> string \<times> string \<times> bool" where
  "cut s sep = (case str_cut s sep of (before, after, found) \<Rightarrow> if found then (before, after, True) else (s, [], False))"

text \<open>The last occurrence of a one-character separator.\<close>

definition lastCut :: "string \<Rightarrow> char \<Rightarrow> string \<times> string \<times> bool" where
  "lastCut s sep = (case str_cut (rev s) [sep] of (after, before, found) \<Rightarrow> if found then (rev before, rev after, True) else (s, [], False))"

definition parseCoordinate :: "string \<Rightarrow> coordinate" where
  "parseCoordinate s =
     (case cut s '':'' of (format, rest, ok) \<Rightarrow>
        if \<not> ok then \<lparr>Format = [], CName = s, CVersion = []\<rparr>
        else (case lastCut rest (CHR ''@'') of (name, version, hasVersion) \<Rightarrow>
                if \<not> hasVersion then \<lparr>Format = format, CName = rest, CVersion = []\<rparr>
                else \<lparr>Format = format, CName = name, CVersion = version\<rparr>))"

lemma str_cut_at: "c \<notin> set a \<Longrightarrow> str_cut (a @ c # b) [c] = (a, b, True)"
  by (auto simp: str_cut_char takeWhile_append dropWhile_append takeWhile_eq_all_conv)

text \<open>
  A versioned coordinate survives its text form, whatever its name contains (npm scopes included);
  a coordinate without a version survives when its name has no @.
\<close>

theorem coordinate_round_trip:
  assumes "CHR '':'' \<notin> set (Format c)" "CHR ''@'' \<notin> set (CVersion c)" "CVersion c = [] \<longrightarrow> CHR ''@'' \<notin> set (CName c)"
  shows "parseCoordinate (coord_String c) = c"
proof -
  have colon: "str_cut (Format c @ CHR '':'' # r) '':'' = (Format c, r, True)" for r using assms(1) by (rule str_cut_at)
  have version: "str_cut (rev (CName c @ CHR ''@'' # CVersion c)) ''@'' = (rev (CVersion c), rev (CName c), True)"
    using str_cut_at[of "CHR ''@''" "rev (CVersion c)" "rev (CName c)"] assms(2) by simp
  have none: "\<not> snd (snd (str_cut (rev (CName c)) ''@''))" if "CVersion c = []"
    using assms(3) that by (simp add: str_cut_char)
  show ?thesis using colon version none
    by (cases c) (auto simp: parseCoordinate_def coord_String_def cut_def lastCut_def split: prod.splits)
qed

theorem coordinate_round_trip_witness:
  "parseCoordinate (coord_String \<lparr>Format = ''npm'', CName = ''@scope/p'', CVersion = ''1.0''\<rparr>) = \<lparr>Format = ''npm'', CName = ''@scope/p'', CVersion = ''1.0''\<rparr> \<and>
   CName (parseCoordinate (coord_String \<lparr>Format = ''npm'', CName = ''@scope/p'', CVersion = []\<rparr>)) = []"
  using coordinate_round_trip[of "\<lparr>Format = ''npm'', CName = ''@scope/p'', CVersion = ''1.0''\<rparr>"] by (simp, code_simp)

end
