(* ===== verification/Blob_Store.thy ===== *)
theory Blob_Store
  imports Registry_Paths
begin

text \<open>
  The blob store of \<^verbatim>\<open>src/core/api/types.go\<close> as \<^verbatim>\<open>src/modules/storage/fs/fs.go\<close> implements it: two trees
  of files under one root, \<^verbatim>\<open>data\<close> with the content and \<^verbatim>\<open>attrs\<close> with the digests, and writes that
  become visible by a rename.  Every operation takes what the operating system does to it; the digest
  function is an argument.
\<close>

subsection \<open>Trees of files\<close>

type_synonym 'v tree = "(string \<times> 'v) list"

definition write_file :: "string \<Rightarrow> 'v \<Rightarrow> 'v tree \<Rightarrow> 'v tree" where
  "write_file k v t = (k, v) # filter (\<lambda>(k', _). k' \<noteq> k) t"

definition remove_file :: "string \<Rightarrow> 'v tree \<Rightarrow> 'v tree" where
  "remove_file k t = filter (\<lambda>(k', _). k' \<noteq> k) t"

lemma map_of_filter_key: "map_of (filter (\<lambda>(k', _). k' \<noteq> k) t) x = (if x = k then None else map_of t x)"
  by (induction t) auto

lemma map_of_write_file [simp]: "map_of (write_file k v t) = (map_of t)(k \<mapsto> v)"
  by (rule ext) (simp add: write_file_def map_of_filter_key)

lemma map_of_remove_file [simp]: "map_of (remove_file k t) = (map_of t)(k := None)"
  by (rule ext) (simp add: remove_file_def map_of_filter_key)

text \<open>A path is a directory when a file lies below it; a file cannot be written where a directory is or below a file.\<close>

definition is_dir :: "string \<Rightarrow> 'v tree \<Rightarrow> bool" where
  "is_dir p t \<longleftrightarrow> list_ex (\<lambda>(k, _). has_prefix k (p @ ''/'')) t"

definition blocked :: "string \<Rightarrow> 'v tree \<Rightarrow> bool" where
  "blocked p t \<longleftrightarrow> is_dir p t \<or> list_ex (\<lambda>(k, _). has_prefix p (k @ ''/'')) t"

subsection \<open>The store\<close>

record attrs =
  ASHA256 :: string
  AContentType :: string

record fs =
  Data :: "(string \<times> int) tree"
  Attrs :: "attrs tree"

record blob_info =
  ISize :: int
  ISHA256 :: string
  IModTime :: int
  IContentType :: string

record put_opts =
  PSHA256 :: string
  PSize :: int
  PContentType :: string

datatype store_error = SNotFound | SMismatch | SOther

text \<open>What the operating system does to an operation: it succeeds, fails before anything is written, or fails at the last rename.\<close>

datatype os = Works | Fails | Fails_late

definition valid_key :: "string \<Rightarrow> bool" where
  "valid_key key \<longleftrightarrow>
     key \<noteq> [] \<and> \<not> has_prefix key ''/'' \<and> \<not> has_suffix key ''/'' \<and>
     path_Clean key = key \<and> key \<noteq> ''.'' \<and> key \<noteq> ''..'' \<and> \<not> has_prefix key ''../''"

definition store_Stat :: "os \<Rightarrow> string \<Rightarrow> fs \<Rightarrow> store_error + blob_info" where
  "store_Stat io key s =
     (if \<not> valid_key key then Inl SOther
      else if io \<noteq> Works then Inl SOther
      else (case map_of (Data s) key of
              None \<Rightarrow> Inl SNotFound
            | Some (content, modified) \<Rightarrow>
                (case (if valid_key (key @ ''.json'') then map_of (Attrs s) (key @ ''.json'') else None) of
                   None \<Rightarrow> Inr \<lparr>ISize = int (length content), ISHA256 = [], IModTime = modified, IContentType = []\<rparr>
                 | Some a \<Rightarrow> Inr \<lparr>ISize = int (length content), ISHA256 = ASHA256 a, IModTime = modified, IContentType = AContentType a\<rparr>)))"

definition store_Get :: "os \<Rightarrow> string \<Rightarrow> fs \<Rightarrow> store_error + string \<times> blob_info" where
  "store_Get io key s =
     (case store_Stat io key s of
        Inl e \<Rightarrow> Inl e
      | Inr info \<Rightarrow> (case map_of (Data s) key of None \<Rightarrow> Inl SNotFound | Some (content, _) \<Rightarrow> Inr (content, info)))"

definition write_attrs :: "os \<Rightarrow> string \<Rightarrow> attrs \<Rightarrow> fs \<Rightarrow> fs option" where
  "write_attrs io key a s =
     (if io = Fails \<or> blocked (key @ ''.json'') (Attrs s) then None
      else Some (s\<lparr>Attrs := write_file (key @ ''.json'') a (Attrs s)\<rparr>))"

definition store_Put ::
  "(string \<Rightarrow> string) \<Rightarrow> os \<Rightarrow> int \<Rightarrow> string \<Rightarrow> string \<Rightarrow> put_opts \<Rightarrow> fs \<Rightarrow> (store_error + unit) \<times> fs" where
  "store_Put sha256 io now key content opts s =
     (if \<not> valid_key key \<or> \<not> valid_key (key @ ''.json'') then (Inl SOther, s)
      else if PSize opts > 0 \<and> int (length content) \<noteq> PSize opts then (Inl SOther, s)
      else if PSHA256 opts \<noteq> [] \<and> \<not> equal_fold (PSHA256 opts) (sha256 content) then (Inl SMismatch, s)
      else (case write_attrs io key \<lparr>ASHA256 = sha256 content, AContentType = PContentType opts\<rparr> s of
              None \<Rightarrow> (Inl SOther, s)
            | Some s \<Rightarrow>
                if io = Fails_late \<or> blocked key (Data s) then (Inl SOther, s)
                else (Inr (), s\<lparr>Data := write_file key (content, now) (Data s)\<rparr>)))"

definition store_Delete :: "os \<Rightarrow> string \<Rightarrow> fs \<Rightarrow> (store_error + unit) \<times> fs" where
  "store_Delete io key s =
     (if \<not> valid_key key then (Inl SOther, s)
      else if io \<noteq> Works then (Inl SOther, s)
      else (case map_of (Data s) key of
              None \<Rightarrow> (Inl (if is_dir key (Data s) then SOther else SNotFound), s)
            | Some _ \<Rightarrow>
                (Inr (), s\<lparr>Data := remove_file key (Data s),
                           Attrs := (if valid_key (key @ ''.json'') then remove_file (key @ ''.json'') (Attrs s) else Attrs s)\<rparr>)))"

text \<open>A walk reads each directory in the order of its names, so keys come in the order of their segments.\<close>

definition store_List :: "string \<Rightarrow> fs \<Rightarrow> string list" where
  "store_List pre s = sort_key (split_on (CHR ''/'')) (filter (\<lambda>k. has_prefix k pre) (remdups (map fst (Data s))))"

lemma store_List_exact: "set (store_List pre s) = {k. has_prefix k pre \<and> k \<in> dom (map_of (Data s))} \<and> distinct (store_List pre s)"
  by (auto simp: store_List_def dom_map_of_conv_image_fst)

text \<open>The contract asks for the lexicographic order of the keys; the walk gives another one.\<close>

lemma store_List_unsorted: "\<not> sorted (store_List [] \<lparr>Data = [(''a/b'', ([], 0)), (''a-b'', ([], 0))], Attrs = []\<rparr>)"
  by code_simp

text \<open>A reader that stops after a number of bytes without saying so.\<close>

definition limit_reader :: "int \<Rightarrow> string \<Rightarrow> string" where
  "limit_reader n s = (if int (length s) \<le> n then s else take (nat n) s)"

subsection \<open>What a write does\<close>

definition content_at :: "string \<Rightarrow> fs \<Rightarrow> string option" where
  "content_at key s = map_option fst (map_of (Data s) key)"

lemma store_Put_data:
  "store_Put sha256 io now key content opts s = (r, s') \<Longrightarrow>
     Data s' = (case r of Inl _ \<Rightarrow> Data s | Inr _ \<Rightarrow> write_file key (content, now) (Data s))"
  by (auto simp: store_Put_def write_attrs_def split: if_splits option.splits)

lemma store_Put_ok:
  assumes "store_Put sha256 io now key content opts s = (Inr (), s')"
  shows "valid_key key" and "valid_key (key @ ''.json'')"
    and "PSHA256 opts \<noteq> [] \<Longrightarrow> equal_fold (PSHA256 opts) (sha256 content)"
    and "PSize opts > 0 \<Longrightarrow> int (length content) = PSize opts"
    and "map_of (Attrs s') (key @ ''.json'') = Some \<lparr>ASHA256 = sha256 content, AContentType = PContentType opts\<rparr>"
  using assms by (auto simp: store_Put_def write_attrs_def split: if_splits option.splits)

lemma content_at_Put:
  "store_Put sha256 io now key content opts s = (r, s') \<Longrightarrow>
     content_at k s' = (if r = Inr () \<and> k = key then Some content else content_at k s)"
  by (auto dest!: store_Put_data simp: content_at_def split: sum.splits)

lemma store_Get_content: "store_Get io key s = Inr (content, info) \<Longrightarrow> content_at key s = Some content"
  by (auto simp: store_Get_def content_at_def split: sum.splits option.splits)

lemma store_Get_notfound: "store_Get io key s = Inl SNotFound \<Longrightarrow> content_at key s = None"
  by (auto simp: store_Get_def store_Stat_def content_at_def split: sum.splits option.splits if_splits)

lemma store_Stat_notfound: "store_Stat io key s = Inl SNotFound \<Longrightarrow> content_at key s = None"
  by (auto simp: store_Stat_def content_at_def split: option.splits if_splits)

lemma store_Stat_found: "store_Stat io key s = Inr info \<Longrightarrow> \<exists>content. content_at key s = Some content"
  by (auto simp: store_Stat_def content_at_def split: option.splits if_splits)

text \<open>
  A write that succeeds is read back whole, with the digest and media type of what was written
  and the content checked against what the writer declared; a write that fails, at whatever point,
  leaves the content under every key as it was.
\<close>

theorem put_is_atomic:
  assumes "store_Put sha256 io now key content opts s = (r, s')"
  shows "(case r of
            Inr _ \<Rightarrow>
              store_Get Works key s' =
                Inr (content, \<lparr>ISize = int (length content), ISHA256 = sha256 content, IModTime = now, IContentType = PContentType opts\<rparr>) \<and>
              (PSHA256 opts = [] \<or> equal_fold (PSHA256 opts) (sha256 content)) \<and>
              (PSize opts \<le> 0 \<or> int (length content) = PSize opts) \<and>
              (\<forall>k. k \<noteq> key \<longrightarrow> content_at k s' = content_at k s)
          | Inl _ \<Rightarrow> (\<forall>k. content_at k s' = content_at k s))"
proof (cases r)
  case (Inl e)
  then show ?thesis using content_at_Put [OF assms] by simp
next
  case (Inr u)
  with assms have ok: "store_Put sha256 io now key content opts s = (Inr (), s')" by simp
  have d: "map_of (Data s') key = Some (content, now)" using store_Put_data [OF ok] by simp
  have "store_Get Works key s' =
      Inr (content, \<lparr>ISize = int (length content), ISHA256 = sha256 content, IModTime = now, IContentType = PContentType opts\<rparr>)"
    using store_Put_ok(1,2,5) [OF ok] d by (simp add: store_Get_def store_Stat_def)
  moreover have "PSHA256 opts = [] \<or> equal_fold (PSHA256 opts) (sha256 content)" using store_Put_ok(3) [OF ok] by blast
  moreover have "PSize opts \<le> 0 \<or> int (length content) = PSize opts" using store_Put_ok(4) [OF ok] by linarith
  ultimately show ?thesis using content_at_Put [OF ok] Inr by simp
qed

definition plain_opts :: put_opts where "plain_opts = \<lparr>PSHA256 = [], PSize = 0, PContentType = ''text/plain''\<rparr>"

definition empty_fs :: fs where "empty_fs = \<lparr>Data = [], Attrs = []\<rparr>"

text \<open>One write is read back; a write below that file, which no directory can hold, leaves it alone.\<close>

theorem put_is_atomic_witness:
  "store_Get Works ''a'' (snd (store_Put rev Works 7 ''a'' ''xy'' plain_opts empty_fs)) =
     Inr (''xy'', \<lparr>ISize = 2, ISHA256 = ''yx'', IModTime = 7, IContentType = ''text/plain''\<rparr>)"
proof -
  have "store_Put rev Works 7 ''a'' ''xy'' plain_opts empty_fs =
      (Inr (), snd (store_Put rev Works 7 ''a'' ''xy'' plain_opts empty_fs))" by code_simp
  from put_is_atomic [OF this] show ?thesis by (simp add: plain_opts_def)
qed

text \<open>
  A failed overwrite can leave the old content under the digest of the new one: the attributes are
  replaced before the content, so when the last rename fails the store reports, for content it still
  serves, a digest and a media type that are not its own.
\<close>

theorem failed_overwrite_mislabels:
  assumes "valid_key key" and "valid_key (key @ ''.json'')" and "map_of (Data s) key = Some (old, t)"
    and "\<not> blocked (key @ ''.json'') (Attrs s)" and "PSHA256 opts = []" and "PSize opts \<le> 0"
  shows "\<exists>s'. store_Put sha256 Fails_late now key content opts s = (Inl SOther, s') \<and>
           store_Get Works key s' =
             Inr (old, \<lparr>ISize = int (length old), ISHA256 = sha256 content, IModTime = t, IContentType = PContentType opts\<rparr>)"
  using assms by (simp add: store_Put_def write_attrs_def store_Get_def store_Stat_def)

text \<open>A cached index that reads as its successor's digest after a rename that did not happen.\<close>

theorem failed_overwrite_mislabels_witness:
  "\<exists>s'. store_Put rev Fails_late 9 ''a'' ''new'' plain_opts (snd (store_Put rev Works 7 ''a'' ''old'' plain_opts empty_fs)) = (Inl SOther, s') \<and>
     store_Get Works ''a'' s' = Inr (''old'', \<lparr>ISize = 3, ISHA256 = ''wen'', IModTime = 7, IContentType = ''text/plain''\<rparr>)"
proof -
  define s where "s = snd (store_Put rev Works 7 ''a'' ''old'' plain_opts empty_fs)"
  have "valid_key ''a''" "valid_key (''a'' @ ''.json'')" by code_simp+
  moreover have "map_of (Data s) ''a'' = Some (''old'', 7)" "\<not> blocked (''a'' @ ''.json'') (Attrs s)"
    unfolding s_def by code_simp+
  ultimately show ?thesis
    using failed_overwrite_mislabels [of "''a''" s "''old''" 7 plain_opts rev 9 "''new''"]
    unfolding s_def by (simp add: plain_opts_def)
qed

end
