(* ===== verification/Config_Manager.thy ===== *)
theory Config_Manager
  imports Operator_Actions Blob_Store
begin

text \<open>
  Where the configuration document lives (\<^verbatim>\<open>core/config/source.go\<close>, \<^verbatim>\<open>blobsource.go\<close>), the manager every process keeps a snapshot in
  (\<^verbatim>\<open>manager.go\<close>), and how the administration API replaces and edits the document (\<^verbatim>\<open>core/adminapi/config.go\<close>).  Parsing a
  document, which includes \<^verbatim>\<open>Config.Validate\<close>, and the further checks of the server are arguments, as is the digest function.
\<close>

subsection \<open>Sources\<close>

datatype source_error = NoDocument | VersionConflict | ReadOnlySource | SourceFailed

text \<open>
  What the operating system does to the replacement of a file.  One that cannot be read can still be replaced by a write without a condition,
  which does not read it.
\<close>

datatype file_io = Replaced | No_temporary | Not_written | Not_renamed | Unreadable

type_synonym document_file = "string option"

definition file_Read :: "(string \<Rightarrow> string) \<Rightarrow> file_io \<Rightarrow> document_file \<Rightarrow> source_error + string \<times> string" where
  "file_Read sha io f =
     (if io = Unreadable then Inl SourceFailed else case f of None \<Rightarrow> Inl NoDocument | Some raw \<Rightarrow> Inr (raw, sha raw))"

text \<open>The precondition of a write; a missing document has the empty version.\<close>

definition precondition :: "string \<Rightarrow> source_error + string \<times> string \<Rightarrow> source_error option" where
  "precondition ifMatch found =
     (if ifMatch = [] then None
      else (case found of
              Inl NoDocument \<Rightarrow> Some VersionConflict
            | Inl e \<Rightarrow> Some e
            | Inr (_, current) \<Rightarrow> if current \<noteq> ifMatch then Some VersionConflict else None))"

definition file_Write :: "(string \<Rightarrow> string) \<Rightarrow> file_io \<Rightarrow> string \<Rightarrow> string \<Rightarrow> document_file \<Rightarrow> (source_error + string) \<times> document_file" where
  "file_Write sha io raw ifMatch f =
     (case precondition ifMatch (file_Read sha io f) of
        Some e \<Rightarrow> (Inl e, f)
      | None \<Rightarrow>
          (case io of
             No_temporary \<Rightarrow> (Inl ReadOnlySource, f)
           | Not_written \<Rightarrow> (Inl SourceFailed, f)
           | Not_renamed \<Rightarrow> (Inl ReadOnlySource, f)
           | _ \<Rightarrow> (Inr (sha raw), Some raw)))"

definition ConfigObjectKey :: string where "ConfigObjectKey = ''config/registry.yaml''"

definition source_key :: "string \<Rightarrow> string" where
  "source_key key = (if key = [] then ConfigObjectKey else key)"

definition maxObject :: int where "maxObject = 8388608"

definition store_Read :: "(string \<Rightarrow> string) \<Rightarrow> string \<Rightarrow> os \<Rightarrow> fs \<Rightarrow> source_error + string \<times> string" where
  "store_Read sha key io s =
     (case store_Get io key s of
        Inl SNotFound \<Rightarrow> Inl NoDocument
      | Inl _ \<Rightarrow> Inl SourceFailed
      | Inr (raw, _) \<Rightarrow> let raw = limit_reader maxObject raw in Inr (raw, sha raw))"

text \<open>A write asks the operating system twice, for the current version and for the new content, at a time.\<close>

definition store_Write :: "(string \<Rightarrow> string) \<Rightarrow> string \<Rightarrow> os \<times> os \<times> int \<Rightarrow> string \<Rightarrow> string \<Rightarrow> fs \<Rightarrow> (source_error + string) \<times> fs" where
  "store_Write sha key io raw ifMatch s =
     (case io of (io1, io2, now) \<Rightarrow>
        case precondition ifMatch (store_Read sha key io1 s) of
          Some e \<Rightarrow> (Inl e, s)
        | None \<Rightarrow>
            (case store_Put sha io2 now key raw \<lparr>PSHA256 = [], PSize = int (length raw), PContentType = []\<rparr> s of
               (Inl _, s) \<Rightarrow> (Inl SourceFailed, s)
             | (Inr _, s) \<Rightarrow> (Inr (sha raw), s)))"

subsection \<open>The manager\<close>

record manager =
  MgVersion :: string
  MgConfig :: config

text \<open>Parsing and the server's own checks.\<close>

type_synonym loader = "string \<Rightarrow> config option"

definition checked :: "loader \<Rightarrow> (config \<Rightarrow> bool) \<Rightarrow> loader" where
  "checked parse validate raw = (case parse raw of None \<Rightarrow> None | Some c \<Rightarrow> if validate c then Some c else None)"

definition NewSourceManager :: "loader \<Rightarrow> (config \<Rightarrow> bool) \<Rightarrow> source_error + string \<times> string \<Rightarrow> manager option" where
  "NewSourceManager parse validate found =
     (case found of
        Inl _ \<Rightarrow> None
      | Inr (raw, version) \<Rightarrow> map_option (\<lambda>c. \<lparr>MgVersion = version, MgConfig = c\<rparr>) (checked parse validate raw))"

text \<open>Edits fail on the shape of the document or in the YAML package.\<close>

datatype edit_error = Not_a_mapping | Missing_section | Not_a_list | Yaml_error

datatype config_error = Rejected | Source_err source_error | No_database | No_lock | Edit_err edit_error

definition Update ::
  "loader \<Rightarrow> (config \<Rightarrow> bool) \<Rightarrow> (string \<Rightarrow> string \<Rightarrow> 's \<Rightarrow> (source_error + string) \<times> 's) \<Rightarrow> string \<Rightarrow> string \<Rightarrow> manager \<Rightarrow> 's \<Rightarrow>
   (config_error + string) \<times> manager \<times> 's" where
  "Update parse validate write raw ifMatch m s =
     (case checked parse validate raw of
        None \<Rightarrow> (Inl Rejected, m, s)
      | Some c \<Rightarrow>
          (case write raw ifMatch s of
             (Inl e, s) \<Rightarrow> (Inl (Source_err e), m, s)
           | (Inr version, s) \<Rightarrow> (Inr version, \<lparr>MgVersion = version, MgConfig = c\<rparr>, s)))"

text \<open>A reload says whether it found the document unchanged or took the new one.\<close>

definition Reload :: "loader \<Rightarrow> (config \<Rightarrow> bool) \<Rightarrow> source_error + string \<times> string \<Rightarrow> manager \<Rightarrow> bool \<times> manager" where
  "Reload parse validate found m =
     (case found of
        Inl _ \<Rightarrow> (False, m)
      | Inr (raw, version) \<Rightarrow>
          if version = MgVersion m then (True, m)
          else (case checked parse validate raw of None \<Rightarrow> (False, m) | Some c \<Rightarrow> (True, \<lparr>MgVersion = version, MgConfig = c\<rparr>)))"

subsection \<open>Writing through the API\<close>

text \<open>The lock: no database at all, a database that does not give it, or held for the whole call.\<close>

datatype lock = Without_database | Refused | Held

definition with_lock :: "lock \<Rightarrow> (config_error + string) \<times> manager \<times> 's \<Rightarrow> manager \<Rightarrow> 's \<Rightarrow> (config_error + string) \<times> manager \<times> 's" where
  "with_lock l run m s = (case l of Without_database \<Rightarrow> (Inl No_database, m, s) | Refused \<Rightarrow> (Inl No_lock, m, s) | Held \<Rightarrow> run)"

definition replaceDocument ::
  "loader \<Rightarrow> (config \<Rightarrow> bool) \<Rightarrow> (string \<Rightarrow> string \<Rightarrow> 's \<Rightarrow> (source_error + string) \<times> 's) \<Rightarrow> lock \<Rightarrow> string \<Rightarrow> string \<Rightarrow> manager \<Rightarrow> 's \<Rightarrow>
   (config_error + string) \<times> manager \<times> 's" where
  "replaceDocument parse validate write l raw ifMatch m s = with_lock l (Update parse validate write raw ifMatch m s) m s"

definition mutateDocument ::
  "loader \<Rightarrow> (config \<Rightarrow> bool) \<Rightarrow> ('s \<Rightarrow> source_error + string \<times> string) \<Rightarrow> (string \<Rightarrow> string \<Rightarrow> 's \<Rightarrow> (source_error + string) \<times> 's) \<Rightarrow>
   lock \<Rightarrow> string \<Rightarrow> (string \<Rightarrow> edit_error + string) \<Rightarrow> manager \<Rightarrow> 's \<Rightarrow> (config_error + string) \<times> manager \<times> 's" where
  "mutateDocument parse validate read write l ifMatch fn m s =
     with_lock l
       (case read s of
          Inl e \<Rightarrow> (Inl (Source_err e), m, s)
        | Inr (raw, current) \<Rightarrow>
            if ifMatch \<noteq> [] \<and> ifMatch \<noteq> current then (Inl (Source_err VersionConflict), m, s)
            else (case fn raw of Inl e \<Rightarrow> (Inl (Edit_err e), m, s) | Inr updated \<Rightarrow> Update parse validate write updated current m s))
       m s"

definition trimQuotes :: "string \<Rightarrow> string" where
  "trimQuotes v = (if 2 \<le> length v \<and> hd v = CHR 0x22 \<and> last v = CHR 0x22 then butlast (tl v) else v)"

definition trimETag :: "string \<Rightarrow> string" where
  "trimETag v = (let v = trimQuotes v in if v = ''*'' then [] else v)"

fun configStatus :: "config_error \<Rightarrow> nat" where
  "configStatus (Source_err VersionConflict) = 409"
| "configStatus (Source_err ReadOnlySource) = 409"
| "configStatus No_database = 503"
| "configStatus _ = 422"

text \<open>A body that breaks off while it is read is \<open>None\<close>; one beyond the limit is cut there.\<close>

definition maxDocument :: int where "maxDocument = 4194304"

definition handlePutConfig ::
  "loader \<Rightarrow> (config \<Rightarrow> bool) \<Rightarrow> (string \<Rightarrow> string \<Rightarrow> 's \<Rightarrow> (source_error + string) \<times> 's) \<Rightarrow> engine option \<Rightarrow> identity \<Rightarrow>
   lock \<Rightarrow> string option \<Rightarrow> string \<Rightarrow> manager \<Rightarrow> 's \<Rightarrow> nat \<times> manager \<times> 's" where
  "handlePutConfig parse validate write e i l body etag m s =
     (case requireAdmin e i of
        Some status \<Rightarrow> (status, m, s)
      | None \<Rightarrow>
          (case body of
             None \<Rightarrow> (400, m, s)
           | Some raw \<Rightarrow>
               (case replaceDocument parse validate write l (limit_reader maxDocument raw) (trimETag etag) m s of
                  (Inl err, m, s) \<Rightarrow> (configStatus err, m, s)
                | (Inr _, m, s) \<Rightarrow> (200, m, s))))"

subsection \<open>Several processes\<close>

text \<open>
  The processes of a site share the source; each has a manager once it has started.  A step is what one of them does, with the outcomes
  of the operations involved; the lock makes a write one step.
\<close>

record 's fleet =
  FtSource :: 's
  FtManagers :: "nat \<Rightarrow> manager option"

datatype ('r, 'w) config_step =
    Start nat 'r
  | Reload_at nat 'r
  | Put_at nat lock 'w string string
  | Edit_at nat lock 'r 'w string "string \<Rightarrow> edit_error + string"

text \<open>A write that was answered with its version: the condition it was sent with, and the document or the edit.\<close>

datatype acknowledged = Put_ack string string | Edit_ack string "string \<Rightarrow> edit_error + string"

definition finish ::
  "nat \<Rightarrow> acknowledged \<Rightarrow> (config_error + string) \<times> manager \<times> 's \<Rightarrow> 's fleet \<times> acknowledged list \<Rightarrow> 's fleet \<times> acknowledged list" where
  "finish i a r x =
     (case r of (res, m, s) \<Rightarrow>
        ((fst x)\<lparr>FtSource := s, FtManagers := (FtManagers (fst x))(i \<mapsto> m)\<rparr>, case res of Inl _ \<Rightarrow> snd x | Inr _ \<Rightarrow> snd x @ [a]))"

definition run_step ::
  "loader \<Rightarrow> (config \<Rightarrow> bool) \<Rightarrow> ('r \<Rightarrow> 's \<Rightarrow> source_error + string \<times> string) \<Rightarrow> ('w \<Rightarrow> string \<Rightarrow> string \<Rightarrow> 's \<Rightarrow> (source_error + string) \<times> 's) \<Rightarrow>
   ('r, 'w) config_step \<Rightarrow> 's fleet \<times> acknowledged list \<Rightarrow> 's fleet \<times> acknowledged list" where
  "run_step parse validate read write step x =
     (let f = fst x; s = FtSource f
      in case step of
           Start i r \<Rightarrow> (f\<lparr>FtManagers := (FtManagers f)(i := NewSourceManager parse validate (read r s))\<rparr>, snd x)
         | Reload_at i r \<Rightarrow>
             (f\<lparr>FtManagers := (FtManagers f)(i := map_option (\<lambda>m. snd (Reload parse validate (read r s) m)) (FtManagers f i))\<rparr>, snd x)
         | Put_at i l w raw ifMatch \<Rightarrow>
             (case FtManagers f i of None \<Rightarrow> x | Some m \<Rightarrow> finish i (Put_ack ifMatch raw) (replaceDocument parse validate (write w) l raw ifMatch m s) x)
         | Edit_at i l r w ifMatch fn \<Rightarrow>
             (case FtManagers f i of
                None \<Rightarrow> x
              | Some m \<Rightarrow> finish i (Edit_ack ifMatch fn) (mutateDocument parse validate (read r) (write w) l ifMatch fn m s) x))"

definition run_steps ::
  "loader \<Rightarrow> (config \<Rightarrow> bool) \<Rightarrow> ('r \<Rightarrow> 's \<Rightarrow> source_error + string \<times> string) \<Rightarrow> ('w \<Rightarrow> string \<Rightarrow> string \<Rightarrow> 's \<Rightarrow> (source_error + string) \<times> 's) \<Rightarrow>
   ('r, 'w) config_step list \<Rightarrow> 's \<Rightarrow> 's fleet \<times> acknowledged list" where
  "run_steps parse validate read write steps s =
     fold (run_step parse validate read write) steps (\<lparr>FtSource = s, FtManagers = (\<lambda>_. None)\<rparr>, [])"

text \<open>The specification: one document, and the acknowledged writes applied to it one after the other.\<close>

fun apply_ack :: "(string \<Rightarrow> string) \<Rightarrow> acknowledged \<Rightarrow> string option \<Rightarrow> string option option" where
  "apply_ack sha (Put_ack ifMatch raw) d = (if ifMatch = [] \<or> map_option sha d = Some ifMatch then Some (Some raw) else None)"
| "apply_ack sha (Edit_ack ifMatch fn) d =
     (case d of
        None \<Rightarrow> None
      | Some old \<Rightarrow>
          if ifMatch = [] \<or> sha old = ifMatch then (case fn old of Inl _ \<Rightarrow> None | Inr new \<Rightarrow> Some (Some new)) else None)"

definition replay :: "(string \<Rightarrow> string) \<Rightarrow> acknowledged list \<Rightarrow> string option \<Rightarrow> string option option" where
  "replay sha as d = fold (\<lambda>a r. Option.bind r (apply_ack sha a)) as (Some d)"

fun within_limit :: "('r, 'w) config_step \<Rightarrow> bool" where
  "within_limit (Put_at i l w raw ifMatch) = (int (length raw) \<le> maxObject)"
| "within_limit (Edit_at i l r w ifMatch fn) = (\<forall>raw new. fn raw = Inr new \<longrightarrow> int (length new) \<le> maxObject)"
| "within_limit _ = True"

lemma replay_snoc: "replay sha (as @ [a]) d = Option.bind (replay sha as d) (apply_ack sha a)"
  by (simp add: replay_def)

lemma run_steps_snoc: "run_steps parse validate read write (steps @ [step]) s = run_step parse validate read write step (run_steps parse validate read write steps s)"
  by (simp add: run_steps_def)

text \<open>
  The contract of a source: a read gives the document with its version; a write that succeeds replaces the document, and had its
  condition met; one that fails leaves it.
\<close>

locale config_source =
  fixes sha :: "string \<Rightarrow> string" and fetch :: "'r \<Rightarrow> 's \<Rightarrow> source_error + string \<times> string"
    and put :: "'w \<Rightarrow> string \<Rightarrow> string \<Rightarrow> 's \<Rightarrow> (source_error + string) \<times> 's" and document :: "'s \<Rightarrow> string option"
  assumes read_ok: "fetch r s = Inr (raw, v) \<Longrightarrow> document s = Some raw \<and> v = sha raw"
    and write_ok: "put w raw ifMatch s = (Inr v, s') \<Longrightarrow> int (length raw) \<le> maxObject \<Longrightarrow>
      v = sha raw \<and> document s' = Some raw \<and> (ifMatch = [] \<or> map_option sha (document s) = Some ifMatch)"
    and write_failed: "put w raw ifMatch s = (Inl e, s') \<Longrightarrow> document s' = document s"
begin

lemma Update_effect:
  assumes "Update parse validate (put w) raw ifMatch m s = (r, m', s')" and "int (length raw) \<le> maxObject"
  shows "(case r of
            Inl _ \<Rightarrow> document s' = document s \<and> m' = m
          | Inr v \<Rightarrow> v = sha raw \<and> document s' = Some raw \<and> (ifMatch = [] \<or> map_option sha (document s) = Some ifMatch) \<and>
              MgVersion m' = sha raw \<and> checked parse validate raw = Some (MgConfig m'))"
  using assms write_ok [of w raw ifMatch s] write_failed [of w raw ifMatch s]
  by (auto simp: Update_def split: option.splits sum.splits prod.splits)

lemma step_replays:
  assumes "run_step parse validate fetch put step (f, as) = (f', as')" and "within_limit step"
  shows "(as' = as \<and> document (FtSource f') = document (FtSource f)) \<or>
     (\<exists>a. as' = as @ [a] \<and> apply_ack sha a (document (FtSource f)) = Some (document (FtSource f')))"
proof (cases step)
  case (Put_at i l w raw ifMatch)
  then show ?thesis using assms
    by (auto simp: run_step_def Let_def finish_def replaceDocument_def with_lock_def split: option.splits lock.splits prod.splits sum.splits
        dest!: Update_effect)
next
  case (Edit_at i l r w ifMatch fn)
  show ?thesis
  proof (cases "FtManagers f i")
    case (Some m)
    obtain res m' s' where run: "mutateDocument parse validate (fetch r) (put w) l ifMatch fn m (FtSource f) = (res, m', s')" by (metis prod_cases3)
    have f': "FtSource f' = s'" "as' = (case res of Inl _ \<Rightarrow> as | Inr _ \<Rightarrow> as @ [Edit_ack ifMatch fn])"
      using assms(1) Edit_at Some run by (auto simp: run_step_def finish_def split: sum.splits)
    show ?thesis
    proof (cases "\<exists>raw v new. l = Held \<and> fetch r (FtSource f) = Inr (raw, v) \<and> (ifMatch = [] \<or> ifMatch = v) \<and> fn raw = Inr new")
      case True
      then obtain raw v new where c: "l = Held" "fetch r (FtSource f) = Inr (raw, v)" "ifMatch = [] \<or> ifMatch = v" "fn raw = Inr new" by blast
      have lim: "int (length new) \<le> maxObject" using assms(2) Edit_at c(4) by auto
      have "Update parse validate (put w) new v m (FtSource f) = (res, m', s')" using run c by (auto simp: mutateDocument_def with_lock_def)
      from Update_effect [OF this lim] read_ok [OF c(2)] show ?thesis using f' c by (auto split: sum.splits)
    next
      case False
      then show ?thesis using run f' by (auto simp: mutateDocument_def with_lock_def split: lock.splits sum.splits if_splits)
    qed
  qed (use assms Edit_at in \<open>auto simp: run_step_def\<close>)
qed (use assms in \<open>auto simp: run_step_def Let_def\<close>)

lemma writes_replay:
  assumes "list_all within_limit steps"
  shows "replay sha (snd (run_steps parse validate fetch put steps s)) (document s) =
    Some (document (FtSource (fst (run_steps parse validate fetch put steps s))))"
  using assms
proof (induction steps rule: rev_induct)
  case Nil
  then show ?case by (simp add: run_steps_def replay_def)
next
  case (snoc step steps)
  obtain f as where x: "run_steps parse validate fetch put steps s = (f, as)" by (metis surj_pair)
  obtain f' as' where y: "run_step parse validate fetch put step (f, as) = (f', as')" by (metis surj_pair)
  have "within_limit step" and "replay sha as (document s) = Some (document (FtSource f))" using snoc x by auto
  with step_replays [OF y] show ?case by (auto simp: run_steps_snoc x y replay_snoc)
qed

lemma Reload_effect:
  "snd (Reload parse validate (fetch r s) m) = m \<or>
   (\<exists>raw. document s = Some raw \<and> checked parse validate raw = Some (MgConfig (snd (Reload parse validate (fetch r s) m))) \<and>
      MgVersion (snd (Reload parse validate (fetch r s) m)) = sha raw)"
  using read_ok [of r s] by (cases "fetch r s") (auto simp: Reload_def split: option.splits)

lemma Reload_current:
  "fst (Reload parse validate (fetch r s) m) \<Longrightarrow> \<exists>raw. document s = Some raw \<and> MgVersion (snd (Reload parse validate (fetch r s) m)) = sha raw"
  using read_ok [of r s] by (cases "fetch r s") (auto simp: Reload_def split: option.splits if_splits)

lemma step_snapshot:
  assumes "run_step parse validate fetch put step (f, as) = (f', as')" and "within_limit step" and "FtManagers f' i = Some m"
  shows "FtManagers f i = Some m \<or>
     (\<exists>raw. document (FtSource f') = Some raw \<and> checked parse validate raw = Some (MgConfig m) \<and> MgVersion m = sha raw)"
proof (cases step)
  case (Start j r)
  then show ?thesis using assms
    by (auto simp: run_step_def Let_def NewSourceManager_def split: if_splits sum.splits prod.splits dest!: read_ok)
next
  case (Reload_at j r)
  then have f': "f' = f\<lparr>FtManagers := (FtManagers f)(j := map_option (\<lambda>m. snd (Reload parse validate (fetch r (FtSource f)) m)) (FtManagers f j))\<rparr>"
    using assms(1) by (simp add: run_step_def Let_def)
  show ?thesis
  proof (cases "i = j")
    case True
    then obtain z where "FtManagers f j = Some z" "m = snd (Reload parse validate (fetch r (FtSource f)) z)" using assms(3) f' by auto
    then show ?thesis using Reload_effect [of parse validate r "FtSource f" z] f' True by auto
  qed (use assms(3) f' in simp)
next
  case (Put_at j l w raw ifMatch)
  then show ?thesis using assms
    by (auto simp: run_step_def Let_def finish_def replaceDocument_def with_lock_def split: option.splits lock.splits prod.splits sum.splits if_splits
        dest!: Update_effect)
next
  case (Edit_at j l r w ifMatch fn)
  show ?thesis
  proof (cases "FtManagers f j")
    case (Some mj)
    obtain res m' s' where run: "mutateDocument parse validate (fetch r) (put w) l ifMatch fn mj (FtSource f) = (res, m', s')" by (metis prod_cases3)
    have f': "FtSource f' = s'" "FtManagers f' = (FtManagers f)(j \<mapsto> m')" using assms(1) Edit_at Some run by (auto simp: run_step_def finish_def)
    show ?thesis
    proof (cases "\<exists>raw v new. l = Held \<and> fetch r (FtSource f) = Inr (raw, v) \<and> (ifMatch = [] \<or> ifMatch = v) \<and> fn raw = Inr new")
      case True
      then obtain raw v new where c: "l = Held" "fetch r (FtSource f) = Inr (raw, v)" "ifMatch = [] \<or> ifMatch = v" "fn raw = Inr new" by blast
      have lim: "int (length new) \<le> maxObject" using assms(2) Edit_at c(4) by auto
      have "Update parse validate (put w) new v mj (FtSource f) = (res, m', s')" using run c by (auto simp: mutateDocument_def with_lock_def)
      from Update_effect [OF this lim] show ?thesis using f' assms(3) Some by (auto split: sum.splits if_splits)
    next
      case False
      then have "m' = mj" using run by (auto simp: mutateDocument_def with_lock_def split: lock.splits sum.splits if_splits)
      then show ?thesis using f' assms(3) Some by (auto split: if_splits)
    qed
  qed (use assms Edit_at in \<open>auto simp: run_step_def\<close>)
qed

lemma snapshot_origin:
  assumes "list_all within_limit steps" and "FtManagers (fst (run_steps parse validate fetch put steps s)) i = Some m"
  shows "\<exists>k \<le> length steps. \<exists>raw. document (FtSource (fst (run_steps parse validate fetch put (take k steps) s))) = Some raw \<and>
     checked parse validate raw = Some (MgConfig m) \<and> MgVersion m = sha raw"
  using assms
proof (induction steps rule: rev_induct)
  case Nil
  then show ?case by (simp add: run_steps_def)
next
  case (snoc step steps)
  obtain f as where x: "run_steps parse validate fetch put steps s = (f, as)" by (metis surj_pair)
  obtain f' as' where y: "run_step parse validate fetch put step (f, as) = (f', as')" by (metis surj_pair)
  have z: "run_steps parse validate fetch put (steps @ [step]) s = (f', as')" by (simp add: run_steps_snoc x y)
  from step_snapshot [OF y] snoc.prems z consider "FtManagers f i = Some m"
    | raw where "document (FtSource f') = Some raw" "checked parse validate raw = Some (MgConfig m)" "MgVersion m = sha raw" by auto
  then show ?case
  proof cases
    case 1
    then obtain k raw where "k \<le> length steps" "document (FtSource (fst (run_steps parse validate fetch put (take k steps) s))) = Some raw"
        "checked parse validate raw = Some (MgConfig m)" "MgVersion m = sha raw"
      using snoc x by auto
    then show ?thesis by (intro exI [of _ k]) auto
  next
    case 2
    then show ?thesis using z by (intro exI [of _ "Suc (length steps)"]) auto
  qed
qed

end

interpretation filed: config_source sha "file_Read sha" "file_Write sha" "\<lambda>f. f" for sha
  by unfold_locales
     (auto simp: file_Read_def file_Write_def precondition_def split: if_splits option.splits file_io.splits sum.splits source_error.splits)

definition object_document :: "string \<Rightarrow> fs \<Rightarrow> string option" where
  "object_document key s = map_option (limit_reader maxObject) (content_at key s)"

lemma store_Read_document: "store_Read sha key io s = Inr (raw, v) \<Longrightarrow> object_document key s = Some raw \<and> v = sha raw"
  by (auto simp: store_Read_def object_document_def Let_def split: sum.splits store_error.splits prod.splits dest!: store_Get_content)

lemma precondition_met: "precondition ifMatch found = None \<Longrightarrow> ifMatch = [] \<or> (\<exists>raw. found = Inr (raw, ifMatch))"
  by (auto simp: precondition_def split: if_splits sum.splits source_error.splits)

lemma store_Write_ok:
  assumes "store_Write sha key (io1, io2, now) raw ifMatch s = (Inr v, s')"
  shows "v = sha raw \<and> content_at key s' = Some raw \<and> (ifMatch = [] \<or> map_option sha (object_document key s) = Some ifMatch)"
proof -
  have p: "precondition ifMatch (store_Read sha key io1 s) = None" using assms by (simp add: store_Write_def split: option.splits)
  then have "ifMatch = [] \<or> map_option sha (object_document key s) = Some ifMatch" using precondition_met [OF p] store_Read_document by force
  moreover have "v = sha raw \<and> content_at key s' = Some raw"
    using assms p by (auto simp: store_Write_def split: prod.splits sum.splits dest!: content_at_Put [where k = key])
  ultimately show ?thesis by blast
qed

interpretation stored: config_source sha "store_Read sha key" "store_Write sha key" "object_document key" for sha key
proof unfold_locales
  show "store_Read sha key r s = Inr (raw, v) \<Longrightarrow> object_document key s = Some raw \<and> v = sha raw" for r s raw v
    by (rule store_Read_document)
  show "store_Write sha key w raw ifMatch s = (Inr v, s') \<Longrightarrow> int (length raw) \<le> maxObject \<Longrightarrow>
      v = sha raw \<and> object_document key s' = Some raw \<and> (ifMatch = [] \<or> map_option sha (object_document key s) = Some ifMatch)" for w raw ifMatch s v s'
    by (cases w) (auto dest!: store_Write_ok simp: object_document_def [of key s'] limit_reader_def)
  show "store_Write sha key w raw ifMatch s = (Inl e, s') \<Longrightarrow> object_document key s' = object_document key s" for w raw ifMatch s e s'
    by (cases w) (auto simp: store_Write_def object_document_def split: option.splits sum.splits prod.splits dest!: content_at_Put [where k = key])
qed

subsection \<open>No write is lost\<close>


text \<open>
  C30: Every process serves a valid configuration.  The snapshot of a process that has started is, at any time, one that parsed and passed
  validation, of a document that was in the store at some moment; its version is the digest of that document; and after a reload that
  succeeds it is the document stored then, where no two documents that were stored have the same digest.
\<close>

theorem config_snapshots_are_valid:
  assumes "list_all within_limit steps" and "run_steps parse validate (store_Read sha key) (store_Write sha key) steps s = (f, acks)"
    and "FtManagers f i = Some m" and "Reload parse validate (store_Read sha key io (FtSource f)) m = (ok, m')"
    and "inj_on sha {raw. \<exists>k. object_document key (FtSource (fst (run_steps parse validate (store_Read sha key) (store_Write sha key) (take k steps) s))) = Some raw}"
  shows "(\<exists>k raw. k \<le> length steps \<and>
        object_document key (FtSource (fst (run_steps parse validate (store_Read sha key) (store_Write sha key) (take k steps) s))) = Some raw \<and>
        checked parse validate raw = Some (MgConfig m) \<and> MgVersion m = sha raw) \<and>
     (ok \<longrightarrow> (\<exists>raw. object_document key (FtSource f) = Some raw \<and> checked parse validate raw = Some (MgConfig m') \<and> MgVersion m' = sha raw))"
proof (intro conjI impI)
  from stored.snapshot_origin [OF assms(1), of parse validate sha key s i m] assms(2,3)
  obtain k raw where k: "k \<le> length steps"
      "object_document key (FtSource (fst (run_steps parse validate (store_Read sha key) (store_Write sha key) (take k steps) s))) = Some raw"
      "checked parse validate raw = Some (MgConfig m)" "MgVersion m = sha raw" by auto
  then show "\<exists>k raw. k \<le> length steps \<and>
        object_document key (FtSource (fst (run_steps parse validate (store_Read sha key) (store_Write sha key) (take k steps) s))) = Some raw \<and>
        checked parse validate raw = Some (MgConfig m) \<and> MgVersion m = sha raw" by blast
  assume "ok"
  then obtain now where now: "object_document key (FtSource f) = Some now" "MgVersion m' = sha now"
    using stored.Reload_current [of parse validate sha key io "FtSource f" m] assms(4) by auto
  have "checked parse validate now = Some (MgConfig m')"
  proof (cases "m' = m")
    case True
    have same: "sha raw = sha now" using True now(2) k(4) by simp
    have "object_document key (FtSource (fst (run_steps parse validate (store_Read sha key) (store_Write sha key) (take (length steps) steps) s))) = Some now"
      using assms(2) now(1) by simp
    then have "raw = now" using inj_onD [OF assms(5) same CollectI CollectI] k(2) by blast
    then show ?thesis using True k(3) by simp
  next
    case False
    then show ?thesis using stored.Reload_effect [of parse validate sha key io "FtSource f" m] assms(4) now(1) by simp
  qed
  then show "\<exists>raw. object_document key (FtSource f) = Some raw \<and> checked parse validate raw = Some (MgConfig m') \<and> MgVersion m' = sha raw"
    using now by blast
qed

subsection \<open>An example\<close>

text \<open>A process replaces the document it started with.  Digests are the documents themselves.\<close>

definition example_loader :: loader where
  "example_loader raw = (if raw = [] then None else Some (example_config [] [raw]))"

definition example_objects :: fs where
  "example_objects = \<lparr>Data = [(''c'', (''a'', 0))], Attrs = []\<rparr>"

definition example_steps :: "(os, os \<times> os \<times> int) config_step list" where
  "example_steps = [Start 0 Works, Put_at 0 Held (Works, Works, 1) ''b'' ''a'', Put_at 0 Held (Works, Works, 2) ''d'' ''a'']"

definition example_run :: "fs fleet \<times> acknowledged list" where
  "example_run = run_steps example_loader (\<lambda>_. True) (store_Read id ''c'') (store_Write id ''c'') example_steps example_objects"

lemma example_run_facts:
  "list_all within_limit example_steps"
  "case example_run of (f, acks) \<Rightarrow> (case acks of [Put_ack ifMatch raw] \<Rightarrow> ifMatch = ''a'' \<and> raw = ''b'' | _ \<Rightarrow> False) \<and>
     FtManagers f 0 = Some \<lparr>MgVersion = ''b'', MgConfig = example_config [] [''b'']\<rparr> \<and>
     Reload example_loader (\<lambda>_. True) (store_Read id ''c'' Works (FtSource f)) \<lparr>MgVersion = ''b'', MgConfig = example_config [] [''b'']\<rparr> =
       (True, \<lparr>MgVersion = ''b'', MgConfig = example_config [] [''b'']\<rparr>)"
  by (simp add: example_steps_def maxObject_def) code_simp


theorem config_snapshots_are_valid_witness:
  "\<exists>f acks raw. example_run = (f, acks) \<and> object_document ''c'' (FtSource f) = Some raw \<and>
     checked example_loader (\<lambda>_. True) raw = Some (example_config [] [''b''])"
proof -
  obtain f acks where r: "example_run = (f, acks)" by (metis surj_pair)
  have m: "FtManagers f 0 = Some \<lparr>MgVersion = ''b'', MgConfig = example_config [] [''b'']\<rparr>"
    and l: "Reload example_loader (\<lambda>_. True) (store_Read id ''c'' Works (FtSource f)) \<lparr>MgVersion = ''b'', MgConfig = example_config [] [''b'']\<rparr> =
       (True, \<lparr>MgVersion = ''b'', MgConfig = example_config [] [''b'']\<rparr>)"
    using example_run_facts(2) [unfolded r prod.case] by blast+
  from config_snapshots_are_valid [OF example_run_facts(1) r [unfolded example_run_def] m l inj_on_id] r show ?thesis by auto
qed

end
