(* ===== verification/Config_Resources.thy ===== *)
theory Config_Resources
  imports Config_Manager
begin

text \<open>
  The resources of the administration API, \<^verbatim>\<open>core/adminapi/resources.go\<close>: edits of the parsed document, node by node, and the handlers
  for feeds, administrators, OIDC issuers, peers, access policies and bindings.  The YAML package, which turns text into nodes and back
  and renders a request's body as a node, is an argument.
\<close>

subsection \<open>Nodes\<close>

datatype yaml_kind = DocumentNode | SequenceNode | MappingNode | ScalarNode | AliasNode

text \<open>The third part stands for tag, style, anchor and comments.\<close>

datatype yaml_node = YNode (YKind: yaml_kind) (YValue: string) (YStyle: string) (YContent: "yaml_node list")

definition with_content :: "yaml_node \<Rightarrow> yaml_node list \<Rightarrow> yaml_node" where
  "with_content n c = YNode (YKind n) (YValue n) (YStyle n) c"

definition scalar :: "string \<Rightarrow> yaml_node" where "scalar v = YNode ScalarNode v [] []"

text \<open>The value after the first key of that name among keys and values in turn, and its replacement.\<close>

fun pair_value :: "string \<Rightarrow> yaml_node list \<Rightarrow> yaml_node option" where
  "pair_value key (k # v # rest) = (if YValue k = key then Some v else pair_value key rest)"
| "pair_value key _ = None"

fun pair_update :: "string \<Rightarrow> yaml_node \<Rightarrow> yaml_node list \<Rightarrow> yaml_node list" where
  "pair_update key new (k # v # rest) = (if YValue k = key then k # new # rest else k # v # pair_update key new rest)"
| "pair_update key new rest = rest"

definition documentRoot :: "yaml_node \<Rightarrow> yaml_node option" where
  "documentRoot doc =
     (case (if YKind doc = DocumentNode then (case YContent doc of [] \<Rightarrow> None | r # _ \<Rightarrow> Some r) else Some doc) of
        None \<Rightarrow> None
      | Some r \<Rightarrow> if YKind r = MappingNode then Some r else None)"

definition with_root :: "yaml_node \<Rightarrow> yaml_node \<Rightarrow> yaml_node" where
  "with_root doc r = (if YKind doc = DocumentNode then with_content doc (r # tl (YContent doc)) else r)"

definition findMapping :: "yaml_node \<Rightarrow> string \<Rightarrow> yaml_node option" where
  "findMapping doc key = (case documentRoot doc of None \<Rightarrow> None | Some r \<Rightarrow> pair_value key (YContent r))"

definition childValue :: "yaml_node \<Rightarrow> string \<Rightarrow> yaml_node option" where
  "childValue m key = (if YKind m \<noteq> MappingNode then None else pair_value key (YContent m))"

definition mappingField :: "yaml_node \<Rightarrow> string \<Rightarrow> string" where
  "mappingField n field = (case childValue n field of None \<Rightarrow> [] | Some v \<Rightarrow> YValue v)"

text \<open>A child is changed in place where it was found, and appended with its key where it was not.\<close>

definition set_child :: "yaml_node \<Rightarrow> string \<Rightarrow> yaml_node \<Rightarrow> yaml_node" where
  "set_child p key v =
     with_content p (case childValue p key of None \<Rightarrow> YContent p @ [scalar key, v] | Some _ \<Rightarrow> pair_update key v (YContent p))"

definition child_or :: "yaml_kind \<Rightarrow> yaml_node \<Rightarrow> string \<Rightarrow> yaml_node" where
  "child_or kind p key = (case childValue p key of None \<Rightarrow> YNode kind [] [] [] | Some v \<Rightarrow> v)"

subsection \<open>Edits\<close>

text \<open>An edit gives the flag its handler reports and the changed node.\<close>

type_synonym 'a edit = "edit_error + 'a \<times> yaml_node"

fun upsert_item :: "(yaml_node \<Rightarrow> bool) \<Rightarrow> yaml_node \<Rightarrow> yaml_node list \<Rightarrow> bool \<times> yaml_node list" where
  "upsert_item P node [] = (True, [node])"
| "upsert_item P node (x # xs) =
     (if P x then (False, node # xs) else case upsert_item P node xs of (created, ys) \<Rightarrow> (created, x # ys))"

fun remove_item :: "(yaml_node \<Rightarrow> bool) \<Rightarrow> yaml_node list \<Rightarrow> bool \<times> yaml_node list" where
  "remove_item P [] = (False, [])"
| "remove_item P (x # xs) = (if P x then (True, xs) else case remove_item P xs of (found, ys) \<Rightarrow> (found, x # ys))"

definition upsertSequenceItemIn :: "yaml_node \<Rightarrow> string \<Rightarrow> string \<Rightarrow> string \<Rightarrow> yaml_node option \<Rightarrow> bool edit" where
  "upsertSequenceItemIn parent key matchField matchValue value =
     (case value of
        None \<Rightarrow> Inl Yaml_error
      | Some node \<Rightarrow>
          let seq = child_or SequenceNode parent key
          in if YKind seq \<noteq> SequenceNode then Inl Not_a_list
             else (case upsert_item (\<lambda>item. mappingField item matchField = matchValue) node (YContent seq) of
                     (created, items) \<Rightarrow> Inr (created, set_child parent key (with_content seq items))))"

definition removeSequenceItemIn :: "yaml_node \<Rightarrow> string \<Rightarrow> string \<Rightarrow> string \<Rightarrow> bool edit" where
  "removeSequenceItemIn parent key matchField matchValue =
     (case childValue parent key of
        None \<Rightarrow> Inr (False, parent)
      | Some seq \<Rightarrow>
          if YKind seq \<noteq> SequenceNode then Inr (False, parent)
          else (case remove_item (\<lambda>item. mappingField item matchField = matchValue) (YContent seq) of
                  (found, items) \<Rightarrow> Inr (found, if found then set_child parent key (with_content seq items) else parent)))"

definition in_root :: "yaml_node \<Rightarrow> (yaml_node \<Rightarrow> bool edit) \<Rightarrow> bool edit" where
  "in_root doc f =
     (case documentRoot doc of
        None \<Rightarrow> Inl Not_a_mapping
      | Some r \<Rightarrow> (case f r of Inl e \<Rightarrow> Inl e | Inr (flag, r) \<Rightarrow> Inr (flag, with_root doc r)))"

definition upsertSequenceItem :: "yaml_node \<Rightarrow> string \<Rightarrow> string \<Rightarrow> string \<Rightarrow> yaml_node option \<Rightarrow> bool edit" where
  "upsertSequenceItem doc key matchField matchValue value = in_root doc (\<lambda>r. upsertSequenceItemIn r key matchField matchValue value)"

definition removeSequenceItem :: "yaml_node \<Rightarrow> string \<Rightarrow> string \<Rightarrow> string \<Rightarrow> bool edit" where
  "removeSequenceItem doc key matchField matchValue = in_root doc (\<lambda>r. removeSequenceItemIn r key matchField matchValue)"

text \<open>The section for an upsert is created where it is missing; one that cannot be is a missing parent.\<close>

definition in_section :: "yaml_node \<Rightarrow> string \<Rightarrow> (yaml_node \<Rightarrow> bool edit) \<Rightarrow> bool edit" where
  "in_section doc key f =
     (case documentRoot doc of
        None \<Rightarrow> Inl Missing_section
      | Some r \<Rightarrow>
          (case f (child_or MappingNode r key) of
             Inl e \<Rightarrow> Inl e
           | Inr (flag, v) \<Rightarrow> Inr (flag, with_root doc (set_child r key v))))"

definition in_found_section :: "yaml_node \<Rightarrow> string \<Rightarrow> (yaml_node \<Rightarrow> bool edit) \<Rightarrow> bool edit" where
  "in_found_section doc key f =
     (case documentRoot doc of
        None \<Rightarrow> Inr (False, doc)
      | Some r \<Rightarrow>
          (case childValue r key of
             None \<Rightarrow> Inr (False, doc)
           | Some v \<Rightarrow> (case f v of Inl e \<Rightarrow> Inl e | Inr (flag, v) \<Rightarrow> Inr (flag, with_root doc (set_child r key v)))))"

definition setMappingKey :: "yaml_node \<Rightarrow> string \<Rightarrow> yaml_node option \<Rightarrow> bool edit" where
  "setMappingKey doc key value =
     in_root doc (\<lambda>r. case value of None \<Rightarrow> Inl Yaml_error | Some node \<Rightarrow> Inr (True, set_child r key node))"

definition quoted :: "string \<Rightarrow> yaml_node" where "quoted v = YNode ScalarNode v ''!!str'' []"

definition addScalarToSequence :: "yaml_node \<Rightarrow> string \<Rightarrow> string \<Rightarrow> bool edit" where
  "addScalarToSequence doc key value =
     in_root doc (\<lambda>r.
       let seq = child_or SequenceNode r key
       in if YKind seq \<noteq> SequenceNode then Inl Not_a_list
          else if list_ex (\<lambda>item. YValue item = value) (YContent seq) then Inr (False, set_child r key seq)
          else Inr (True, set_child r key (with_content seq (YContent seq @ [quoted value]))))"

definition removeScalarFromSequence :: "yaml_node \<Rightarrow> string \<Rightarrow> string \<Rightarrow> bool edit" where
  "removeScalarFromSequence doc key value =
     in_root doc (\<lambda>r.
       case childValue r key of
         None \<Rightarrow> Inr (False, r)
       | Some seq \<Rightarrow>
           if YKind seq \<noteq> SequenceNode then Inr (False, r)
           else (case remove_item (\<lambda>item. YValue item = value) (YContent seq) of
                   (found, items) \<Rightarrow> Inr (found, if found then set_child r key (with_content seq items) else r)))"

subsection \<open>Handlers\<close>

text \<open>What the handlers work with: the server's parts, the YAML package, and how it renders the bodies of requests.\<close>

record 's config_api =
  CaEngine :: "engine option"
  CaParse :: loader
  CaValidate :: "config \<Rightarrow> bool"
  CaRead :: "'s \<Rightarrow> source_error + string \<times> string"
  CaWrite :: "string \<Rightarrow> string \<Rightarrow> 's \<Rightarrow> (source_error + string) \<times> 's"
  CaLock :: lock
  CaUnmarshal :: "string \<Rightarrow> yaml_node option"
  CaMarshal :: "yaml_node \<Rightarrow> string option"
  CaFeed :: "feed_config \<Rightarrow> yaml_node option"
  CaIssuer :: "oidc_issuer \<Rightarrow> yaml_node option"
  CaPeer :: "peer_config \<Rightarrow> yaml_node option"
  CaPolicy :: "access_policy_config \<Rightarrow> yaml_node option"
  CaBinding :: "binding_config \<Rightarrow> yaml_node option"
  CaStrings :: "string list \<Rightarrow> yaml_node option"

text \<open>An edit of nodes as an edit of the text.\<close>

definition edit_text :: "(string \<Rightarrow> yaml_node option) \<Rightarrow> (yaml_node \<Rightarrow> string option) \<Rightarrow> (yaml_node \<Rightarrow> bool edit) \<Rightarrow> string \<Rightarrow> edit_error + string" where
  "edit_text unmarshal marshal f raw =
     (case unmarshal raw of
        None \<Rightarrow> Inl Yaml_error
      | Some doc \<Rightarrow>
          (case f doc of
             Inl e \<Rightarrow> Inl e
           | Inr (_, doc) \<Rightarrow> (case marshal doc of None \<Rightarrow> Inl Yaml_error | Some text \<Rightarrow> Inr text)))"

text \<open>The flag the edit leaves for its handler, on the document it was applied to.\<close>

definition edit_flag :: "'s config_api \<Rightarrow> (yaml_node \<Rightarrow> bool edit) \<Rightarrow> 's \<Rightarrow> bool" where
  "edit_flag api f s =
     (case CaRead api s of
        Inl _ \<Rightarrow> False
      | Inr (raw, _) \<Rightarrow> (case Option.bind (CaUnmarshal api raw) (\<lambda>doc. case f doc of Inl _ \<Rightarrow> None | Inr (b, _) \<Rightarrow> Some b) of None \<Rightarrow> False | Some b \<Rightarrow> b))"

definition edit_document :: "'s config_api \<Rightarrow> string \<Rightarrow> (yaml_node \<Rightarrow> bool edit) \<Rightarrow> manager \<Rightarrow> 's \<Rightarrow> (nat + bool) \<times> manager \<times> 's" where
  "edit_document api etag f m s =
     (case mutateDocument (CaParse api) (CaValidate api) (CaRead api) (CaWrite api) (CaLock api) (trimETag etag)
             (edit_text (CaUnmarshal api) (CaMarshal api) f) m s of
        (Inl e, m, s') \<Rightarrow> (Inl (configStatus e), m, s')
      | (Inr _, m, s') \<Rightarrow> (Inr (edit_flag api f s), m, s'))"

definition answer_upsert :: "(nat + bool) \<times> manager \<times> 's \<Rightarrow> nat \<times> manager \<times> 's" where
  "answer_upsert r = (case r of (Inl status, x) \<Rightarrow> (status, x) | (Inr created, x) \<Rightarrow> (if created then 201 else 200, x))"

definition answer_remove :: "(nat + bool) \<times> manager \<times> 's \<Rightarrow> nat \<times> manager \<times> 's" where
  "answer_remove r = (case r of (Inl status, x) \<Rightarrow> (status, x) | (Inr found, x) \<Rightarrow> (if found then 200 else 404, x))"

type_synonym 's handler = "manager \<Rightarrow> 's \<Rightarrow> nat \<times> manager \<times> 's"

definition as_admin :: "'s config_api \<Rightarrow> identity \<Rightarrow> 's handler \<Rightarrow> 's handler" where
  "as_admin api i h m s = (case requireAdmin (CaEngine api) i of Some status \<Rightarrow> (status, m, s) | None \<Rightarrow> h m s)"

text \<open>A body is \<open>None\<close> when it cannot be decoded; a name left out is taken from the path.\<close>

definition handlePutFeed :: "'s config_api \<Rightarrow> identity \<Rightarrow> string \<Rightarrow> string \<Rightarrow> feed_config option \<Rightarrow> 's handler" where
  "handlePutFeed api i etag name body = as_admin api i (\<lambda>m s.
     case body of
       None \<Rightarrow> (400, m, s)
     | Some feed \<Rightarrow>
         let feed = (if FName feed = [] then feed\<lparr>FName := name\<rparr> else feed)
         in if FName feed \<noteq> name then (400, m, s)
            else answer_upsert (edit_document api etag (\<lambda>doc. upsertSequenceItem doc ''feeds'' ''name'' name (CaFeed api feed)) m s))"

definition handleDeleteFeed :: "'s config_api \<Rightarrow> identity \<Rightarrow> string \<Rightarrow> string \<Rightarrow> 's handler" where
  "handleDeleteFeed api i etag name = as_admin api i (\<lambda>m s.
     answer_remove (edit_document api etag (\<lambda>doc. removeSequenceItem doc ''feeds'' ''name'' name) m s))"

definition handlePutAdmins :: "'s config_api \<Rightarrow> identity \<Rightarrow> string \<Rightarrow> string list option \<Rightarrow> 's handler" where
  "handlePutAdmins api i etag body = as_admin api i (\<lambda>m s.
     case body of
       None \<Rightarrow> (400, m, s)
     | Some admins \<Rightarrow>
         if admins = [] then (400, m, s)
         else (case edit_document api etag (\<lambda>doc. setMappingKey doc ''admins'' (CaStrings api admins)) m s of
                 (Inl status, x) \<Rightarrow> (status, x)
               | (Inr _, x) \<Rightarrow> (200, x)))"

definition handlePutAdminBinding :: "'s config_api \<Rightarrow> identity \<Rightarrow> string \<Rightarrow> string \<Rightarrow> 's handler" where
  "handlePutAdminBinding api i etag pattern = as_admin api i (\<lambda>m s.
     if pattern = [] then (400, m, s)
     else answer_upsert (edit_document api etag (\<lambda>doc. addScalarToSequence doc ''admins'' pattern) m s))"

definition handleDeleteAdminBinding :: "'s config_api \<Rightarrow> identity \<Rightarrow> string \<Rightarrow> string \<Rightarrow> 's handler" where
  "handleDeleteAdminBinding api i etag pattern = as_admin api i (\<lambda>m s.
     if pattern = [] then (400, m, s)
     else if Admins (MgConfig m) = [pattern] then (400, m, s)
     else answer_remove (edit_document api etag (\<lambda>doc. removeScalarFromSequence doc ''admins'' pattern) m s))"

definition handlePutOIDCIssuer :: "'s config_api \<Rightarrow> identity \<Rightarrow> string \<Rightarrow> string \<Rightarrow> oidc_issuer option \<Rightarrow> 's handler" where
  "handlePutOIDCIssuer api i etag q body = as_admin api i (\<lambda>m s.
     case body of
       None \<Rightarrow> (400, m, s)
     | Some issuer \<Rightarrow>
         let issuer = (if OIssuer issuer = [] then issuer\<lparr>OIssuer := q\<rparr> else issuer)
         in if OIssuer issuer = [] then (400, m, s)
            else if q \<noteq> [] \<and> q \<noteq> OIssuer issuer then (400, m, s)
            else answer_upsert (edit_document api etag
                   (\<lambda>doc. in_section doc ''auth'' (\<lambda>auth. upsertSequenceItemIn auth ''oidc_issuers'' ''issuer'' (OIssuer issuer) (CaIssuer api issuer))) m s))"

definition handleDeleteOIDCIssuer :: "'s config_api \<Rightarrow> identity \<Rightarrow> string \<Rightarrow> string \<Rightarrow> 's handler" where
  "handleDeleteOIDCIssuer api i etag issuer = as_admin api i (\<lambda>m s.
     if issuer = [] then (400, m, s)
     else answer_remove (edit_document api etag
            (\<lambda>doc. in_found_section doc ''auth'' (\<lambda>auth. removeSequenceItemIn auth ''oidc_issuers'' ''issuer'' issuer)) m s))"

definition handlePutPeer :: "'s config_api \<Rightarrow> identity \<Rightarrow> string \<Rightarrow> string \<Rightarrow> peer_config option \<Rightarrow> 's handler" where
  "handlePutPeer api i etag name body = as_admin api i (\<lambda>m s.
     case body of
       None \<Rightarrow> (400, m, s)
     | Some peer \<Rightarrow>
         let peer = (if PeerName peer = [] then peer\<lparr>PeerName := name\<rparr> else peer)
         in if PeerName peer \<noteq> name then (400, m, s)
            else answer_upsert (edit_document api etag
                   (\<lambda>doc. in_section doc ''replication'' (\<lambda>r. upsertSequenceItemIn r ''peers'' ''name'' name (CaPeer api peer))) m s))"

definition handleDeletePeer :: "'s config_api \<Rightarrow> identity \<Rightarrow> string \<Rightarrow> string \<Rightarrow> 's handler" where
  "handleDeletePeer api i etag name = as_admin api i (\<lambda>m s.
     answer_remove (edit_document api etag
       (\<lambda>doc. in_found_section doc ''replication'' (\<lambda>r. removeSequenceItemIn r ''peers'' ''name'' name)) m s))"

definition handlePutAccessPolicy :: "'s config_api \<Rightarrow> identity \<Rightarrow> string \<Rightarrow> string \<Rightarrow> access_policy_config option \<Rightarrow> 's handler" where
  "handlePutAccessPolicy api i etag name body = as_admin api i (\<lambda>m s.
     case body of
       None \<Rightarrow> (400, m, s)
     | Some policy \<Rightarrow>
         let policy = (if APName policy = [] then policy\<lparr>APName := name\<rparr> else policy)
         in if APName policy \<noteq> name then (400, m, s)
            else answer_upsert (edit_document api etag (\<lambda>doc. upsertSequenceItem doc ''access_policies'' ''name'' name (CaPolicy api policy)) m s))"

definition handleDeleteAccessPolicy :: "'s config_api \<Rightarrow> identity \<Rightarrow> string \<Rightarrow> string \<Rightarrow> 's handler" where
  "handleDeleteAccessPolicy api i etag name = as_admin api i (\<lambda>m s.
     if list_ex (\<lambda>b. name \<in> set (BCPolicies b)) (Bindings (MgConfig m)) then (409, m, s)
     else answer_remove (edit_document api etag (\<lambda>doc. removeSequenceItem doc ''access_policies'' ''name'' name) m s))"

definition handlePutBinding :: "'s config_api \<Rightarrow> identity \<Rightarrow> string \<Rightarrow> string \<Rightarrow> binding_config option \<Rightarrow> 's handler" where
  "handlePutBinding api i etag name body = as_admin api i (\<lambda>m s.
     case body of
       None \<Rightarrow> (400, m, s)
     | Some binding \<Rightarrow>
         let binding = (if BCName binding = [] then binding\<lparr>BCName := name\<rparr> else binding)
         in if BCName binding \<noteq> name then (400, m, s)
            else answer_upsert (edit_document api etag (\<lambda>doc. upsertSequenceItem doc ''bindings'' ''name'' name (CaBinding api binding)) m s))"

definition handleDeleteBinding :: "'s config_api \<Rightarrow> identity \<Rightarrow> string \<Rightarrow> string \<Rightarrow> 's handler" where
  "handleDeleteBinding api i etag name = as_admin api i (\<lambda>m s.
     answer_remove (edit_document api etag (\<lambda>doc. removeSequenceItem doc ''bindings'' ''name'' name) m s))"

text \<open>Reading one resource from the snapshot.\<close>

definition read_one :: "'s config_api \<Rightarrow> identity \<Rightarrow> ('a \<Rightarrow> bool) \<Rightarrow> 'a list \<Rightarrow> nat + 'a" where
  "read_one api i P xs =
     (case requireAdmin (CaEngine api) i of Some status \<Rightarrow> Inl status | None \<Rightarrow> (case find P xs of None \<Rightarrow> Inl 404 | Some x \<Rightarrow> Inr x))"

definition handleGetFeed :: "'s config_api \<Rightarrow> identity \<Rightarrow> string \<Rightarrow> manager \<Rightarrow> nat + feed_config" where
  "handleGetFeed api i name m = read_one api i (\<lambda>f. FName f = name) (Feeds (MgConfig m))"

definition handleGetPeer :: "'s config_api \<Rightarrow> identity \<Rightarrow> string \<Rightarrow> manager \<Rightarrow> nat + peer_config" where
  "handleGetPeer api i name m = read_one api i (\<lambda>p. PeerName p = name) (Peers (Replication (MgConfig m)))"

definition handleGetAccessPolicy :: "'s config_api \<Rightarrow> identity \<Rightarrow> string \<Rightarrow> manager \<Rightarrow> nat + access_policy_config" where
  "handleGetAccessPolicy api i name m = read_one api i (\<lambda>p. APName p = name) (AccessPolicies (MgConfig m))"

definition handleGetBinding :: "'s config_api \<Rightarrow> identity \<Rightarrow> string \<Rightarrow> manager \<Rightarrow> nat + binding_config" where
  "handleGetBinding api i name m = read_one api i (\<lambda>b. BCName b = name) (Bindings (MgConfig m))"

definition handleGetAdminBinding :: "'s config_api \<Rightarrow> identity \<Rightarrow> string \<Rightarrow> manager \<Rightarrow> nat + string" where
  "handleGetAdminBinding api i pattern m =
     (case requireAdmin (CaEngine api) i of
        Some status \<Rightarrow> Inl status
      | None \<Rightarrow> if pattern = [] then Inl 400 else read_one api i (\<lambda>p. p = pattern) (Admins (MgConfig m)))"

definition handleGetOIDCIssuer :: "'s config_api \<Rightarrow> identity \<Rightarrow> string \<Rightarrow> manager \<Rightarrow> nat + oidc_issuer" where
  "handleGetOIDCIssuer api i issuer m =
     (case requireAdmin (CaEngine api) i of
        Some status \<Rightarrow> Inl status
      | None \<Rightarrow> if issuer = [] then Inl 400 else read_one api i (\<lambda>o'. OIssuer o' = issuer) (OIDC (Auth (MgConfig m))))"

end
