(* ===== verification/Config_Editing.thy ===== *)
theory Config_Editing
  imports Config_Resources
begin

text \<open>
  What an edit of the configuration document does to the resources in it: it reaches one item of one list and leaves every other
  item as it was, and so do acknowledged edits one after the other.
\<close>

subsection \<open>Well-formed documents\<close>

text \<open>Mappings are keys and values in turn, and scalars have no children.\<close>

fun sound_node :: "yaml_node \<Rightarrow> bool" where
  "sound_node (YNode kind value style nodes) \<longleftrightarrow>
     (kind = MappingNode \<longrightarrow> even (length nodes)) \<and> (kind \<in> {ScalarNode, AliasNode} \<longrightarrow> nodes = []) \<and> list_all sound_node nodes"

text \<open>A node without tags, styles and comments, which the YAML package may write differently.\<close>

fun strip :: "yaml_node \<Rightarrow> yaml_node" where
  "strip (YNode kind value style nodes) = YNode kind value [] (map strip nodes)"

lemma strip_simps [simp]: "YKind (strip n) = YKind n" "YValue (strip n) = YValue n" "YContent (strip n) = map strip (YContent n)"
  by (cases n; simp)+

lemma pair_value_strip: "pair_value key (map strip c) = map_option strip (pair_value key c)"
  by (induction key c rule: pair_value.induct) auto

lemma childValue_strip: "childValue (strip n) key = map_option strip (childValue n key)"
  by (simp add: childValue_def pair_value_strip)

lemma mappingField_strip [simp]: "mappingField (strip n) field = mappingField n field"
  by (simp add: mappingField_def childValue_strip split: option.splits)

lemma documentRoot_strip: "documentRoot (strip d) = map_option strip (documentRoot d)"
  by (cases "YContent d") (auto simp: documentRoot_def)

lemma findMapping_strip: "findMapping (strip d) key = map_option strip (findMapping d key)"
  by (auto simp: findMapping_def documentRoot_strip pair_value_strip split: option.splits)

lemma find_strip: "find (\<lambda>x. mappingField x field = v) (map strip xs) = map_option strip (find (\<lambda>x. mappingField x field = v) xs)"
  by (induction xs) auto

subsection \<open>Lists of items\<close>

text \<open>Where the items of a resource are: a section, empty for the top level, the list and the field that names an item.\<close>

type_synonym slot = "string \<times> string \<times> string"

definition slots :: "slot list" where
  "slots = [([], ''feeds'', ''name''), ([], ''access_policies'', ''name''), ([], ''bindings'', ''name''),
            (''auth'', ''oidc_issuers'', ''issuer''), (''replication'', ''peers'', ''name'')]"

definition items_in :: "string \<Rightarrow> yaml_node option \<Rightarrow> yaml_node list" where
  "items_in key p =
     (case Option.bind p (\<lambda>p. childValue p key) of None \<Rightarrow> [] | Some seq \<Rightarrow> if YKind seq = SequenceNode then YContent seq else [])"

definition item_at :: "yaml_node \<Rightarrow> slot \<Rightarrow> string \<Rightarrow> yaml_node option" where
  "item_at doc sl name =
     (case sl of (sect, key, field) \<Rightarrow>
        find (\<lambda>x. mappingField x field = name) (items_in key (if sect = [] then documentRoot doc else findMapping doc sect)))"

definition put_edit :: "slot \<Rightarrow> string \<Rightarrow> yaml_node option \<Rightarrow> yaml_node \<Rightarrow> bool edit" where
  "put_edit sl name value doc =
     (case sl of (sect, key, field) \<Rightarrow>
        if sect = [] then upsertSequenceItem doc key field name value
        else in_section doc sect (\<lambda>p. upsertSequenceItemIn p key field name value))"

definition delete_edit :: "slot \<Rightarrow> string \<Rightarrow> yaml_node \<Rightarrow> bool edit" where
  "delete_edit sl name doc =
     (case sl of (sect, key, field) \<Rightarrow>
        if sect = [] then removeSequenceItem doc key field name
        else in_found_section doc sect (\<lambda>p. removeSequenceItemIn p key field name))"

text \<open>The sections are mappings where they are present.\<close>

definition tidy_document :: "yaml_node \<Rightarrow> bool" where
  "tidy_document doc \<longleftrightarrow> sound_node doc \<and>
     (\<forall>sect \<in> {''auth'', ''replication''}. \<forall>v. findMapping doc sect = Some v \<longrightarrow> YKind v = MappingNode)"

lemma items_in_strip: "items_in key (map_option strip p) = map strip (items_in key p)"
  by (cases p) (auto simp: items_in_def childValue_strip split: option.splits)

lemma item_at_strip: "item_at (strip doc) sl name = map_option strip (item_at doc sl name)"
  by (cases sl) (simp add: item_at_def documentRoot_strip findMapping_strip items_in_strip find_strip)

lemma upsert_item_finds: "upsert_item P node xs = (c, ys) \<Longrightarrow> P node \<Longrightarrow> find P ys = Some node"
  by (induction xs arbitrary: c ys) (auto split: if_splits prod.splits)

lemma upsert_item_other:
  "upsert_item P node xs = (c, ys) \<Longrightarrow> \<not> Q node \<Longrightarrow> (\<And>x. P x \<Longrightarrow> \<not> Q x) \<Longrightarrow> find Q ys = find Q xs"
  by (induction xs arbitrary: c ys) (auto split: if_splits prod.splits)

lemma remove_item_other: "remove_item P xs = (c, ys) \<Longrightarrow> (\<And>x. P x \<Longrightarrow> \<not> Q x) \<Longrightarrow> find Q ys = find Q xs"
  by (induction xs arbitrary: c ys) (auto split: if_splits prod.splits)

lemma upsert_item_all: "upsert_item P node xs = (c, ys) \<Longrightarrow> R node \<Longrightarrow> list_all R xs \<Longrightarrow> list_all R ys"
  by (induction xs arbitrary: c ys) (auto split: if_splits prod.splits)

lemma remove_item_all: "remove_item P xs = (c, ys) \<Longrightarrow> list_all R xs \<Longrightarrow> list_all R ys"
  by (induction xs arbitrary: c ys) (auto split: if_splits prod.splits)

subsection \<open>Mappings\<close>

lemma pair_value_update: "pair_value k (pair_update key v c) = (if k = key \<and> pair_value key c \<noteq> None then Some v else pair_value k c)"
  by (induction key v c rule: pair_update.induct) auto

lemma pair_value_append: "even (length c) \<Longrightarrow> pair_value k (c @ [scalar key, v]) = (case pair_value k c of None \<Rightarrow> if k = key then Some v else None | Some x \<Rightarrow> Some x)"
  by (induction k c rule: pair_value.induct) (auto simp: scalar_def)

lemma length_pair_update [simp]: "length (pair_update key v c) = length c"
  by (induction key v c rule: pair_update.induct) auto

lemma pair_update_all: "list_all R c \<Longrightarrow> R v \<Longrightarrow> list_all R (pair_update key v c)"
  by (induction key v c rule: pair_update.induct) auto

lemma pair_value_all: "list_all R c \<Longrightarrow> pair_value key c = Some v \<Longrightarrow> R v"
  by (induction key c rule: pair_value.induct) (auto split: if_splits)

lemma with_content_simps [simp]: "YKind (with_content n c) = YKind n" "YContent (with_content n c) = c" "YValue (with_content n c) = YValue n"
  by (simp_all add: with_content_def)

lemma sound_node_iff:
  "sound_node n \<longleftrightarrow> (YKind n = MappingNode \<longrightarrow> even (length (YContent n))) \<and> (YKind n \<in> {ScalarNode, AliasNode} \<longrightarrow> YContent n = []) \<and>
     list_all sound_node (YContent n)"
  by (cases n) simp

lemma sound_with_content:
  "sound_node (with_content n c) \<longleftrightarrow> (YKind n = MappingNode \<longrightarrow> even (length c)) \<and> (YKind n \<in> {ScalarNode, AliasNode} \<longrightarrow> c = []) \<and> list_all sound_node c"
  by (simp add: with_content_def)

lemma childValue_set_child:
  assumes "YKind p = MappingNode" and "sound_node p"
  shows "childValue (set_child p key v) k = (if k = key then Some v else childValue p k)"
  using assms by (auto simp: childValue_def set_child_def sound_node_iff pair_value_update pair_value_append split: option.splits)

lemma set_child_sound: "sound_node p \<Longrightarrow> YKind p = MappingNode \<Longrightarrow> sound_node v \<Longrightarrow> sound_node (set_child p key v)"
  by (auto simp: sound_with_content sound_node_iff [of p] set_child_def scalar_def split: option.splits intro: pair_update_all)

lemma set_child_kind [simp]: "YKind (set_child p key v) = YKind p"
  by (simp add: set_child_def)

lemma child_or_sound: "sound_node p \<Longrightarrow> sound_node (child_or kind p key)"
  by (auto simp: child_or_def childValue_def sound_node_iff [of p] split: option.splits if_splits dest: pair_value_all)

lemma documentRoot_kind: "documentRoot doc = Some r \<Longrightarrow> YKind r = MappingNode"
  by (auto simp: documentRoot_def split: option.splits if_splits)

lemma documentRoot_sound: "sound_node doc \<Longrightarrow> documentRoot doc = Some r \<Longrightarrow> sound_node r"
  by (cases doc) (auto simp: documentRoot_def split: option.splits if_splits list.splits)

lemma documentRoot_with_root: "documentRoot doc = Some r \<Longrightarrow> YKind r' = MappingNode \<Longrightarrow> documentRoot (with_root doc r') = Some r'"
  by (auto simp: documentRoot_def with_root_def split: option.splits if_splits list.splits)

lemma with_root_sound: "documentRoot doc = Some r \<Longrightarrow> sound_node doc \<Longrightarrow> sound_node r' \<Longrightarrow> sound_node (with_root doc r')"
  by (auto simp: documentRoot_def with_root_def sound_with_content sound_node_iff [of doc] split: option.splits if_splits list.splits)

lemma findMapping_root: "documentRoot doc = Some r \<Longrightarrow> findMapping doc k = childValue r k"
  by (simp add: findMapping_def childValue_def documentRoot_kind)

text \<open>A document whose root had one child replaced.\<close>

lemma root_edit:
  assumes "documentRoot doc = Some r" and "sound_node doc" and "sound_node v"
    and doc'_def: "doc' = with_root doc (set_child r key v)"
  shows "sound_node doc'" and "documentRoot doc' = Some (set_child r key v)"
    and "findMapping doc' k = (if k = key then Some v else findMapping doc k)"
    and "items_in k (documentRoot doc') = (if k = key then (if YKind v = SequenceNode then YContent v else []) else items_in k (documentRoot doc))"
proof -
  note r = documentRoot_kind [OF assms(1)] documentRoot_sound [OF assms(2,1)]
  show "sound_node doc'" unfolding doc'_def by (rule with_root_sound [OF assms(1,2) set_child_sound [OF r(2,1) assms(3)]])
  show root: "documentRoot doc' = Some (set_child r key v)" unfolding doc'_def by (rule documentRoot_with_root [OF assms(1)]) (simp add: r)
  show "findMapping doc' k = (if k = key then Some v else findMapping doc k)"
    unfolding findMapping_root [OF root] findMapping_root [OF assms(1)] by (rule childValue_set_child [OF r])
  show "items_in k (documentRoot doc') = (if k = key then (if YKind v = SequenceNode then YContent v else []) else items_in k (documentRoot doc))"
    unfolding root assms(1) by (simp add: items_in_def childValue_set_child [OF r])
qed

lemma upsertIn_effect:
  assumes "upsertSequenceItemIn p key field name (Some node) = Inr (b, p')" and "sound_node p" and "YKind p = MappingNode" and "sound_node node"
  shows "\<exists>seq c. sound_node seq \<and> YKind seq = SequenceNode \<and> p' = set_child p key seq \<and>
     upsert_item (\<lambda>x. mappingField x field = name) node (items_in key (Some p)) = (c, YContent seq)"
proof -
  let ?seq = "child_or SequenceNode p key"
  obtain c items where u: "upsert_item (\<lambda>x. mappingField x field = name) node (YContent ?seq) = (c, items)" by (metis surj_pair)
  have k: "YKind ?seq = SequenceNode" and p': "p' = set_child p key (with_content ?seq items)"
    using assms(1) u by (auto simp: upsertSequenceItemIn_def Let_def split: if_splits)
  have "sound_node ?seq" by (rule child_or_sound [OF assms(2)])
  then have "sound_node (with_content ?seq items)" using upsert_item_all [where R = sound_node, OF u assms(4)] k by (simp add: sound_with_content sound_node_iff [of ?seq])
  moreover have "items_in key (Some p) = YContent ?seq" using k by (auto simp: items_in_def child_or_def split: option.splits)
  ultimately show ?thesis using k p' u by (intro exI [of _ "with_content ?seq items"] exI [of _ c]) simp
qed

lemma removeIn_effect:
  assumes "removeSequenceItemIn p key field name = Inr (b, p')" and "sound_node p" and "YKind p = MappingNode"
  shows "p' = p \<or> (\<exists>seq c. sound_node seq \<and> YKind seq = SequenceNode \<and> p' = set_child p key seq \<and>
     remove_item (\<lambda>x. mappingField x field = name) (items_in key (Some p)) = (c, YContent seq))"
proof (cases "childValue p key")
  case (Some seq)
  obtain c items where u: "remove_item (\<lambda>x. mappingField x field = name) (YContent seq) = (c, items)" by (metis surj_pair)
  have "sound_node seq" using Some assms(2,3) by (auto simp: childValue_def sound_node_iff [of p] dest: pair_value_all)
  then have "YKind seq = SequenceNode \<Longrightarrow> sound_node (with_content seq items)" using remove_item_all [where R = sound_node, OF u] by (simp add: sound_with_content sound_node_iff [of seq])
  then show ?thesis using assms(1) u Some
    by (auto simp: removeSequenceItemIn_def items_in_def split: if_splits intro!: exI [of _ "with_content seq items"])
qed (use assms(1) in \<open>simp add: removeSequenceItemIn_def\<close>)

subsection \<open>An edit reaches one item\<close>

definition items_of :: "yaml_node \<Rightarrow> string \<Rightarrow> string \<Rightarrow> yaml_node list" where
  "items_of doc sect key = items_in key (if sect = [] then documentRoot doc else findMapping doc sect)"

definition others_kept :: "string \<Rightarrow> string \<Rightarrow> yaml_node \<Rightarrow> yaml_node \<Rightarrow> bool" where
  "others_kept sect key doc doc' \<longleftrightarrow>
     (\<forall>(s, k, f) \<in> set slots. (s, k) \<noteq> (sect, key) \<longrightarrow> items_of doc' s k = items_of doc s k)"

lemma top_edit:
  assumes "([], key, field) \<in> set slots" and "documentRoot doc = Some r" and "tidy_document doc" and "sound_node seq" and "YKind seq = SequenceNode"
  shows "tidy_document (with_root doc (set_child r key seq)) \<and> items_of (with_root doc (set_child r key seq)) [] key = YContent seq \<and>
     others_kept [] key doc (with_root doc (set_child r key seq))"
proof -
  have k: "key \<noteq> ''auth''" "key \<noteq> ''replication''" using assms(1) by (auto simp: slots_def)
  have d: "sound_node doc" using assms(3) by (simp add: tidy_document_def)
  note e = root_edit [where key = key, OF assms(2) d assms(4) refl]
  have "tidy_document (with_root doc (set_child r key seq))" using assms(3) k e(1,3) by (simp add: tidy_document_def)
  moreover have "others_kept [] key doc (with_root doc (set_child r key seq))"
    using k e(3,4) by (auto simp: others_kept_def items_of_def slots_def)
  ultimately show ?thesis using e(4) assms(5) by (simp add: items_of_def)
qed

lemma section_edit:
  assumes "(sect, key, field) \<in> set slots" "sect \<noteq> []" and "documentRoot doc = Some r" and "tidy_document doc"
    and "sound_node seq" and "YKind seq = SequenceNode" and p: "p = child_or MappingNode r sect"
    and doc': "doc' = with_root doc (set_child r sect (set_child p key seq))"
  shows "tidy_document doc' \<and> items_of doc' sect key = YContent seq \<and> others_kept sect key doc doc' \<and>
    items_of doc sect key = items_in key (Some p) \<and> sound_node p \<and> YKind p = MappingNode"
proof -
  have sec: "sect \<in> {''auth'', ''replication''}" using assms(1,2) by (auto simp: slots_def)
  have d: "sound_node doc" using assms(4) by (simp add: tidy_document_def)
  note r = documentRoot_kind [OF assms(3)] documentRoot_sound [OF d assms(3)]
  have fm: "findMapping doc sect = childValue r sect" by (rule findMapping_root [OF assms(3)])
  have pk: "YKind p = MappingNode" and ps: "sound_node p"
    using assms(4) sec fm child_or_sound [OF r(2)] by (auto simp: p child_or_def tidy_document_def split: option.splits)
  have v: "sound_node (set_child p key seq)" by (rule set_child_sound [OF ps pk assms(5)])
  note e = root_edit [OF assms(3) d v doc']
  have "tidy_document doc'" using assms(4) e(1,3) pk by (auto simp: tidy_document_def)
  moreover have "items_of doc' sect key = YContent seq"
    using assms(2,6) e(3) [of sect] by (simp add: items_of_def items_in_def childValue_set_child [OF pk ps])
  moreover have "others_kept sect key doc doc'"
    using sec e(3,4) assms(1) by (auto simp: others_kept_def items_of_def slots_def)
  moreover have "items_of doc sect key = items_in key (Some p)"
    using assms(2) fm by (auto simp: items_of_def items_in_def p child_or_def childValue_def split: option.splits)
  ultimately show ?thesis using pk ps by blast
qed

lemma in_root_Inr: "in_root doc f = Inr (b, doc') \<Longrightarrow> \<exists>r r'. documentRoot doc = Some r \<and> f r = Inr (b, r') \<and> doc' = with_root doc r'"
  by (auto simp: in_root_def split: option.splits sum.splits)

lemma in_section_Inr:
  "in_section doc key f = Inr (b, doc') \<Longrightarrow>
   \<exists>r p'. documentRoot doc = Some r \<and> f (child_or MappingNode r key) = Inr (b, p') \<and> doc' = with_root doc (set_child r key p')"
  by (auto simp: in_section_def split: option.splits sum.splits)

lemma in_found_section_Inr:
  "in_found_section doc key f = Inr (b, doc') \<Longrightarrow> documentRoot doc = Some r \<Longrightarrow> childValue r key = Some v \<Longrightarrow>
   \<exists>v'. f v = Inr (b, v') \<and> doc' = with_root doc (set_child r key v')"
  by (auto simp: in_found_section_def split: sum.splits)

lemma put_edit_lists:
  assumes "(sect, key, field) \<in> set slots" and "tidy_document doc" and "sound_node node"
    and run: "put_edit (sect, key, field) name (Some node) doc = Inr (b, doc')"
  shows "\<exists>c. upsert_item (\<lambda>x. mappingField x field = name) node (items_of doc sect key) = (c, items_of doc' sect key)"
    and "others_kept sect key doc doc'" and "tidy_document doc'"
proof -
  have d: "sound_node doc" using assms(2) by (simp add: tidy_document_def)
  have "(\<exists>c. upsert_item (\<lambda>x. mappingField x field = name) node (items_of doc sect key) = (c, items_of doc' sect key)) \<and>
      others_kept sect key doc doc' \<and> tidy_document doc'"
  proof (cases "sect = []")
    case True
    then obtain r r' where r: "documentRoot doc = Some r" "upsertSequenceItemIn r key field name (Some node) = Inr (b, r')" "doc' = with_root doc r'"
      using in_root_Inr [of doc "\<lambda>r. upsertSequenceItemIn r key field name (Some node)" b doc'] run by (auto simp: put_edit_def upsertSequenceItem_def)
    from upsertIn_effect [OF r(2) documentRoot_sound [OF d r(1)] documentRoot_kind [OF r(1)] assms(3)] obtain seq c
      where s: "sound_node seq" "YKind seq = SequenceNode" "r' = set_child r key seq"
        "upsert_item (\<lambda>x. mappingField x field = name) node (items_in key (Some r)) = (c, YContent seq)" by blast
    have "items_of doc [] key = items_in key (Some r)" by (simp add: items_of_def r(1))
    then show ?thesis using top_edit [of key field, OF _ r(1) assms(2) s(1,2)] assms(1) True s(3,4) r(3) by auto
  next
    case False
    then obtain r p' where r: "documentRoot doc = Some r"
        "upsertSequenceItemIn (child_or MappingNode r sect) key field name (Some node) = Inr (b, p')" "doc' = with_root doc (set_child r sect p')"
      using in_section_Inr [of doc sect "\<lambda>p. upsertSequenceItemIn p key field name (Some node)" b doc'] run by (auto simp: put_edit_def)
    have dummy: "sound_node (YNode SequenceNode [] [] [])" "YKind (YNode SequenceNode [] [] []) = SequenceNode" by simp_all
    note p = section_edit [OF assms(1) False r(1) assms(2) dummy refl refl]
    from upsertIn_effect [OF r(2) _ _ assms(3)] p obtain seq c
      where s: "sound_node seq" "YKind seq = SequenceNode" "p' = set_child (child_or MappingNode r sect) key seq"
        "upsert_item (\<lambda>x. mappingField x field = name) node (items_in key (Some (child_or MappingNode r sect))) = (c, YContent seq)" by blast
    then show ?thesis using section_edit [OF assms(1) False r(1) assms(2) s(1,2) refl refl] r(3) by auto
  qed
  then show "\<exists>c. upsert_item (\<lambda>x. mappingField x field = name) node (items_of doc sect key) = (c, items_of doc' sect key)"
    and "others_kept sect key doc doc'" and "tidy_document doc'" by blast+
qed

lemma delete_edit_lists:
  assumes "(sect, key, field) \<in> set slots" and "tidy_document doc" and run: "delete_edit (sect, key, field) name doc = Inr (b, doc')"
  shows "items_of doc' sect key = items_of doc sect key \<or>
      (\<exists>c. remove_item (\<lambda>x. mappingField x field = name) (items_of doc sect key) = (c, items_of doc' sect key))"
    and "others_kept sect key doc doc'" and "tidy_document doc'"
proof -
  have d: "sound_node doc" using assms(2) by (simp add: tidy_document_def)
  have same: "others_kept sect key doc doc" by (simp add: others_kept_def)
  have "(items_of doc' sect key = items_of doc sect key \<or>
      (\<exists>c. remove_item (\<lambda>x. mappingField x field = name) (items_of doc sect key) = (c, items_of doc' sect key))) \<and>
      others_kept sect key doc doc' \<and> tidy_document doc'"
  proof (cases "sect = []")
    case True
    then obtain r r' where r: "documentRoot doc = Some r" "removeSequenceItemIn r key field name = Inr (b, r')" "doc' = with_root doc r'"
      using in_root_Inr [of doc "\<lambda>r. removeSequenceItemIn r key field name" b doc'] run by (auto simp: delete_edit_def removeSequenceItem_def)
    have idle: "with_root doc r = doc"
      using r(1) by (cases doc) (auto simp: documentRoot_def with_root_def with_content_def split: option.splits if_splits list.splits)
    have i: "items_of doc [] key = items_in key (Some r)" by (simp add: items_of_def r(1))
    from removeIn_effect [OF r(2) documentRoot_sound [OF d r(1)] documentRoot_kind [OF r(1)]] show ?thesis
    proof
      assume "r' = r"
      then show ?thesis using idle r(3) same assms(2) by simp
    next
      assume "\<exists>seq c. sound_node seq \<and> YKind seq = SequenceNode \<and> r' = set_child r key seq \<and>
        remove_item (\<lambda>x. mappingField x field = name) (items_in key (Some r)) = (c, YContent seq)"
      then show ?thesis using top_edit [of key field, OF _ r(1) assms(2)] assms(1) True r(3) i by auto
    qed
  next
    case False
    show ?thesis
    proof (cases "\<exists>r v. documentRoot doc = Some r \<and> childValue r sect = Some v")
      case True
      then obtain r v where r: "documentRoot doc = Some r" "childValue r sect = Some v" by blast
      then obtain v' where v': "removeSequenceItemIn v key field name = Inr (b, v')" "doc' = with_root doc (set_child r sect v')"
        using in_found_section_Inr [of doc sect "\<lambda>p. removeSequenceItemIn p key field name" b doc'] run False by (auto simp: delete_edit_def)
      have dummy: "sound_node (YNode SequenceNode [] [] [])" "YKind (YNode SequenceNode [] [] []) = SequenceNode" by simp_all
      have cv: "v = child_or MappingNode r sect" by (simp add: child_or_def r(2))
      note p = section_edit [OF assms(1) False r(1) assms(2) dummy cv refl]
      from removeIn_effect [OF v'(1)] p have "v' = v \<or> (\<exists>seq c. sound_node seq \<and> YKind seq = SequenceNode \<and> v' = set_child v key seq \<and>
          remove_item (\<lambda>x. mappingField x field = name) (items_in key (Some v)) = (c, YContent seq))" by blast
      then show ?thesis
      proof
        assume same_v: "v' = v"
        note e = root_edit [where key = sect and v = v, OF r(1) d _ refl]
        have "sound_node v" using p by blast
        from e [OF this] have f: "tidy_document doc'" "findMapping doc' k = findMapping doc k" for k
          using assms(2) same_v v'(2) findMapping_root [OF r(1)] r(2) by (auto simp: tidy_document_def)
        have "items_in k (documentRoot doc') = items_in k (documentRoot doc)" if "k \<noteq> sect" for k
          using e(4) [OF \<open>sound_node v\<close>, of k] that same_v v'(2) by simp
        then have "others_kept sect key doc doc'" using f(2) assms(1) False by (auto simp: others_kept_def items_of_def slots_def)
        moreover have "items_of doc' sect key = items_of doc sect key" using f(2) False by (simp add: items_of_def)
        ultimately show ?thesis using f(1) by blast
      next
        assume "\<exists>seq c. sound_node seq \<and> YKind seq = SequenceNode \<and> v' = set_child v key seq \<and>
          remove_item (\<lambda>x. mappingField x field = name) (items_in key (Some v)) = (c, YContent seq)"
        then show ?thesis using section_edit [OF assms(1) False r(1) assms(2) _ _ cv refl] v'(2) by auto
      qed
    next
      case no: False
      then have "doc' = doc" using run False by (auto simp: delete_edit_def in_found_section_def split: option.splits)
      then show ?thesis using same assms(2) by simp
    qed
  qed
  then show "items_of doc' sect key = items_of doc sect key \<or>
      (\<exists>c. remove_item (\<lambda>x. mappingField x field = name) (items_of doc sect key) = (c, items_of doc' sect key))"
    and "others_kept sect key doc doc'" and "tidy_document doc'" by blast+
qed

lemma item_at_items: "item_at doc (sect, key, field) name = find (\<lambda>x. mappingField x field = name) (items_of doc sect key)"
  by (simp add: item_at_def items_of_def)

lemma slot_unique: "(s, k, f) \<in> set slots \<Longrightarrow> (s, k, f') \<in> set slots \<Longrightarrow> f = f'"
  by (auto simp: slots_def)

lemma put_edit_item:
  assumes "sl \<in> set slots" and "tidy_document doc" and "sound_node node" and "mappingField node (snd (snd sl)) = name"
    and "put_edit sl name (Some node) doc = Inr (b, doc')"
  shows "tidy_document doc'" and "item_at doc' sl name = Some node"
    and "sl' \<in> set slots \<Longrightarrow> (sl', name') \<noteq> (sl, name) \<Longrightarrow> item_at doc' sl' name' = item_at doc sl' name'"
proof -
  obtain sect key field where sl: "sl = (sect, key, field)" by (cases sl)
  note e = put_edit_lists [OF assms(1,2,3,5) [unfolded sl]]
  show "tidy_document doc'" by (rule e)
  from e(1) obtain c where u: "upsert_item (\<lambda>x. mappingField x field = name) node (items_of doc sect key) = (c, items_of doc' sect key)" by blast
  have n: "mappingField node field = name" using assms(4) sl by simp
  show "item_at doc' sl name = Some node" unfolding sl item_at_items by (rule upsert_item_finds [OF u n])
  assume other: "sl' \<in> set slots" "(sl', name') \<noteq> (sl, name)"
  obtain s' k' f' where sl': "sl' = (s', k', f')" by (cases sl')
  show "item_at doc' sl' name' = item_at doc sl' name'"
  proof (cases "(s', k') = (sect, key)")
    case True
    then have f': "f' = field" using slot_unique other(1) assms(1) sl sl' by blast
    then have "name' \<noteq> name" using other(2) True sl sl' by auto
    then show ?thesis unfolding sl' item_at_items f' using True upsert_item_other [OF u, of "\<lambda>x. mappingField x field = name'"] n by simp
  next
    case False
    then show ?thesis using e(2) other(1) sl' by (auto simp: others_kept_def item_at_items)
  qed
qed

lemma delete_edit_item:
  assumes "sl \<in> set slots" and "tidy_document doc" and "delete_edit sl name doc = Inr (b, doc')"
  shows "tidy_document doc'" and "sl' \<in> set slots \<Longrightarrow> (sl', name') \<noteq> (sl, name) \<Longrightarrow> item_at doc' sl' name' = item_at doc sl' name'"
proof -
  obtain sect key field where sl: "sl = (sect, key, field)" by (cases sl)
  note e = delete_edit_lists [OF assms [unfolded sl]]
  show "tidy_document doc'" by (rule e)
  assume other: "sl' \<in> set slots" "(sl', name') \<noteq> (sl, name)"
  obtain s' k' f' where sl': "sl' = (s', k', f')" by (cases sl')
  show "item_at doc' sl' name' = item_at doc sl' name'"
  proof (cases "(s', k') = (sect, key)")
    case True
    then have f': "f' = field" using slot_unique other(1) assms(1) sl sl' by blast
    then have "name' \<noteq> name" using other(2) True sl sl' by auto
    then show ?thesis unfolding sl' item_at_items f' using True e(1) remove_item_other [of "\<lambda>x. mappingField x field = name" _ _ _ "\<lambda>x. mappingField x field = name'"]
      by auto
  next
    case False
    then show ?thesis using e(2) other(1) sl' by (auto simp: others_kept_def item_at_items)
  qed
qed

subsection \<open>Acknowledged edits\<close>

text \<open>What is used of the YAML package: a well-formed document is read back as it was written, up to styles and comments.\<close>

definition yaml_codec :: "(string \<Rightarrow> yaml_node option) \<Rightarrow> (yaml_node \<Rightarrow> string option) \<Rightarrow> bool" where
  "yaml_codec unmarshal marshal \<longleftrightarrow>
     (\<forall>d t. sound_node d \<longrightarrow> marshal d = Some t \<longrightarrow> (\<exists>d'. unmarshal t = Some d' \<and> strip d' = strip d))"

text \<open>The edits the handlers make, by slot.\<close>

lemma handler_edits:
  "upsertSequenceItem doc ''feeds'' ''name'' name v = put_edit ([], ''feeds'', ''name'') name v doc"
  "upsertSequenceItem doc ''access_policies'' ''name'' name v = put_edit ([], ''access_policies'', ''name'') name v doc"
  "upsertSequenceItem doc ''bindings'' ''name'' name v = put_edit ([], ''bindings'', ''name'') name v doc"
  "in_section doc ''auth'' (\<lambda>p. upsertSequenceItemIn p ''oidc_issuers'' ''issuer'' name v) = put_edit (''auth'', ''oidc_issuers'', ''issuer'') name v doc"
  "in_section doc ''replication'' (\<lambda>p. upsertSequenceItemIn p ''peers'' ''name'' name v) = put_edit (''replication'', ''peers'', ''name'') name v doc"
  "removeSequenceItem doc ''feeds'' ''name'' name = delete_edit ([], ''feeds'', ''name'') name doc"
  "removeSequenceItem doc ''access_policies'' ''name'' name = delete_edit ([], ''access_policies'', ''name'') name doc"
  "removeSequenceItem doc ''bindings'' ''name'' name = delete_edit ([], ''bindings'', ''name'') name doc"
  "in_found_section doc ''auth'' (\<lambda>p. removeSequenceItemIn p ''oidc_issuers'' ''issuer'' name) = delete_edit (''auth'', ''oidc_issuers'', ''issuer'') name doc"
  "in_found_section doc ''replication'' (\<lambda>p. removeSequenceItemIn p ''peers'' ''name'' name) = delete_edit (''replication'', ''peers'', ''name'') name doc"
  by (simp_all add: put_edit_def delete_edit_def)

definition put_ack :: "(string \<Rightarrow> yaml_node option) \<Rightarrow> (yaml_node \<Rightarrow> string option) \<Rightarrow> slot \<Rightarrow> string \<Rightarrow> yaml_node \<Rightarrow> acknowledged \<Rightarrow> bool" where
  "put_ack unmarshal marshal sl name node a \<longleftrightarrow> sl \<in> set slots \<and> sound_node node \<and> mappingField node (snd (snd sl)) = name \<and>
     (\<exists>ifMatch. a = Edit_ack ifMatch (edit_text unmarshal marshal (put_edit sl name (Some node))))"

definition elsewhere :: "(string \<Rightarrow> yaml_node option) \<Rightarrow> (yaml_node \<Rightarrow> string option) \<Rightarrow> slot \<Rightarrow> string \<Rightarrow> acknowledged \<Rightarrow> bool" where
  "elsewhere unmarshal marshal sl name a \<longleftrightarrow>
     (\<exists>sl' name'. (sl', name') \<noteq> (sl, name) \<and>
        ((\<exists>node. put_ack unmarshal marshal sl' name' node a) \<or>
         (sl' \<in> set slots \<and> (\<exists>ifMatch. a = Edit_ack ifMatch (edit_text unmarshal marshal (delete_edit sl' name'))))))"

definition holds_item :: "(string \<Rightarrow> yaml_node option) \<Rightarrow> slot \<Rightarrow> string \<Rightarrow> yaml_node option \<Rightarrow> string option \<Rightarrow> bool" where
  "holds_item unmarshal sl name item d \<longleftrightarrow>
     (\<exists>raw doc. d = Some raw \<and> unmarshal raw = Some doc \<and> tidy_document doc \<and> map_option strip (item_at doc sl name) = map_option strip item)"

lemma sound_strip: "sound_node (strip n) = sound_node n"
  by (induction n) (simp add: list_all_iff)

lemma tidy_strip: "strip d' = strip d \<Longrightarrow> tidy_document d' = tidy_document d"
proof -
  assume e: "strip d' = strip d"
  have K: "map_option YKind (findMapping d' k) = map_option YKind (findMapping d k)" for k
    using arg_cong [OF e, of "\<lambda>d. map_option YKind (findMapping d k)"] by (simp add: findMapping_strip option.map_comp comp_def)
  have S: "sound_node d' = sound_node d" using sound_strip [of d'] sound_strip [of d] e by simp
  have T: "(\<forall>v. findMapping doc k = Some v \<longrightarrow> YKind v = MappingNode) \<longleftrightarrow> map_option YKind (findMapping doc k) \<in> {None, Some MappingNode}" for doc k
    by (cases "findMapping doc k") auto
  show ?thesis unfolding tidy_document_def T K S ..
qed

lemma marshalled_item:
  assumes "yaml_codec unmarshal marshal" and "tidy_document doc" and "marshal doc = Some t"
  shows "holds_item unmarshal sl name (item_at doc sl name) (Some t)"
proof -
  obtain d where d: "unmarshal t = Some d" "strip d = strip doc" using assms unfolding yaml_codec_def tidy_document_def by blast
  have "map_option strip (item_at d sl name) = map_option strip (item_at doc sl name)"
    using d(2) item_at_strip [of d sl name] item_at_strip [of doc sl name] by simp
  then show ?thesis unfolding holds_item_def using d tidy_strip [OF d(2)] assms(2) by blast
qed

lemma applied_put:
  assumes "yaml_codec unmarshal marshal" and "put_ack unmarshal marshal sl name node a" and "holds_item unmarshal sl' name' item d"
    and "apply_ack sha a d = Some d'"
  shows "holds_item unmarshal sl name (Some node) d'" and "sl' \<in> set slots \<Longrightarrow> (sl', name') \<noteq> (sl, name) \<Longrightarrow> holds_item unmarshal sl' name' item d'"
proof -
  obtain raw doc where d: "d = Some raw" "unmarshal raw = Some doc" "tidy_document doc" "map_option strip (item_at doc sl' name') = map_option strip item"
    using assms(3) by (auto simp: holds_item_def)
  obtain doc' b t where e: "put_edit sl name (Some node) doc = Inr (b, doc')" "marshal doc' = Some t" "d' = Some t"
    using assms(2,4) d(1,2) by (auto simp: put_ack_def edit_text_def split: if_splits sum.splits option.splits)
  have a: "sl \<in> set slots" "sound_node node" "mappingField node (snd (snd sl)) = name" using assms(2) by (auto simp: put_ack_def)
  note p = put_edit_item [OF a(1) d(3) a(2,3) e(1)]
  show "holds_item unmarshal sl name (Some node) d'" using marshalled_item [OF assms(1) p(1) e(2), of sl name] p(2) e(3) by simp
  show "holds_item unmarshal sl' name' item d'" if "sl' \<in> set slots" "(sl', name') \<noteq> (sl, name)"
    using marshalled_item [OF assms(1) p(1) e(2), of sl' name'] p(3) [OF that] e(3) d(4) by (simp add: holds_item_def)
qed

lemma applied_elsewhere:
  assumes "yaml_codec unmarshal marshal" and "elsewhere unmarshal marshal sl name a" and "sl \<in> set slots" and "holds_item unmarshal sl name item d"
    and "apply_ack sha a d = Some d'"
  shows "holds_item unmarshal sl name item d'"
proof -
  obtain sl' name' where n: "(sl', name') \<noteq> (sl, name)"
    and "(\<exists>node. put_ack unmarshal marshal sl' name' node a) \<or>
      (sl' \<in> set slots \<and> (\<exists>ifMatch. a = Edit_ack ifMatch (edit_text unmarshal marshal (delete_edit sl' name'))))"
    using assms(2) unfolding elsewhere_def by (elim exE conjE) (rule that)
  then show ?thesis
  proof (elim disjE exE conjE)
    fix node
    assume "put_ack unmarshal marshal sl' name' node a"
    from applied_put(2) [OF assms(1) this assms(4,5,3) n [symmetric]] show ?thesis .
  next
    fix ifMatch
    assume sl': "sl' \<in> set slots" and a: "a = Edit_ack ifMatch (edit_text unmarshal marshal (delete_edit sl' name'))"
    obtain raw doc where d: "d = Some raw" "unmarshal raw = Some doc" "tidy_document doc" "map_option strip (item_at doc sl name) = map_option strip item"
      using assms(4) by (auto simp: holds_item_def)
    obtain doc' b t where e: "delete_edit sl' name' doc = Inr (b, doc')" "marshal doc' = Some t" "d' = Some t"
      using assms(5) d(1,2) a by (auto simp: edit_text_def split: if_splits sum.splits option.splits)
    note p = delete_edit_item [OF sl' d(3) e(1)]
    show ?thesis using marshalled_item [OF assms(1) p(1) e(2), of sl name] p(2) [OF assms(3) n [symmetric]] e(3) d(4) by (simp add: holds_item_def)
  qed
qed

lemma replay_Some: "fold (\<lambda>a r. Option.bind r (apply_ack sha a)) as r = Some d' \<Longrightarrow> \<exists>d. r = Some d \<and> replay sha as d = Some d'"
proof (cases r)
  case None
  have "fold (\<lambda>a r. Option.bind r (apply_ack sha a)) as None = None" by (induction as) auto
  then show "fold (\<lambda>a r. Option.bind r (apply_ack sha a)) as r = Some d' \<Longrightarrow> \<exists>d. r = Some d \<and> replay sha as d = Some d'" using None by simp
qed (simp add: replay_def)

lemma replay_append: "replay sha (as @ bs) d = Some d' \<Longrightarrow> \<exists>d1. replay sha as d = Some d1 \<and> replay sha bs d1 = Some d'"
  using replay_Some [of sha bs "replay sha as d" d'] by (simp add: replay_def)

lemma replay_Cons: "replay sha (a # as) d = Some d' \<Longrightarrow> \<exists>d1. apply_ack sha a d = Some d1 \<and> replay sha as d1 = Some d'"
  using replay_Some [of sha as "apply_ack sha a d" d'] by (simp add: replay_def)

lemma replay_elsewhere:
  assumes "yaml_codec unmarshal marshal" and "sl \<in> set slots"
  shows "list_all (elsewhere unmarshal marshal sl name) as \<Longrightarrow> holds_item unmarshal sl name item d \<Longrightarrow> replay sha as d = Some d' \<Longrightarrow>
    holds_item unmarshal sl name item d'"
proof (induction as arbitrary: d)
  case Nil
  then show ?case by (simp add: replay_def)
next
  case (Cons a as)
  from replay_Cons [OF Cons.prems(3)] obtain d1 where d1: "apply_ack sha a d = Some d1" "replay sha as d1 = Some d'" by blast
  have "elsewhere unmarshal marshal sl name a" "list_all (elsewhere unmarshal marshal sl name) as" using Cons.prems(1) by simp_all
  then show ?case using Cons.IH [OF _ applied_elsewhere [OF assms(1) _ assms(2) Cons.prems(2) d1(1)] d1(2)] by blast
qed


subsection \<open>An example\<close>

text \<open>A feed and a peer are put into an empty document, which has three texts.\<close>

definition named :: "string \<Rightarrow> yaml_node" where
  "named name = YNode MappingNode [] [] [scalar ''name'', scalar name]"

definition listed_as :: "string \<Rightarrow> yaml_node list \<Rightarrow> yaml_node list" where
  "listed_as key items = [scalar key, YNode SequenceNode [] [] items]"

definition mapping_document :: "yaml_node list \<Rightarrow> yaml_node" where
  "mapping_document c = YNode DocumentNode [] [] [YNode MappingNode [] [] c]"

definition with_feed :: yaml_node where "with_feed = mapping_document (listed_as ''feeds'' [named ''a''])"

definition with_peer :: yaml_node where
  "with_peer = mapping_document (listed_as ''feeds'' [named ''a''] @ [scalar ''replication'', YNode MappingNode [] [] (listed_as ''peers'' [named ''b''])])"

text \<open>A section written as \<open>replication:\<close> with nothing below it is a scalar to the parser.  The edit is put under the
  scalar, where no reader of the section looks, and is reported as a creation.\<close>

lemma empty_section_swallows_the_edit:
  "case put_edit (''replication'', ''peers'', ''name'') ''b'' (Some (named ''b'')) (mapping_document [scalar ''replication'', scalar []]) of
     Inr (created, doc) \<Rightarrow> created \<and> item_at doc (''replication'', ''peers'', ''name'') ''b'' = None | Inl _ \<Rightarrow> False"
  by code_simp

definition example_unmarshal :: "string \<Rightarrow> yaml_node option" where
  "example_unmarshal t = map_of [(''a'', mapping_document []), (''f'', with_feed), (''p'', with_peer)] t"

definition example_marshal :: "yaml_node \<Rightarrow> string option" where
  "example_marshal d = (if d = with_feed then Some ''f'' else if d = with_peer then Some ''p'' else None)"

abbreviation put_feed :: "string \<Rightarrow> edit_error + string" where
  "put_feed \<equiv> edit_text example_unmarshal example_marshal (put_edit ([], ''feeds'', ''name'') ''a'' (Some (named ''a'')))"

abbreviation put_peer :: "string \<Rightarrow> edit_error + string" where
  "put_peer \<equiv> edit_text example_unmarshal example_marshal (put_edit (''replication'', ''peers'', ''name'') ''b'' (Some (named ''b'')))"

definition editing_steps :: "(os, os \<times> os \<times> int) config_step list" where
  "editing_steps = [Start 0 Works, Start 1 Works, Edit_at 0 Held Works (Works, Works, 1) [] put_feed, Edit_at 1 Held Works (Works, Works, 2) [] put_peer]"

definition editing_run :: "fs fleet \<times> acknowledged list" where
  "editing_run = run_steps example_loader (\<lambda>_. True) (store_Read id ''c'') (store_Write id ''c'') editing_steps example_objects"

lemma editing_acks: "length (snd editing_run) = 2"
  by code_simp

lemma step_acks:
  "snd (run_step parse validate read put (Edit_at i l r w ifMatch fn) x) = snd x \<or>
   snd (run_step parse validate read put (Edit_at i l r w ifMatch fn) x) = snd x @ [Edit_ack ifMatch fn]"
  "snd (run_step parse validate read put (Start i r) x) = snd x"
  by (auto simp: run_step_def Let_def finish_def split: option.splits prod.splits sum.splits)

lemma editing_run_acks: "snd editing_run = [Edit_ack [] put_feed, Edit_ack [] put_peer]"
proof -
  let ?step = "run_step example_loader (\<lambda>_. True) (store_Read id ''c'') (store_Write id ''c'')"
  define x where "x = ?step (Start 1 Works) (?step (Start 0 Works) (\<lparr>FtSource = example_objects, FtManagers = (\<lambda>_. None)\<rparr>, []))"
  define y where "y = ?step (Edit_at 0 Held Works (Works, Works, 1) [] put_feed) x"
  have r: "editing_run = ?step (Edit_at 1 Held Works (Works, Works, 2) [] put_peer) y"
    by (simp add: editing_run_def run_steps_def editing_steps_def x_def y_def)
  have x: "snd x = []" by (simp add: x_def step_acks(2))
  have y: "snd y = [] \<or> snd y = [Edit_ack [] put_feed]" using step_acks(1) [of example_loader "\<lambda>_. True" "store_Read id ''c''" "store_Write id ''c''" 0 Held Works "(Works, Works, 1)" "[]" put_feed x] x
    by (simp add: y_def)
  have "snd editing_run = snd y \<or> snd editing_run = snd y @ [Edit_ack [] put_peer]" unfolding r by (rule step_acks(1))
  then show ?thesis using editing_acks y by auto
qed

lemma example_marshal_range: "example_marshal d = Some t \<Longrightarrow> length t = 1"
  by (auto simp: example_marshal_def split: if_splits)

lemma editing_within_limit: "list_all within_limit editing_steps"
proof -
  have "int (length new) \<le> maxObject" if "edit_text example_unmarshal example_marshal g raw = Inr new" for g raw new
    using that by (auto simp: edit_text_def maxObject_def dest!: example_marshal_range split: option.splits sum.splits prod.splits)
  then show ?thesis by (auto simp: editing_steps_def)
qed

lemma example_codec: "yaml_codec example_unmarshal example_marshal"
  by (auto simp: yaml_codec_def example_marshal_def example_unmarshal_def split: if_splits)

lemma named_sound: "sound_node (named n)" "mappingField (named n) ''name'' = n"
  by (simp_all add: named_def scalar_def mappingField_def childValue_def)


end
