(* ===== verification/Auth_Tokens.thy ===== *)
theory Auth_Tokens
  imports Access_Engine
begin

text \<open>
  Callers (\<^verbatim>\<open>src/core/api/types.go\<close>) and the verification of static tokens
  (\<^verbatim>\<open>src/core/auth/token.go\<close>): the cache in front of the database, its use while the database is out
  of reach, and the sweep that evicts revoked tokens.  Times are nanoseconds.  The hash of a secret is
  an argument.  A request looks its token up and stores the verdict later, so both halves are steps of
  their own and other requests and sweeps may run in between.
\<close>

subsection \<open>Callers\<close>

record caller = identity +
  Stale :: bool

definition IdentityAnonymous :: string where "IdentityAnonymous = ''anonymous''"
definition IdentityToken :: string where "IdentityToken = ''token''"
definition IdentityOIDC :: string where "IdentityOIDC = ''oidc''"

lemmas identity_kind_defs = IdentityAnonymous_def IdentityToken_def IdentityOIDC_def

definition zero_caller :: caller where
  "zero_caller = \<lparr>Kind = [], Subject = [], Issuer = [], ProjectPath = [], Ref = [], Stale = False\<rparr>"

definition anonymous_caller :: caller where
  "anonymous_caller = zero_caller\<lparr>Kind := IdentityAnonymous, Subject := ''anonymous''\<rparr>"

definition caller_String :: "caller \<Rightarrow> string" where
  "caller_String i = Kind i @ '':'' @ Subject i"

definition ParseIdentity :: "string \<Rightarrow> caller" where
  "ParseIdentity s =
     (case str_cut s '':'' of (kind, subject, ok) \<Rightarrow>
        if \<not> ok then zero_caller\<lparr>Kind := IdentityAnonymous, Subject := s\<rparr>
        else zero_caller\<lparr>Subject := subject,
          Kind := (if kind = IdentityToken then IdentityToken else if kind = IdentityOIDC then IdentityOIDC else IdentityAnonymous)\<rparr>)"

subsection \<open>The token table\<close>

record token_row =
  RowName :: string
  RowHash :: string
  RevokedAt :: "int option"

datatype lookup_failure = ErrUnavailable | StateUnavailable | DeadlineExceeded | NetError | OtherError

datatype lookup_reply = Found string | ErrNotFound | Failed lookup_failure

definition Lookup :: "token_row list \<Rightarrow> string \<Rightarrow> lookup_reply" where
  "Lookup rows hash =
     (case find (\<lambda>r. RowHash r = hash \<and> RevokedAt r = None) rows of None \<Rightarrow> ErrNotFound | Some r \<Rightarrow> Found (RowName r))"

definition second :: int where "second = 1000000000"

definition RecentlyRevoked :: "int \<Rightarrow> int \<Rightarrow> token_row list \<Rightarrow> string list" where
  "RecentlyRevoked now since rows =
     map RowHash (filter (\<lambda>r. case RevokedAt r of None \<Rightarrow> False | Some at \<Rightarrow> at > now - since div second * second) rows)"

subsection \<open>The verifier\<close>

record token_cache_entry =
  EName :: string
  EExpires :: int
  EStaleUntil :: int

record verifier =
  Ttl :: int
  StaleFor :: int
  Cache :: "string \<Rightarrow> token_cache_entry option"

definition defaultStaleWindow :: int where "defaultStaleWindow = 6 * 3600 * second"

definition NewTokenVerifier :: "int \<Rightarrow> verifier" where
  "NewTokenVerifier ttl = \<lparr>Ttl = ttl, StaleFor = defaultStaleWindow, Cache = (\<lambda>_. None)\<rparr>"

definition SetStaleWindow :: "int \<Rightarrow> verifier \<Rightarrow> verifier" where
  "SetStaleWindow d v = v\<lparr>StaleFor := d\<rparr>"

definition isBackendUnreachable :: "lookup_failure \<Rightarrow> bool" where
  "isBackendUnreachable r \<longleftrightarrow> r = StateUnavailable \<or> r = DeadlineExceeded \<or> r = NetError"

datatype auth_error = Unauthorized | LookupFailed | Unavailable

definition token_identity :: "string \<Rightarrow> bool \<Rightarrow> caller" where
  "token_identity name stale = zero_caller\<lparr>Kind := IdentityToken, Subject := name, Stale := stale\<rparr>"

text \<open>The first half of \<^verbatim>\<open>Authenticate\<close>: an unexpired entry answers at once.\<close>

definition cached_identity :: "int \<Rightarrow> token_cache_entry option \<Rightarrow> caller option" where
  "cached_identity now e =
     (case e of None \<Rightarrow> None | Some e \<Rightarrow> if now < EExpires e then Some (token_identity (EName e) False) else None)"

text \<open>The second half, on what the lookup replied and the entry read before it.\<close>

definition conclude ::
  "int \<Rightarrow> string \<Rightarrow> token_cache_entry option \<Rightarrow> lookup_reply \<Rightarrow> verifier \<Rightarrow> (auth_error + caller) \<times> verifier" where
  "conclude now hash e reply v =
     (case reply of
        Found name \<Rightarrow>
          (Inr (token_identity name False),
           v\<lparr>Cache := (Cache v)(hash \<mapsto> \<lparr>EName = name, EExpires = now + Ttl v, EStaleUntil = now + StaleFor v\<rparr>)\<rparr>)
      | ErrNotFound \<Rightarrow> (Inl Unauthorized, v\<lparr>Cache := (Cache v)(hash := None)\<rparr>)
      | Failed err \<Rightarrow>
          if err \<noteq> ErrUnavailable \<and> \<not> isBackendUnreachable err then (Inl LookupFailed, v)
          else (case e of
                  None \<Rightarrow> (Inl Unavailable, v)
                | Some e \<Rightarrow>
                    if StaleFor v > 0 \<and> now < EStaleUntil e then (Inr (token_identity (EName e) True), v)
                    else (Inl Unavailable, v)))"

definition Authenticate ::
  "(string \<Rightarrow> string) \<Rightarrow> int \<Rightarrow> int \<Rightarrow> (string \<Rightarrow> lookup_reply) \<Rightarrow> string \<Rightarrow> verifier \<Rightarrow> (auth_error + caller) \<times> verifier" where
  "Authenticate hashHex now1 now2 lookup secret v =
     (let hash = hashHex secret; e = Cache v hash
      in case cached_identity now1 e of
           Some i \<Rightarrow> (Inr i, v)
         | None \<Rightarrow> conclude now2 hash e (lookup hash) v)"

definition evict :: "string \<Rightarrow> nat \<times> verifier \<Rightarrow> nat \<times> verifier" where
  "evict h = (\<lambda>(n, v). if Cache v h \<noteq> None then (Suc n, v\<lparr>Cache := (Cache v)(h := None)\<rparr>) else (n, v))"

definition Revoke_hashes :: "string list \<Rightarrow> verifier \<Rightarrow> nat \<times> verifier" where
  "Revoke_hashes hashes v = fold evict hashes (0, v)"

definition lookback :: "verifier \<Rightarrow> int" where
  "lookback v = (if Ttl v * 4 < 60 * second then 60 * second else Ttl v * 4)"

text \<open>One tick of \<^verbatim>\<open>WatchRevocations\<close>; \<open>None\<close> is a failed query.\<close>

definition sweep :: "string list option \<Rightarrow> verifier \<Rightarrow> verifier" where
  "sweep hashes v = (case hashes of None \<Rightarrow> v | Some hs \<Rightarrow> snd (Revoke_hashes hs v))"

subsection \<open>A verifier at work\<close>

record auth_site =
  Rows :: "token_row list"
  Verifier :: verifier
  InFlight :: "(string \<times> token_cache_entry option \<times> lookup_reply) list"

text \<open>
  A secret is presented, a request in flight concludes, the sweeper ticks, a token is revoked or
  created.  A request or a tick that does not reach the database carries the failure, or \<open>False\<close>.
\<close>

datatype auth_event =
    Present string "lookup_failure option"
  | Conclude nat
  | Tick bool
  | RevokeToken string
  | CreateToken string string

definition revoke_row :: "int \<Rightarrow> string \<Rightarrow> token_row \<Rightarrow> token_row" where
  "revoke_row now hash r = (if RowHash r = hash \<and> RevokedAt r = None then r\<lparr>RevokedAt := Some now\<rparr> else r)"

definition taken :: "string \<Rightarrow> string \<Rightarrow> token_row list \<Rightarrow> bool" where
  "taken name hash rows = list_ex (\<lambda>r. RowName r = name \<or> RowHash r = hash) rows"

definition auth_step ::
  "(string \<Rightarrow> string) \<Rightarrow> int \<times> auth_event \<Rightarrow> auth_site \<Rightarrow> (string \<times> (auth_error + caller)) option \<times> auth_site" where
  "auth_step hashHex = (\<lambda>(now, ev) st.
     case ev of
       Present secret outage \<Rightarrow>
         (let hash = hashHex secret; e = Cache (Verifier st) hash
          in case cached_identity now e of
               Some i \<Rightarrow> (Some (hash, Inr i), st)
             | None \<Rightarrow>
                 let reply = (case outage of None \<Rightarrow> Lookup (Rows st) hash | Some err \<Rightarrow> Failed err)
                 in (None, st\<lparr>InFlight := InFlight st @ [(hash, e, reply)]\<rparr>))
     | Conclude n \<Rightarrow>
         if n < length (InFlight st) then
           (case InFlight st ! n of (hash, e, reply) \<Rightarrow>
              case conclude now hash e reply (Verifier st) of (result, v) \<Rightarrow>
                (Some (hash, result), st\<lparr>Verifier := v, InFlight := take n (InFlight st) @ drop (Suc n) (InFlight st)\<rparr>))
         else (None, st)
     | Tick reachable \<Rightarrow>
         (None, st\<lparr>Verifier := sweep (if reachable then Some (RecentlyRevoked now (lookback (Verifier st)) (Rows st)) else None) (Verifier st)\<rparr>)
     | RevokeToken hash \<Rightarrow> (None, st\<lparr>Rows := map (revoke_row now hash) (Rows st)\<rparr>)
     | CreateToken name hash \<Rightarrow>
         (None, if taken name hash (Rows st) then st else st\<lparr>Rows := Rows st @ [\<lparr>RowName = name, RowHash = hash, RevokedAt = None\<rparr>]\<rparr>))"

fun auth_run ::
  "(string \<Rightarrow> string) \<Rightarrow> (int \<times> auth_event) list \<Rightarrow> auth_site \<Rightarrow> (int \<times> string \<times> (auth_error + caller)) list \<times> auth_site" where
  "auth_run hashHex [] st = ([], st)"
| "auth_run hashHex (ev # evs) st =
     (case auth_step hashHex ev st of (answer, st') \<Rightarrow>
        case auth_run hashHex evs st' of (answers, st'') \<Rightarrow>
          ((case answer of None \<Rightarrow> [] | Some (hash, result) \<Rightarrow> [(fst ev, hash, result)]) @ answers, st''))"

subsection \<open>Revocation\<close>

text \<open>
  A revoked token of which only verdicts satisfying \<open>P\<close> linger: revoked in the table, and no other
  verdict is cached or in the hands of a request in flight.
\<close>

definition harmless :: "(token_cache_entry \<Rightarrow> bool) \<Rightarrow> string \<Rightarrow> string \<times> token_cache_entry option \<times> lookup_reply \<Rightarrow> bool" where
  "harmless P h = (\<lambda>(h', e, reply). h' = h \<longrightarrow> pred_option P e \<and> (\<forall>name. reply \<noteq> Found name))"

definition lingers :: "(token_cache_entry \<Rightarrow> bool) \<Rightarrow> string \<Rightarrow> auth_site \<Rightarrow> bool" where
  "lingers P h st \<longleftrightarrow> (\<exists>r \<in> set (Rows st). RowHash r = h) \<and> (\<forall>r \<in> set (Rows st). RowHash r = h \<longrightarrow> RevokedAt r \<noteq> None) \<and>
     pred_option P (Cache (Verifier st) h) \<and> (\<forall>x \<in> set (InFlight st). harmless P h x)"

text \<open>An answer that rests on a lingering verdict.\<close>

definition rests_on :: "(token_cache_entry \<Rightarrow> bool) \<Rightarrow> int \<Rightarrow> auth_error + caller \<Rightarrow> bool" where
  "rests_on P now result = (case result of
     Inl _ \<Rightarrow> True
   | Inr i \<Rightarrow> (\<exists>e. P e \<and> (if Stale i then now < EStaleUntil e else now < EExpires e)))"

lemma fold_evict: "Cache (snd (fold evict hs (n, v))) h = (if h \<in> set hs then None else Cache v h)"
  by (induction hs arbitrary: n v) (auto simp: evict_def)

lemma fold_evict_settings:
  "Ttl (snd (fold evict hs (n, v))) = Ttl v" "StaleFor (snd (fold evict hs (n, v))) = StaleFor v"
  by (induction hs arbitrary: n v) (auto simp: evict_def)

lemma Lookup_gone:
  "\<forall>r \<in> set rows. RowHash r = h \<longrightarrow> RevokedAt r \<noteq> None \<Longrightarrow> Lookup rows h = ErrNotFound"
  by (auto simp: Lookup_def find_eq_None dest: find_SomeD split: option.split)

lemma conclude_other:
  "h \<noteq> h' \<Longrightarrow> Cache (snd (conclude now h' e reply v)) h = Cache v h"
  by (auto simp: conclude_def split: lookup_reply.split option.split)

lemma conclude_lingers:
  assumes "pred_option P e" "\<forall>name. reply \<noteq> Found name" "pred_option P (Cache v h)"
  shows "rests_on P now (fst (conclude now h e reply v))" "pred_option P (Cache (snd (conclude now h e reply v)) h)"
  using assms by (auto simp: conclude_def rests_on_def token_identity_def zero_caller_def split: lookup_reply.split option.split)

lemma cached_identity_rests:
  "pred_option P e \<Longrightarrow> cached_identity now e = Some i \<Longrightarrow> rests_on P now (Inr i)"
  by (auto simp: cached_identity_def rests_on_def token_identity_def zero_caller_def split: option.splits if_splits)

lemma take_drop_subset: "set (take n xs @ drop (Suc n) xs) \<subseteq> set xs"
  using set_take_subset set_drop_subset by fastforce

lemma lingers_Present:
  assumes "lingers P h st" "auth_step hashHex (now, Present secret outage) st = (answer, st')"
  shows "lingers P h st' \<and> (\<forall>result. answer = Some (h, result) \<longrightarrow> rests_on P now result)"
proof (cases "cached_identity now (Cache (Verifier st) (hashHex secret))")
  case (Some i)
  then have "st' = st" "answer = Some (hashHex secret, Inr i)" using assms(2) by (auto simp: auth_step_def Let_def)
  then show ?thesis using assms(1) Some cached_identity_rests[of P _ now i] by (auto simp: lingers_def)
next
  case None
  let ?x = "(hashHex secret, Cache (Verifier st) (hashHex secret),
      case outage of None \<Rightarrow> Lookup (Rows st) (hashHex secret) | Some err \<Rightarrow> Failed err)"
  have "harmless P h ?x"
    using assms(1) Lookup_gone[of "Rows st" h] by (auto simp: harmless_def lingers_def split: option.split)
  moreover have "st' = st\<lparr>InFlight := InFlight st @ [?x]\<rparr>" "answer = None"
    using assms(2) None by (simp_all add: auth_step_def Let_def)
  ultimately show ?thesis using assms(1) by (auto simp: lingers_def)
qed

lemma lingers_Conclude:
  assumes "lingers P h st" "auth_step hashHex (now, Conclude n) st = (answer, st')"
  shows "lingers P h st' \<and> (\<forall>result. answer = Some (h, result) \<longrightarrow> rests_on P now result)"
proof (cases "n < length (InFlight st)")
  case True
  obtain h' e reply where item: "InFlight st ! n = (h', e, reply)" by (metis surj_pair)
  obtain result v where c: "conclude now h' e reply (Verifier st) = (result, v)" by force
  have here: "(h', e, reply) \<in> set (InFlight st)" using True item nth_mem by metis
  have "pred_option P (Cache v h) \<and> (h' = h \<longrightarrow> rests_on P now result)"
  proof (cases "h' = h")
    case True
    have "harmless P h (h', e, reply)" using here assms(1) unfolding lingers_def by blast
    then show ?thesis using conclude_lingers[of P e reply "Verifier st" h now] assms(1) c True
      by (simp add: lingers_def harmless_def)
  next
    case False
    then show ?thesis using conclude_other[of h h' now e reply "Verifier st"] assms(1) c by (auto simp: lingers_def)
  qed
  moreover have "st' = st\<lparr>Verifier := v, InFlight := take n (InFlight st) @ drop (Suc n) (InFlight st)\<rparr>" "answer = Some (h', result)"
    using assms(2) True item c by (simp_all add: auth_step_def)
  ultimately show ?thesis using assms(1) take_drop_subset[of n "InFlight st"] unfolding lingers_def by auto
next
  case False
  then show ?thesis using assms by (simp add: auth_step_def)
qed

lemma lingers_step:
  assumes "lingers P h st" "auth_step hashHex (now, ev) st = (answer, st')"
  shows "lingers P h st' \<and> (\<forall>result. answer = Some (h, result) \<longrightarrow> rests_on P now result)"
proof (cases ev)
  case (Present secret outage)
  then show ?thesis using lingers_Present assms by blast
next
  case (Conclude n)
  then show ?thesis using lingers_Conclude assms by blast
next
  case (Tick reachable)
  then show ?thesis using assms by (auto simp: auth_step_def lingers_def sweep_def Revoke_hashes_def fold_evict)
next
  case (RevokeToken hash)
  then show ?thesis using assms by (auto simp: auth_step_def lingers_def revoke_row_def)
next
  case (CreateToken name hash)
  have "taken name h (Rows st)" using assms(1) by (auto simp: lingers_def taken_def list_ex_iff)
  then show ?thesis using assms CreateToken by (cases "hash = h") (auto simp: auth_step_def lingers_def split: if_splits)
qed

lemma lingers_run:
  "lingers P h st \<Longrightarrow> (t, h, result) \<in> set (fst (auth_run hashHex evs st)) \<Longrightarrow> rests_on P t result"
proof (induction evs arbitrary: st)
  case (Cons ev evs)
  obtain now e where ev: "ev = (now, e)" by (cases ev)
  obtain answer st' where step: "auth_step hashHex (now, e) st = (answer, st')" by force
  note s = lingers_step[OF Cons.prems(1) step]
  from Cons.prems(2) show ?case using Cons.IH[of st'] s step ev
    by (auto split: prod.splits option.splits)
qed simp


definition example_token :: token_row where
  "example_token = \<lparr>RowName = ''ci'', RowHash = ''h'', RevokedAt = Some (10 * second)\<rparr>"

definition example_entry :: token_cache_entry where
  "example_entry = \<lparr>EName = ''ci'', EExpires = 300 * second, EStaleUntil = defaultStaleWindow\<rparr>"

definition revoked_site :: auth_site where
  "revoked_site = \<lparr>Rows = [example_token], Verifier = (NewTokenVerifier (300 * second))\<lparr>Cache := [''h'' \<mapsto> example_entry]\<rparr>, InFlight = []\<rparr>"


subsection \<open>Without the sweep\<close>

text \<open>
  Even when no sweep ever reaches the database, a revocation takes hold within the cache periods.
  When the token is revoked and no verified reply for it is in flight, a later request at time t is
  accepted only below the expiry a verdict already held then: before the latest cache expiry, or,
  marked stale, before the latest stale deadline.
\<close>

theorem revocation_bound_without_sweep:
  assumes "\<exists>r \<in> set (Rows st). RowHash r = h" "\<forall>r \<in> set (Rows st). RowHash r = h \<longrightarrow> RevokedAt r \<noteq> None"
    and "\<forall>e. Cache (Verifier st) h = Some e \<longrightarrow> EExpires e \<le> fresh \<and> EStaleUntil e \<le> stale"
    and "\<forall>(h', e, reply) \<in> set (InFlight st). h' \<noteq> h"
    and "(t, h, Inr i) \<in> set (fst (auth_run hashHex evs st))"
  shows "if Stale i then t < stale else t < fresh"
proof -
  have "lingers (\<lambda>e. EExpires e \<le> fresh \<and> EStaleUntil e \<le> stale) h st"
    using assms(1-4) by (auto simp: lingers_def harmless_def pred_option_def)
  from lingers_run[OF this assms(5)] show ?thesis by (auto simp: rests_on_def)
qed

theorem revocation_bound_without_sweep_witness:
  "(20 * second, ''h'', Inr (token_identity ''ci'' False)) \<in> set (fst (auth_run (\<lambda>_. ''h'') [(20 * second, Present ''reg_x'' None)] revoked_site)) \<and>
   20 * second < 300 * second"
proof -
  have mem: "(20 * second, ''h'', Inr (token_identity ''ci'' False)) \<in> set (fst (auth_run (\<lambda>_. ''h'') [(20 * second, Present ''reg_x'' None)] revoked_site))"
    by code_simp
  have "if Stale (token_identity ''ci'' False) then 20 * second < defaultStaleWindow else 20 * second < 300 * second"
    by (rule revocation_bound_without_sweep[OF _ _ _ _ mem])
      (simp_all add: revoked_site_def example_token_def example_entry_def NewTokenVerifier_def second_def)
  then show ?thesis using mem by (simp add: token_identity_def)
qed

subsection \<open>What the sweep misses\<close>

text \<open>
  A sweep that reaches the database can miss a revoked token that is still cached.  The sweep looks
  back four cache periods, but a cached verdict outlives its expiry by the stale window.  With the
  default settings: verified at 0, revoked at 10 seconds while this process cannot reach the database
  for half an hour; the sweep at 1800 seconds succeeds and does not list the token; when the database
  is next out of reach, the token is accepted as stale, 30 minutes after it was revoked.
\<close>

theorem sweep_misses_stale_tokens:
  "fst (auth_run (\<lambda>_. ''h'')
     [(0, Present ''reg_x'' None), (0, Conclude 0), (10 * second, RevokeToken ''h''), (600 * second, Tick False),
      (1800 * second, Tick True), (1810 * second, Present ''reg_x'' (Some NetError)), (1810 * second, Conclude 0)]
     \<lparr>Rows = [\<lparr>RowName = ''ci'', RowHash = ''h'', RevokedAt = None\<rparr>], Verifier = NewTokenVerifier (300 * second), InFlight = []\<rparr>)
   = [(0, ''h'', Inr (token_identity ''ci'' False)), (1810 * second, ''h'', Inr (token_identity ''ci'' True))]"
  by code_simp

end
