(* ===== verification/Auth_Request.thy ===== *)
theory Auth_Request
  imports Auth_Tokens Config_Types
begin

text \<open>
  Who is calling: \<^verbatim>\<open>src/core/auth/oidc.go\<close> and \<^verbatim>\<open>auth.go\<close>.  The JWT and JWKS libraries and the
  HTTP exchange with an issuer are arguments: parsing without verification, parsing against a key set
  and an issuer, fetching a key set, and fetching a discovery document.
\<close>

subsection \<open>OpenID Connect\<close>

datatype claim = StringClaim string | OtherClaim

record jwt =
  JIssuer :: string
  JSubject :: string
  JAudience :: "string list"
  JClaims :: "(string \<times> claim) list"

record discovery_doc =
  DocIssuer :: string
  DocAuthorization :: string
  DocToken :: string
  DocJWKS :: string

record jwt_library =
  parse_insecure :: "string \<Rightarrow> jwt option"
  parse_verified :: "string \<Rightarrow> string \<Rightarrow> string \<Rightarrow> jwt option"
  fetch_jwks :: "string \<Rightarrow> bool"
  fetch_doc :: "string \<Rightarrow> discovery_doc option"

record issuer_verifier =
  VConfig :: oidc_issuer
  VSet :: "string option"
  VDoc :: "discovery_doc option"

definition NewOIDC :: "oidc_issuer list \<Rightarrow> string \<Rightarrow> issuer_verifier option" where
  "NewOIDC issuers name =
     map_option (\<lambda>i. \<lparr>VConfig = i, VSet = None, VDoc = None\<rparr>) (find (\<lambda>i. OIssuer i = name) (rev issuers))"

definition acceptableAudiences :: "oidc_issuer \<Rightarrow> string list" where
  "acceptableAudiences cfg =
     (if Audience cfg \<noteq> [] then [Audience cfg] else []) @
     (if ClientID cfg \<noteq> [] \<and> ClientID cfg \<noteq> Audience cfg then [ClientID cfg] else [])"

definition hasAudience :: "string list \<Rightarrow> string list \<Rightarrow> bool" where
  "hasAudience have want = list_ex (\<lambda>w. list_ex (\<lambda>h. h = w) have) want"

definition stringClaim :: "jwt \<Rightarrow> string \<Rightarrow> string option" where
  "stringClaim tok name = (case map_of (JClaims tok) name of Some (StringClaim s) \<Rightarrow> Some s | _ \<Rightarrow> None)"

definition fetchDiscovery :: "jwt_library \<Rightarrow> string \<Rightarrow> discovery_doc option" where
  "fetchDiscovery lib issuer =
     (case fetch_doc lib (trim_suffix issuer ''/'' @ ''/.well-known/openid-configuration'') of
        None \<Rightarrow> None
      | Some doc \<Rightarrow>
          if DocIssuer doc \<noteq> [] \<and> trim_suffix (DocIssuer doc) ''/'' \<noteq> trim_suffix issuer ''/'' then None
          else Some doc)"

definition discoverLocked :: "jwt_library \<Rightarrow> issuer_verifier \<Rightarrow> discovery_doc option \<times> issuer_verifier" where
  "discoverLocked lib v =
     (case VDoc v of
        Some doc \<Rightarrow> (Some doc, v)
      | None \<Rightarrow>
          (case fetchDiscovery lib (OIssuer (VConfig v)) of
             None \<Rightarrow> (None, v)
           | Some doc \<Rightarrow> (Some doc, v\<lparr>VDoc := Some doc\<rparr>)))"

text \<open>A key set is named by the URL it is fetched from.\<close>

definition keySet :: "jwt_library \<Rightarrow> issuer_verifier \<Rightarrow> string option \<times> issuer_verifier" where
  "keySet lib v =
     (case VSet v of
        Some url \<Rightarrow> (Some url, v)
      | None \<Rightarrow>
          let (url, v) =
            (if JWKSURL (VConfig v) \<noteq> [] then (Some (JWKSURL (VConfig v)), v)
             else (case discoverLocked lib v of
                     (None, v) \<Rightarrow> (None, v)
                   | (Some doc, v) \<Rightarrow> (if DocJWKS doc = [] then None else Some (DocJWKS doc), v)))
          in (case url of
                None \<Rightarrow> (None, v)
              | Some u \<Rightarrow> if fetch_jwks lib u then (Some u, v\<lparr>VSet := Some u\<rparr>) else (None, v)))"

definition oidc_identity :: "oidc_issuer \<Rightarrow> jwt \<Rightarrow> caller" where
  "oidc_identity cfg tok = zero_caller\<lparr>Kind := IdentityOIDC, Subject := JSubject tok, Issuer := OIssuer cfg,
     ProjectPath := (case stringClaim tok ''project_path'' of Some s \<Rightarrow> s | None \<Rightarrow> []),
     Ref := (case stringClaim tok ''ref'' of Some s \<Rightarrow> s | None \<Rightarrow> [])\<rparr>"

definition OIDC_Authenticate ::
  "jwt_library \<Rightarrow> string \<Rightarrow> (string \<Rightarrow> issuer_verifier option) \<Rightarrow> (auth_error + caller) \<times> (string \<Rightarrow> issuer_verifier option)" where
  "OIDC_Authenticate lib raw issuers =
     (case parse_insecure lib raw of
        None \<Rightarrow> (Inl Unauthorized, issuers)
      | Some peeked \<Rightarrow>
          (case issuers (JIssuer peeked) of
             None \<Rightarrow> (Inl Unauthorized, issuers)
           | Some v \<Rightarrow>
               (case keySet lib v of
                  (None, v) \<Rightarrow> (Inl LookupFailed, issuers(JIssuer peeked \<mapsto> v))
                | (Some url, v) \<Rightarrow>
                    ((case parse_verified lib url (OIssuer (VConfig v)) raw of
                        None \<Rightarrow> Inl Unauthorized
                      | Some tok \<Rightarrow>
                          if \<not> hasAudience (JAudience tok) (acceptableAudiences (VConfig v)) then Inl Unauthorized
                          else Inr (oidc_identity (VConfig v) tok)),
                     issuers(JIssuer peeked \<mapsto> v)))))"

subsection \<open>Basic credentials\<close>

text \<open>\<^verbatim>\<open>base64.StdEncoding.DecodeString\<close>: line breaks are skipped, padding is required.\<close>

definition base64_alphabet :: string where
  "base64_alphabet = ''ABCDEFGHIJKLMNOPQRSTUVWXYZabcdefghijklmnopqrstuvwxyz0123456789+/''"

fun index_of :: "char \<Rightarrow> string \<Rightarrow> nat option" where
  "index_of c [] = None"
| "index_of c (d # ds) = (if c = d then Some 0 else map_option Suc (index_of c ds))"

definition sextet :: "char \<Rightarrow> nat option" where
  "sextet c = index_of c base64_alphabet"

definition byte :: "nat \<Rightarrow> char" where
  "byte n = char_of (n mod 256)"

fun decode_quads :: "string \<Rightarrow> string option" where
  "decode_quads [] = Some []"
| "decode_quads (a # b # c # d # rest) =
     (case (sextet a, sextet b) of
        (Some x, Some y) \<Rightarrow>
          if d = CHR ''='' \<and> rest = [] then
            (if c = CHR ''='' then Some [byte (x * 4 + y div 16)]
             else (case sextet c of
                     None \<Rightarrow> None
                   | Some z \<Rightarrow> Some [byte (x * 4 + y div 16), byte (y mod 16 * 16 + z div 4)]))
          else (case (sextet c, sextet d) of
                  (Some z, Some u) \<Rightarrow>
                    map_option (\<lambda>r. byte (x * 4 + y div 16) # byte (y mod 16 * 16 + z div 4) # byte (z mod 4 * 64 + u) # r)
                      (decode_quads rest)
                | _ \<Rightarrow> None)
      | _ \<Rightarrow> None)"
| "decode_quads _ = None"

definition base64_decode :: "string \<Rightarrow> string option" where
  "base64_decode s = decode_quads (filter (\<lambda>c. c \<noteq> CHR 0x0A \<and> c \<noteq> CHR 0x0D) s)"

text \<open>\<^verbatim>\<open>http.Request.BasicAuth\<close> on the value of the Authorization header.\<close>

definition BasicAuth :: "string \<Rightarrow> (string \<times> string) option" where
  "BasicAuth header =
     (if length header < 6 \<or> \<not> equal_fold (take 6 header) ''Basic '' then None
      else (case base64_decode (drop 6 header) of
              None \<Rightarrow> None
            | Some cs \<Rightarrow> (case str_cut cs '':'' of (user, password, ok) \<Rightarrow> if ok then Some (user, password) else None)))"

subsection \<open>The Authorization header\<close>

definition TokenPrefix :: string where "TokenPrefix = ''reg_''"

record authenticator =
  ATokens :: "verifier option"
  AIssuers :: "string \<Rightarrow> issuer_verifier option"
  AEnabled :: bool

definition credential :: "string \<Rightarrow> string option" where
  "credential header =
     (case str_cut header '' '' of (scheme, rest, ok) \<Rightarrow>
        if \<not> ok \<or> rest = [] then None
        else if equal_fold scheme ''Bearer'' then Some (trim_space rest)
        else if equal_fold scheme ''Basic'' then
          (case BasicAuth header of
             None \<Rightarrow> None
           | Some (_, password) \<Rightarrow> if trim_space password = [] then None else Some (trim_space password))
        else None)"

definition Identify ::
  "jwt_library \<Rightarrow> (string \<Rightarrow> string) \<Rightarrow> int \<Rightarrow> int \<Rightarrow> (string \<Rightarrow> lookup_reply) \<Rightarrow> string \<Rightarrow> authenticator \<Rightarrow>
   (auth_error + caller) \<times> authenticator" where
  "Identify lib hashHex now1 now2 lookup header a =
     (if header = [] then (Inr anonymous_caller, a)
      else (case credential header of
              None \<Rightarrow> (Inl Unauthorized, a)
            | Some cred \<Rightarrow>
                if has_prefix cred TokenPrefix then
                  (case ATokens a of
                     None \<Rightarrow> (Inl Unauthorized, a)
                   | Some v \<Rightarrow> (case Authenticate hashHex now1 now2 lookup cred v of (r, v') \<Rightarrow> (r, a\<lparr>ATokens := Some v'\<rparr>)))
                else if count_list cred CHR ''.'' = 2 then
                  (if \<not> AEnabled a then (Inl Unauthorized, a)
                   else (case OIDC_Authenticate lib cred (AIssuers a) of (r, is) \<Rightarrow> (r, a\<lparr>AIssuers := is\<rparr>)))
                else (Inl Unauthorized, a)))"

subsection \<open>What an identity stands for\<close>

lemma conclude_kind: "fst (conclude now h e reply v) = Inr i \<Longrightarrow> Kind i = IdentityToken"
  by (auto simp: conclude_def token_identity_def zero_caller_def split: lookup_reply.splits option.splits if_splits)

lemma Authenticate_kind: "fst (Authenticate hashHex now1 now2 lookup secret v) = Inr i \<Longrightarrow> Kind i = IdentityToken"
  by (auto simp: Authenticate_def Let_def cached_identity_def token_identity_def zero_caller_def
      split: option.splits if_splits dest: conclude_kind)

definition attested :: "jwt_library \<Rightarrow> string \<Rightarrow> caller \<Rightarrow> bool" where
  "attested lib raw i \<longleftrightarrow> (\<exists>url tok (cfg :: oidc_issuer). parse_verified lib url (OIssuer cfg) raw = Some tok \<and> Issuer i = OIssuer cfg \<and>
     Subject i = JSubject tok \<and> (\<exists>a \<in> set (JAudience tok). a \<noteq> [] \<and> (a = Audience cfg \<or> a = ClientID cfg)))"

lemma hasAudience_iff: "hasAudience have (acceptableAudiences cfg) \<longleftrightarrow> (\<exists>a \<in> set have. a \<noteq> [] \<and> (a = Audience cfg \<or> a = ClientID cfg))"
  by (auto simp: hasAudience_def acceptableAudiences_def list_ex_iff)

lemma OIDC_Authenticate_attested:
  assumes "fst (OIDC_Authenticate lib raw issuers) = Inr i"
  shows "Kind i = IdentityOIDC \<and> attested lib raw i"
  using assms
  by (fastforce simp: OIDC_Authenticate_def oidc_identity_def zero_caller_def attested_def hasAudience_iff
      split: option.splits prod.splits if_splits)


definition example_verifier :: authenticator where
  "example_verifier = \<lparr>ATokens = Some (NewTokenVerifier second), AIssuers = (\<lambda>_. None), AEnabled = False\<rparr>"

definition example_library :: jwt_library where
  "example_library = \<lparr>parse_insecure = (\<lambda>_. None), parse_verified = (\<lambda>_ _ _. None), fetch_jwks = (\<lambda>_. False), fetch_doc = (\<lambda>_. None)\<rparr>"


text \<open>
  An identity that travels as text keeps its kind and subject: parsing the printed form of a token
  or OIDC identity gives back both, whatever characters the subject contains, and the printed form of
  anything else parses as anonymous.
\<close>

theorem identity_text_round_trip:
  assumes "CHR '':'' \<notin> set (Kind i)"
  shows "Kind (ParseIdentity (caller_String i)) = (if Kind i = IdentityToken \<or> Kind i = IdentityOIDC then Kind i else IdentityAnonymous) \<and>
    Subject (ParseIdentity (caller_String i)) = Subject i"
proof -
  have "str_cut (Kind i @ CHR '':'' # Subject i) [CHR '':''] = (Kind i, Subject i, True)"
    using assms by (auto simp: str_cut_char takeWhile_append dropWhile_append takeWhile_eq_all_conv)
  then show ?thesis by (simp add: ParseIdentity_def caller_String_def zero_caller_def identity_kind_defs)
qed

theorem identity_text_round_trip_witness:
  "Subject (ParseIdentity (caller_String (token_identity ''a:b'' True))) = ''a:b''"
  using identity_text_round_trip[of "token_identity ''a:b'' True"]
  by (simp add: token_identity_def zero_caller_def identity_kind_defs)

end
