(* ===== verification/Upstream.thy ===== *)
theory Upstream
  imports Registry_Paths Decimal
begin

text \<open>
  The client of a feed's upstream, \<^verbatim>\<open>src/core/pipeline/breaker.go\<close>, \<^verbatim>\<open>upstream.go\<close> and
  \<^verbatim>\<open>upstream_auth.go\<close>: the circuit breaker, retries, throttling, the token handshake and the check
  of destinations an upstream names.  A URL is its parsed form.  The network is an argument: what
  resolves a host name, what answers a request, how URLs and queries are read and written, and what
  the clock shows.  Durations are nanoseconds.
\<close>

subsection \<open>The circuit breaker\<close>

datatype breaker_state = BreakerClosed | BreakerHalfOpen | BreakerOpen

record breaker =
  Threshold :: int
  Cooldown :: int
  Failures :: int
  BState :: breaker_state
  OpenedAt :: int
  ProbeInFlight :: bool

definition millisecond :: int where "millisecond = 1000000"
definition seconds :: "int \<Rightarrow> int" where "seconds n = n * 1000000000"

definition NewBreaker :: "int \<Rightarrow> int \<Rightarrow> breaker" where
  "NewBreaker threshold cooldown =
     \<lparr>Threshold = (if threshold \<le> 0 then 5 else threshold), Cooldown = (if cooldown \<le> 0 then seconds 15 else cooldown),
      Failures = 0, BState = BreakerClosed, OpenedAt = 0, ProbeInFlight = False\<rparr>"

definition Allow :: "int \<Rightarrow> breaker \<Rightarrow> bool \<times> breaker" where
  "Allow now b =
     (case BState b of
        BreakerClosed \<Rightarrow> (True, b)
      | BreakerOpen \<Rightarrow>
          if now - OpenedAt b \<ge> Cooldown b then (True, b\<lparr>BState := BreakerHalfOpen, ProbeInFlight := True\<rparr>)
          else (False, b)
      | BreakerHalfOpen \<Rightarrow> if ProbeInFlight b then (False, b) else (True, b\<lparr>ProbeInFlight := True\<rparr>))"

definition Success :: "breaker \<Rightarrow> breaker" where
  "Success b = b\<lparr>Failures := 0, BState := BreakerClosed, ProbeInFlight := False\<rparr>"

definition Failure :: "int \<Rightarrow> breaker \<Rightarrow> breaker" where
  "Failure now b =
     (if BState b = BreakerHalfOpen then b\<lparr>BState := BreakerOpen, OpenedAt := now, ProbeInFlight := False\<rparr>
      else
        let b = b\<lparr>Failures := Failures b + 1\<rparr>
        in if Failures b \<ge> Threshold b then b\<lparr>BState := BreakerOpen, OpenedAt := now\<rparr> else b)"

subsection \<open>Requests and responses\<close>

record url =
  UScheme :: string
  UHostname :: string
  UHost :: string
  UPath :: string
  UQuery :: string

record request =
  RURL :: url
  RAccept :: string
  RAuthorization :: string

record response =
  Status :: int
  Location :: "url option"
  RetryAfter :: string
  WWWAuthenticate :: string
  RContentType :: string
  Body :: string

text \<open>An address in the form its 4-byte reading has, where it has one.\<close>

datatype ip = IPv4 nat nat nat nat | IPv6 "nat list"

text \<open>A token document: its two token fields and its lifetime in seconds.\<close>

record token_doc =
  DToken :: string
  DAccessToken :: string
  DExpiresIn :: int

record network =
  LookupIP :: "string \<Rightarrow> ip list option"
  answer :: "request \<Rightarrow> response option"
  parse_url :: "string \<Rightarrow> url option"
  parse_query :: "string \<Rightarrow> (string \<times> string) list"
  encode_query :: "(string \<times> string) list \<Rightarrow> string"
  decode_token :: "string \<Rightarrow> token_doc option"
  http_date :: "string \<Rightarrow> int option"

subsection \<open>Destinations\<close>

text \<open>The address classes of package \<^verbatim>\<open>net\<close>.\<close>

fun IsLoopback :: "ip \<Rightarrow> bool" where
  "IsLoopback (IPv4 a b c d) = (a = 127)"
| "IsLoopback (IPv6 bs) = (bs = replicate 15 0 @ [1])"

fun IsPrivate :: "ip \<Rightarrow> bool" where
  "IsPrivate (IPv4 a b c d) = (a = 10 \<or> a = 172 \<and> b div 16 = 1 \<or> a = 192 \<and> b = 168)"
| "IsPrivate (IPv6 bs) = (hd bs div 2 = 0xFC div 2)"

fun IsUnspecified :: "ip \<Rightarrow> bool" where
  "IsUnspecified (IPv4 a b c d) = (a = 0 \<and> b = 0 \<and> c = 0 \<and> d = 0)"
| "IsUnspecified (IPv6 bs) = (bs = replicate 16 0)"

fun IsLinkLocalUnicast :: "ip \<Rightarrow> bool" where
  "IsLinkLocalUnicast (IPv4 a b c d) = (a = 169 \<and> b = 254)"
| "IsLinkLocalUnicast (IPv6 bs) = (bs ! 0 = 0xFE \<and> bs ! 1 div 64 = 2)"

fun IsLinkLocalMulticast :: "ip \<Rightarrow> bool" where
  "IsLinkLocalMulticast (IPv4 a b c d) = (a = 224 \<and> b = 0 \<and> c = 0)"
| "IsLinkLocalMulticast (IPv6 bs) = (bs ! 0 = 0xFF \<and> bs ! 1 mod 16 = 2)"

fun IsInterfaceLocalMulticast :: "ip \<Rightarrow> bool" where
  "IsInterfaceLocalMulticast (IPv4 a b c d) = False"
| "IsInterfaceLocalMulticast (IPv6 bs) = (bs ! 0 = 0xFF \<and> bs ! 1 mod 16 = 1)"

fun IsMulticast :: "ip \<Rightarrow> bool" where
  "IsMulticast (IPv4 a b c d) = (a div 16 = 14)"
| "IsMulticast (IPv6 bs) = (bs ! 0 = 0xFF)"

definition isPublicIP :: "ip \<Rightarrow> bool" where
  "isPublicIP ip =
     (if IsLoopback ip \<or> IsPrivate ip \<or> IsUnspecified ip \<or> IsLinkLocalUnicast ip \<or> IsLinkLocalMulticast ip \<or>
         IsInterfaceLocalMulticast ip \<or> IsMulticast ip then False
      else (case ip of
              IPv4 a b c d \<Rightarrow> \<not> (a = 100 \<and> 64 \<le> b \<and> b \<le> 127)
            | IPv6 bs \<Rightarrow> hd bs div 2 \<noteq> 0xFC div 2))"

definition checkDestination :: "network \<Rightarrow> url \<Rightarrow> url \<Rightarrow> bool" where
  "checkDestination net base target =
     (if equal_fold (UHostname target) (UHostname base) then True
      else (case LookupIP net (UHostname target) of None \<Rightarrow> False | Some ips \<Rightarrow> list_all isPublicIP ips))"

text \<open>
  \<^verbatim>\<open>http.Client.Do\<close> with the redirect check the constructor installs; the first argument counts the
  hops left of ten.  The requests sent come back with the answer.  An answer of the network has its
  Location resolved against the request's URL; one that cannot be resolved is no answer.  A credential
  travels to the first request's host and its subdomains only.
\<close>

definition keeps_credential :: "url \<Rightarrow> url \<Rightarrow> bool" where
  "keeps_credential initial dest \<longleftrightarrow>
     UHostname dest = UHostname initial \<or>
     CHR '':'' \<notin> set (UHostname dest) \<and> CHR ''%'' \<notin> set (UHostname dest) \<and> has_suffix (UHostname dest) (''.'' @ UHostname initial)"

definition redirect_of :: "response \<Rightarrow> url option" where
  "redirect_of resp = (if Status resp \<in> {301, 302, 303, 307, 308} then Location resp else None)"

fun client_Do :: "nat \<Rightarrow> network \<Rightarrow> url \<Rightarrow> url \<Rightarrow> request \<Rightarrow> response option \<times> request list" where
  "client_Do hops net base initial req =
     (case answer net req of
        None \<Rightarrow> (None, [req])
      | Some resp \<Rightarrow>
          (case redirect_of resp of
             None \<Rightarrow> (Some resp, [req])
           | Some target \<Rightarrow>
               (case hops of
                  0 \<Rightarrow> (None, [req])
                | Suc hops \<Rightarrow>
                    if checkDestination net base target then
                      (case client_Do hops net base initial (req\<lparr>RURL := target,
                          RAuthorization := (if keeps_credential initial target then RAuthorization req else [])\<rparr>) of
                         (r, sent) \<Rightarrow> (r, req # sent))
                    else (None, [req]))))"

declare client_Do.simps [simp del]

definition Do :: "network \<Rightarrow> url \<Rightarrow> request \<Rightarrow> response option \<times> request list" where
  "Do net base req = client_Do 9 net base (RURL req) req"

subsection \<open>Waiting\<close>

definition maxRetryAfter :: int where "maxRetryAfter = seconds 30"
definition backoffBase :: int where "backoffBase = 100 * millisecond"
definition defaultRetries :: nat where "defaultRetries = 3"

definition capDelay :: "int \<Rightarrow> int" where
  "capDelay d = (if d \<le> 0 then 0 else if d > maxRetryAfter then maxRetryAfter else d)"

definition retryAfter :: "network \<Rightarrow> int \<Rightarrow> string \<Rightarrow> int" where
  "retryAfter net now header =
     (let header = trim_space header
      in if header = [] then 0
         else (case ParseInt header of
                 Some n \<Rightarrow> capDelay (wrap64 (n * seconds 1))
               | None \<Rightarrow> (case http_date net header of Some at \<Rightarrow> capDelay (at - now) | None \<Rightarrow> 0)))"

text \<open>Exponential backoff with full jitter; the random share lies between 0 and the backoff.\<close>

definition backoff :: "nat \<Rightarrow> int" where
  "backoff attempt = wrap64 (backoffBase * 2 ^ (attempt - 1))"

definition sleep_before :: "nat \<Rightarrow> int \<Rightarrow> int \<Rightarrow> int" where
  "sleep_before attempt wait jitter = (if wait > 0 then wait else jitter mod backoff attempt + backoff attempt div 2)"

subsection \<open>The token handshake: \<^verbatim>\<open>upstream_auth.go\<close>\<close>

definition tokenLifetimeDefault :: int where "tokenLifetimeDefault = seconds 60"
definition tokenLifetimeSlack :: int where "tokenLifetimeSlack = seconds 10"

type_synonym token_cache = "string \<Rightarrow> (string \<times> int) option"

definition token_get :: "int \<Rightarrow> string \<Rightarrow> token_cache \<Rightarrow> string option" where
  "token_get now key c = (case c key of None \<Rightarrow> None | Some (value, expires) \<Rightarrow> if now < expires then Some value else None)"

definition token_put :: "int \<Rightarrow> string \<Rightarrow> string \<Rightarrow> int \<Rightarrow> token_cache \<Rightarrow> token_cache" where
  "token_put now key value lifetime c =
     (let lifetime = (if lifetime \<le> 0 then tokenLifetimeDefault else lifetime);
          lifetime = (if lifetime > tokenLifetimeSlack then lifetime - tokenLifetimeSlack else lifetime)
      in c(key \<mapsto> (value, now + lifetime)))"

fun split_params :: "bool \<Rightarrow> string \<Rightarrow> string \<Rightarrow> string list" where
  "split_params inQuotes current [] = (if current = [] then [] else [rev current])"
| "split_params inQuotes current (r # s) =
     (if r = CHR 0x22 then split_params (\<not> inQuotes) (r # current) s
      else if r = CHR '','' \<and> \<not> inQuotes then rev current # split_params inQuotes [] s
      else split_params inQuotes (r # current) s)"

definition splitParams :: "string \<Rightarrow> string list" where
  "splitParams s = split_params False [] s"

definition trim_chars :: "char \<Rightarrow> string \<Rightarrow> string" where
  "trim_chars c s = rev (dropWhile (\<lambda>x. x = c) (rev (dropWhile (\<lambda>x. x = c) s)))"

definition challenge_param :: "string \<Rightarrow> (string \<times> string) option" where
  "challenge_param part =
     (case str_cut part ''='' of (key, val, ok) \<Rightarrow>
        if \<not> ok \<or> to_lower (trim_space key) = [] then None
        else Some (to_lower (trim_space key), trim_chars (CHR 0x22) (trim_space val)))"

text \<open>The scheme and the parameters, the last one of a name first.\<close>

definition parseChallenge :: "string \<Rightarrow> string \<times> (string \<times> string) list" where
  "parseChallenge header =
     (if trim_space header = [] then ([], [])
      else (case str_cut (trim_space header) '' '' of (scheme, rest, _) \<Rightarrow>
              (to_lower scheme, rev (List.map_filter challenge_param (splitParams rest)))))"

definition param :: "string \<Rightarrow> (string \<times> string) list \<Rightarrow> string" where
  "param name ps = (case map_of ps name of None \<Rightarrow> [] | Some v \<Rightarrow> v)"

definition scopeKey :: "url \<Rightarrow> string" where
  "scopeKey u = UHost u @ ''/'' @ str_join ''/'' (take 3 (split_on (CHR ''/'') (trim_chars (CHR ''/'') (UPath u))))"

definition set_query :: "string \<Rightarrow> string \<Rightarrow> (string \<times> string) list \<Rightarrow> (string \<times> string) list" where
  "set_query name v q = filter (\<lambda>(k, _). k \<noteq> name) q @ [(name, v)]"

definition token_request :: "network \<Rightarrow> (string \<times> string) list \<Rightarrow> url \<Rightarrow> request" where
  "token_request net ps realm =
     \<lparr>RURL = realm\<lparr>UQuery := encode_query net (fold (\<lambda>name q. if param name ps = [] then q else set_query name (param name ps) q)
                               [''service'', ''scope''] (parse_query net (UQuery realm)))\<rparr>,
      RAccept = [], RAuthorization = []\<rparr>"

text \<open>The token and its lifetime, with the requests sent for it.\<close>

definition fetchToken :: "network \<Rightarrow> url \<Rightarrow> (string \<times> string) list \<Rightarrow> (string \<times> int) option \<times> request list" where
  "fetchToken net base ps =
     (case parse_url net (param ''realm'' ps) of
        None \<Rightarrow> (None, [])
      | Some realm \<Rightarrow>
          if UScheme realm \<noteq> ''http'' \<and> UScheme realm \<noteq> ''https'' then (None, [])
          else if \<not> checkDestination net base realm then (None, [])
          else
            (case Do net base (token_request net ps realm) of
                  (None, sent) \<Rightarrow> (None, sent)
                | (Some resp, sent) \<Rightarrow>
                    if Status resp \<noteq> 200 then (None, sent)
                    else (case decode_token net (take (2 ^ 20) (Body resp)) of
                            None \<Rightarrow> (None, sent)
                          | Some doc \<Rightarrow>
                              let token = (if DToken doc = [] then DAccessToken doc else DToken doc)
                              in (if token = [] then None else Some (token, wrap64 (DExpiresIn doc * seconds 1)), sent))))"

datatype handshake = Keep | Failed_handshake | Retried response

definition retryAuthorized ::
  "network \<Rightarrow> url \<Rightarrow> int \<Rightarrow> request \<Rightarrow> response \<Rightarrow> token_cache \<Rightarrow> handshake \<times> token_cache \<times> request list" where
  "retryAuthorized net base now req resp c =
     (if RAuthorization req \<noteq> [] then (Keep, c, [])
      else
        let (scheme, ps) = parseChallenge (WWWAuthenticate resp)
        in if scheme \<noteq> ''bearer'' \<or> param ''realm'' ps = [] then (Keep, c, [])
           else (case fetchToken net base ps of
                   (None, sent) \<Rightarrow> (Failed_handshake, c, sent)
                 | (Some (token, lifetime), sent) \<Rightarrow>
                     let c = token_put now (scopeKey (RURL req)) token lifetime c
                     in (case Do net base (req\<lparr>RAuthorization := ''Bearer '' @ token\<rparr>) of
                           (None, sent') \<Rightarrow> (Failed_handshake, c, sent @ sent')
                         | (Some next, sent') \<Rightarrow> (Retried next, c, sent @ sent'))))"

subsection \<open>One attempt\<close>

record fetch_opts =
  OQuery :: string
  OAccept :: string

datatype attempt_error = ANotFound | Throttled int | Transient | Fatal

definition authorize :: "int \<Rightarrow> token_cache \<Rightarrow> request \<Rightarrow> request" where
  "authorize now c req =
     (case token_get now (scopeKey (RURL req)) c of None \<Rightarrow> req | Some token \<Rightarrow> req\<lparr>RAuthorization := ''Bearer '' @ token\<rparr>)"

definition classify :: "network \<Rightarrow> int \<Rightarrow> response \<Rightarrow> attempt_error + response" where
  "classify net now resp =
     (if 200 \<le> Status resp \<and> Status resp < 300 then Inr resp
      else if Status resp = 404 then Inl ANotFound
      else if Status resp = 429 then Inl (Throttled (retryAfter net now (RetryAfter resp)))
      else if Status resp \<ge> 500 then Inl Transient
      else Inl Fatal)"

definition attempt ::
  "network \<Rightarrow> url \<Rightarrow> int \<Rightarrow> url \<Rightarrow> fetch_opts \<Rightarrow> token_cache \<Rightarrow> (attempt_error + response) \<times> token_cache \<times> request list" where
  "attempt net base now target opts c =
     (let req = authorize now c \<lparr>RURL = target, RAccept = OAccept opts, RAuthorization = []\<rparr>
      in (case Do net base req of
            (None, sent) \<Rightarrow> (Inl Transient, c, sent)
          | (Some resp, sent) \<Rightarrow>
              if Status resp = 401 then
                (case retryAuthorized net base now req resp c of
                   (Failed_handshake, c, sent') \<Rightarrow> (Inl Transient, c, sent @ sent')
                 | (Retried next, c, sent') \<Rightarrow> (classify net now next, c, sent @ sent')
                 | (Keep, c, sent') \<Rightarrow> (classify net now resp, c, sent @ sent'))
              else (classify net now resp, c, sent)))"

subsection \<open>Retries\<close>

text \<open>
  What surrounds the attempts of one fetch: the network each attempt meets, the time it starts and
  the time its outcome is recorded, its random share, whether the caller's context ends during the
  wait before it, and whether the limiter lets it go.
\<close>

record weather =
  net_at :: "nat \<Rightarrow> network"
  now_at :: "nat \<Rightarrow> int"
  done_at :: "nat \<Rightarrow> int"
  jitter_at :: "nat \<Rightarrow> int"
  cancelled_at :: "nat \<Rightarrow> bool"
  limited_at :: "nat \<Rightarrow> bool"

record upstream =
  UBase :: url
  UBreaker :: breaker
  URetries :: nat
  UTokens :: token_cache

datatype fetch_error = FNotFound | FUnavailable | FStatus | FCancelled | FRateLimiter | FInvalidURL | FResolve | FDestination | FTooLarge

text \<open>The outcome, the client afterwards, the requests sent and the waits.\<close>

type_synonym fetch_result = "(fetch_error + response) \<times> upstream \<times> request list \<times> int list"

definition with_trace :: "request list \<Rightarrow> int list \<Rightarrow> fetch_result \<Rightarrow> fetch_result" where
  "with_trace sent waits r = (case r of (out, u, sent', waits') \<Rightarrow> (out, u, sent @ sent', waits @ waits'))"

primrec attempts :: "nat \<Rightarrow> weather \<Rightarrow> url \<Rightarrow> fetch_opts \<Rightarrow> nat \<Rightarrow> int \<Rightarrow> upstream \<Rightarrow> fetch_result" where
  "attempts 0 w target opts n wait u = (Inl FUnavailable, u, [], [])"
| "attempts (Suc left) w target opts n wait u =
     (let sleep = (if n > 0 then [sleep_before n wait (jitter_at w n)] else [])
      in if n > 0 \<and> cancelled_at w n then (Inl FCancelled, u, [], sleep)
         else if limited_at w n then (Inl FRateLimiter, u, [], sleep)
         else (case attempt (net_at w n) (UBase u) (now_at w n) target opts (UTokens u) of
                 (outcome, c, sent) \<Rightarrow>
                   let u = u\<lparr>UTokens := c\<rparr>; b = UBreaker u
                   in (case outcome of
                         Inr resp \<Rightarrow> (Inr resp, u\<lparr>UBreaker := Success b\<rparr>, sent, sleep)
                       | Inl ANotFound \<Rightarrow> (Inl FNotFound, u\<lparr>UBreaker := Success b\<rparr>, sent, sleep)
                       | Inl (Throttled wait) \<Rightarrow> with_trace sent sleep (attempts left w target opts (Suc n) wait u)
                       | Inl Fatal \<Rightarrow> (Inl FStatus, u\<lparr>UBreaker := Failure (done_at w n) b\<rparr>, sent, sleep)
                       | Inl Transient \<Rightarrow>
                           (case Allow (done_at w n) (Failure (done_at w n) b) of
                              (False, b) \<Rightarrow> (Inl FUnavailable, u\<lparr>UBreaker := b\<rparr>, sent, sleep)
                            | (True, b) \<Rightarrow>
                                with_trace sent sleep (attempts left w target opts (Suc n) 0 (u\<lparr>UBreaker := b\<rparr>))))))"

definition fetchTarget :: "weather \<Rightarrow> url \<Rightarrow> fetch_opts \<Rightarrow> upstream \<Rightarrow> fetch_result" where
  "fetchTarget w target opts u =
     (case Allow (now_at w 0) (UBreaker u) of
        (False, b) \<Rightarrow> (Inl FUnavailable, u\<lparr>UBreaker := b\<rparr>, [], [])
      | (True, b) \<Rightarrow> attempts (URetries u) w target opts 0 0 (u\<lparr>UBreaker := b\<rparr>))"

definition NewUpstream :: "url \<Rightarrow> nat \<Rightarrow> upstream" where
  "NewUpstream base retries =
     \<lparr>UBase = base, UBreaker = NewBreaker 0 0, URetries = (if retries = 0 then defaultRetries else retries), UTokens = (\<lambda>_. None)\<rparr>"

definition buildURL :: "url \<Rightarrow> string \<Rightarrow> string \<Rightarrow> url" where
  "buildURL base remotePath query =
     base\<lparr>UPath := trim_suffix (UPath base) ''/'' @ ''/'' @ trim_prefix remotePath ''/'', UQuery := query\<rparr>"

definition Fetch :: "weather \<Rightarrow> string \<Rightarrow> fetch_opts \<Rightarrow> upstream \<Rightarrow> fetch_result" where
  "Fetch w remotePath opts u = fetchTarget w (buildURL (UBase u) remotePath (OQuery opts)) opts u"

definition FetchURL :: "weather \<Rightarrow> string \<Rightarrow> fetch_opts \<Rightarrow> upstream \<Rightarrow> fetch_result" where
  "FetchURL w absURL opts u =
     (case parse_url (net_at w 0) absURL of
        None \<Rightarrow> (Inl FInvalidURL, u, [], [])
      | Some parsed \<Rightarrow>
          if UScheme parsed \<noteq> ''http'' \<and> UScheme parsed \<noteq> ''https'' then (Inl FInvalidURL, u, [], [])
          else if \<not> checkDestination (net_at w 0) (UBase u) parsed then
            (Inl (if LookupIP (net_at w 0) (UHostname parsed) = None then FResolve else FDestination), u, [], [])
          else fetchTarget w parsed opts u)"

definition metadataSizeCap :: int where "metadataSizeCap = 128 * 2 ^ 20"

text \<open>The whole body when it fits, an error as soon as one byte more than the limit has been read.\<close>

definition readAllCapped :: "string \<Rightarrow> int \<Rightarrow> string option" where
  "readAllCapped r limit = (if int (length r) > limit then None else Some r)"

definition FetchAll :: "weather \<Rightarrow> string \<Rightarrow> fetch_opts \<Rightarrow> upstream \<Rightarrow> (fetch_error + string \<times> string) \<times> upstream \<times> request list \<times> int list" where
  "FetchAll w remotePath opts u =
     (case Fetch w remotePath opts u of
        (Inl e, rest) \<Rightarrow> (Inl e, rest)
      | (Inr resp, rest) \<Rightarrow>
          ((case readAllCapped (Body resp) metadataSizeCap of None \<Rightarrow> Inl FTooLarge | Some body \<Rightarrow> Inr (body, RContentType resp)), rest))"

subsection \<open>Where requests go\<close>

lemma checkDestination_hostname:
  "UHostname a = UHostname b \<Longrightarrow> checkDestination net base a = checkDestination net base b"
  by (simp add: checkDestination_def)

lemma checkDestination_base: "UHostname a = UHostname base \<Longrightarrow> checkDestination net base a"
  by (simp add: checkDestination_def equal_fold_def)

lemma client_Do_cases:
  obtains r where "client_Do hops net base initial req = (r, [req])"
  | more target cred where "hops = Suc more" "checkDestination net base target"
      "snd (client_Do hops net base initial req) =
         req # snd (client_Do more net base initial (req\<lparr>RURL := target, RAuthorization := cred\<rparr>))"
proof (cases "answer net req")
  case None
  then have "client_Do hops net base initial req = (None, [req])" by (subst client_Do.simps) simp
  then show thesis by (rule that(1))
next
  case (Some resp)
  show thesis
  proof (cases "redirect_of resp")
    case None
    with Some have "client_Do hops net base initial req = (Some resp, [req])" by (subst client_Do.simps) simp
    then show thesis by (rule that(1))
  next
    case (Some target)
    note red = Some
    show thesis
    proof (cases hops)
      case 0
      with red \<open>answer net req = Some resp\<close> have "client_Do hops net base initial req = (None, [req])"
        by (subst client_Do.simps) simp
      then show thesis by (rule that(1))
    next
      case (Suc more)
      show thesis
      proof (cases "checkDestination net base target")
        case False
        with red Suc \<open>answer net req = Some resp\<close> have "client_Do hops net base initial req = (None, [req])"
          by (subst client_Do.simps) simp
        then show thesis by (rule that(1))
      next
        case True
        have "snd (client_Do hops net base initial req) = req # snd (client_Do more net base initial (req\<lparr>RURL := target,
                RAuthorization := (if keeps_credential initial target then RAuthorization req else [])\<rparr>))"
          using red Suc \<open>answer net req = Some resp\<close> True
          by (subst client_Do.simps) (simp split: prod.splits)
        with Suc True show thesis by (rule that(2))
      qed
    qed
  qed
qed

lemma client_Do_sent:
  "q \<in> set (snd (client_Do hops net base initial req)) \<Longrightarrow> q = req \<or> checkDestination net base (RURL q)"
proof (induction hops arbitrary: req)
  case 0
  show ?case by (rule client_Do_cases [of 0 net base initial req]) (use 0 in auto)
next
  case (Suc hops)
  show ?case
  proof (rule client_Do_cases [of "Suc hops" net base initial req])
    fix r
    assume "client_Do (Suc hops) net base initial req = (r, [req])"
    with Suc.prems show ?thesis by simp
  next
    fix more target cred
    assume "Suc hops = Suc more" and ok: "checkDestination net base target"
      and "snd (client_Do (Suc hops) net base initial req) =
             req # snd (client_Do more net base initial (req\<lparr>RURL := target, RAuthorization := cred\<rparr>))"
    with Suc.prems Suc.IH [of "req\<lparr>RURL := target, RAuthorization := cred\<rparr>"] ok show ?thesis by auto
  qed
qed

lemma Do_sent: "Do net base req = (r, sent) \<Longrightarrow> q \<in> set sent \<Longrightarrow> RURL q = RURL req \<or> checkDestination net base (RURL q)"
  using client_Do_sent [of q 9 net base "RURL req" req] by (auto simp: Do_def)

lemma fetchToken_sent:
  assumes "fetchToken net base ps = (r, sent)" and "q \<in> set sent"
  shows "checkDestination net base (RURL q)"
proof -
  obtain realm resp where r: "checkDestination net base realm" and d: "Do net base (token_request net ps realm) = (resp, sent)"
    using assms unfolding fetchToken_def Let_def
    by (auto split: option.splits if_splits prod.splits)
  show ?thesis
    using Do_sent [OF d assms(2)] r checkDestination_hostname [of "RURL (token_request net ps realm)" realm net base]
    by (auto simp: token_request_def)
qed

lemma retryAuthorized_sent:
  assumes "retryAuthorized net base now req resp c = (h, c', sent)" and "q \<in> set sent"
  shows "RURL q = RURL req \<or> checkDestination net base (RURL q)"
proof -
  have "sent = [] \<or> (\<exists>ps r sent1. fetchToken net base ps = (r, sent1) \<and>
      (sent = sent1 \<or> (\<exists>cred r' sent2. Do net base (req\<lparr>RAuthorization := cred\<rparr>) = (r', sent2) \<and> sent = sent1 @ sent2)))"
    using assms(1) unfolding retryAuthorized_def Let_def
    by (simp split: if_splits prod.splits option.splits) blast+
  then show ?thesis
  proof (elim disjE exE conjE)
    fix ps r sent1
    assume "fetchToken net base ps = (r, sent1)" "sent = sent1"
    with assms(2) fetchToken_sent show ?thesis by blast
  next
    fix ps r sent1 cred r' sent2
    assume f: "fetchToken net base ps = (r, sent1)" and d: "Do net base (req\<lparr>RAuthorization := cred\<rparr>) = (r', sent2)"
      and "sent = sent1 @ sent2"
    with assms(2) consider "q \<in> set sent1" | "q \<in> set sent2" by auto
    then show ?thesis using fetchToken_sent [OF f] Do_sent [OF d] by cases auto
  qed (use assms(2) in simp)
qed

lemma attempt_sent:
  assumes "attempt net base now target opts c = (r, c', sent)" and "q \<in> set sent"
  shows "RURL q = target \<or> checkDestination net base (RURL q)"
proof -
  define req where "req = authorize now c \<lparr>RURL = target, RAccept = OAccept opts, RAuthorization = []\<rparr>"
  have "RURL req = target" by (simp add: req_def authorize_def split: option.splits)
  then show ?thesis
    using assms unfolding attempt_def Let_def req_def [symmetric]
    by (auto split: prod.splits option.splits if_splits handshake.splits dest: Do_sent retryAuthorized_sent)
qed

text \<open>An attempt ends the fetch, or the next one follows after a wait the throttle or the backoff sets.\<close>

lemma capDelay_bounds: "0 \<le> capDelay d" "capDelay d \<le> maxRetryAfter"
  by (auto simp: capDelay_def maxRetryAfter_def seconds_def)

lemma retryAfter_bounds: "0 \<le> retryAfter net now h \<and> retryAfter net now h \<le> maxRetryAfter"
  using capDelay_bounds by (auto simp: retryAfter_def Let_def maxRetryAfter_def seconds_def split: option.splits)

lemma classify_throttled: "classify net now resp = Inl (Throttled d) \<Longrightarrow> 0 \<le> d \<and> d \<le> maxRetryAfter"
  using retryAfter_bounds by (auto simp: classify_def split: if_splits)

lemma attempt_throttled:
  "attempt net base now target opts c = (Inl (Throttled d), rest) \<Longrightarrow> 0 \<le> d \<and> d \<le> maxRetryAfter"
  unfolding attempt_def Let_def
  by (auto split: prod.splits option.splits if_splits handshake.splits dest: classify_throttled)

definition waits_before :: "weather \<Rightarrow> nat \<Rightarrow> int \<Rightarrow> int list" where
  "waits_before w n wait = (if n > 0 then [sleep_before n wait (jitter_at w n)] else [])"

lemma attempts_Suc_cases:
  obtains (stop) out u' sent where "attempts (Suc left) w target opts n wait u = (out, u', sent, waits_before w n wait)"
      "sent = [] \<or> (\<exists>r c. attempt (net_at w n) (UBase u) (now_at w n) target opts (UTokens u) = (r, c, sent))"
      "UBase u' = UBase u"
  | (more) r c sent wait' u' where
      "attempts (Suc left) w target opts n wait u =
         with_trace sent (waits_before w n wait) (attempts left w target opts (Suc n) wait' u')"
      "attempt (net_at w n) (UBase u) (now_at w n) target opts (UTokens u) = (r, c, sent)"
      "UBase u' = UBase u" "0 \<le> wait'" "wait' \<le> maxRetryAfter"
proof (cases "(n > 0 \<and> cancelled_at w n) \<or> limited_at w n")
  case True
  show thesis
    by (rule stop [of "fst (attempts (Suc left) w target opts n wait u)" u "[]"])
      (use True in \<open>auto simp: Let_def waits_before_def\<close>)
next
  case False
  obtain outcome c sent where a:
      "attempt (net_at w n) (UBase u) (now_at w n) target opts (UTokens u) = (outcome, c, sent)"
    by (metis prod_cases3)
  define r where "r = attempts (Suc left) w target opts n wait u"
  show thesis
  proof (cases outcome)
    case (Inr resp)
    show thesis
      by (rule stop [of "fst r" "fst (snd r)" sent]) (use False a Inr in \<open>auto simp: r_def Let_def waits_before_def\<close>)
  next
    case (Inl e)
    show thesis
    proof (cases e)
      case ANotFound
      show thesis
        by (rule stop [of "fst r" "fst (snd r)" sent])
          (use False a Inl ANotFound in \<open>auto simp: r_def Let_def waits_before_def\<close>)
    next
      case Fatal
      show thesis
        by (rule stop [of "fst r" "fst (snd r)" sent])
          (use False a Inl Fatal in \<open>auto simp: r_def Let_def waits_before_def\<close>)
    next
      case (Throttled d)
      show thesis
        by (rule more [of sent d "u\<lparr>UTokens := c\<rparr>" outcome c])
          (use False a Inl Throttled attempt_throttled [of _ _ _ _ _ _ d] in \<open>auto simp: Let_def waits_before_def\<close>)
    next
      case Transient
      obtain ok b where al: "Allow (done_at w n) (Failure (done_at w n) (UBreaker u)) = (ok, b)" by fastforce
      show thesis
      proof (cases ok)
        case False
        show thesis
          by (rule stop [of "fst r" "fst (snd r)" sent])
            (use \<open>\<not> (_ \<or> _)\<close> a Inl Transient al False in \<open>auto simp: r_def Let_def waits_before_def\<close>)
      next
        case True
        show thesis
          by (rule more [of sent 0 "u\<lparr>UTokens := c, UBreaker := b\<rparr>" outcome c])
            (use \<open>\<not> (_ \<or> _)\<close> a Inl Transient al True in \<open>auto simp: Let_def waits_before_def maxRetryAfter_def seconds_def\<close>)
      qed
    qed
  qed
qed

lemma with_trace_sent: "fst (snd (snd (with_trace x y r))) = x @ fst (snd (snd r))"
  and with_trace_waits: "snd (snd (snd (with_trace x y r))) = y @ snd (snd (snd r))"
  by (simp_all add: with_trace_def split: prod.splits)

lemma attempts_sent:
  "q \<in> set (fst (snd (snd (attempts left w target opts n wait u)))) \<Longrightarrow>
     RURL q = target \<or> (\<exists>k. checkDestination (net_at w k) (UBase u) (RURL q))"
proof (induction left arbitrary: n wait u)
  case 0
  then show ?case by simp
next
  case (Suc left)
  show ?case
  proof (cases rule: attempts_Suc_cases [of left w target opts n wait u])
    case (stop out u' sent)
    with Suc.prems attempt_sent show ?thesis by fastforce
  next
    case (more r c sent wait' u')
    from Suc.prems consider "q \<in> set sent" | "q \<in> set (fst (snd (snd (attempts left w target opts (Suc n) wait' u'))))"
      unfolding more(1) with_trace_sent by auto
    then show ?thesis
      using attempt_sent [OF more(2)] Suc.IH [of "Suc n" wait' u'] more(3) by cases auto
  qed
qed

lemma fetchTarget_sent:
  assumes "fetchTarget w target opts u = (out, u', sent, waits)" and "q \<in> set sent"
  shows "RURL q = target \<or> (\<exists>k. checkDestination (net_at w k) (UBase u) (RURL q))"
proof -
  obtain ok b where a: "Allow (now_at w 0) (UBreaker u) = (ok, b)" by fastforce
  with assms have ok: "ok" by (auto simp: fetchTarget_def split: bool.splits)
  with assms a have "q \<in> set (fst (snd (snd (attempts (URetries u) w target opts 0 0 (u\<lparr>UBreaker := b\<rparr>)))))"
    by (simp add: fetchTarget_def)
  from attempts_sent [OF this] show ?thesis by simp
qed

lemma attempts_base: "UBase (fst (snd (attempts left w target opts n wait u))) = UBase u"
proof (induction left arbitrary: n wait u)
  case 0
  then show ?case by simp
next
  case (Suc left)
  show ?case
  proof (cases rule: attempts_Suc_cases [of left w target opts n wait u])
    case (stop out u' sent)
    then show ?thesis by simp
  next
    case (more r c sent wait' u')
    have "UBase (fst (snd (with_trace x y r))) = UBase (fst (snd r))" for x y r
      by (simp add: with_trace_def split: prod.splits)
    then show ?thesis unfolding more(1) using Suc.IH [of "Suc n" wait' u'] more(3) by simp
  qed
qed

lemma fetchTarget_base: "UBase (fst (snd (fetchTarget w target opts u))) = UBase u"
  using attempts_base by (simp add: fetchTarget_def split: prod.splits bool.splits)

lemma fetch_base:
  "UBase (fst (snd (Fetch w path opts u))) = UBase u"
  "UBase (fst (snd (FetchURL w absURL opts u))) = UBase u"
  "UBase (fst (snd (FetchAll w path opts u))) = UBase u"
proof -
  show f: "UBase (fst (snd (Fetch w path opts u))) = UBase u" by (simp add: Fetch_def fetchTarget_base)
  show "UBase (fst (snd (FetchURL w absURL opts u))) = UBase u"
    by (simp add: FetchURL_def fetchTarget_base split: option.splits)
  have "snd (FetchAll w path opts u) = snd (Fetch w path opts u)"
    by (auto simp: FetchAll_def split: prod.splits sum.splits)
  with f show "UBase (fst (snd (FetchAll w path opts u))) = UBase u" by simp
qed

lemma checkDestination_public:
  "checkDestination net base target \<Longrightarrow> equal_fold (UHostname target) (UHostname base) \<or>
     (\<exists>ips. LookupIP net (UHostname target) = Some ips \<and> (\<forall>ip \<in> set ips. isPublicIP ip))"
  by (auto simp: checkDestination_def list_all_iff split: if_splits option.splits)

text \<open>
  Whatever an upstream answers, a feed's client asks no host but the configured one and hosts
  whose resolved addresses are all public: this holds of the request itself, of every redirect it
  follows, of the token endpoint a challenge names and of that endpoint's redirects, on every attempt.
\<close>

theorem requests_stay_public:
  assumes "FetchURL w absURL opts u = (out, u', sent, waits) \<or> Fetch w remotePath opts u = (out, u', sent, waits)"
    and "q \<in> set sent"
  shows "equal_fold (UHostname (RURL q)) (UHostname (UBase u)) \<or>
         (\<exists>n ips. LookupIP (net_at w n) (UHostname (RURL q)) = Some ips \<and> (\<forall>ip \<in> set ips. isPublicIP ip))"
proof -
  obtain target where t: "fetchTarget w target opts u = (out, u', sent, waits)"
    and ok: "checkDestination (net_at w 0) (UBase u) target"
    using assms checkDestination_base [of "buildURL (UBase u) remotePath (OQuery opts)" "UBase u"]
    by (auto simp: FetchURL_def Fetch_def buildURL_def split: option.splits if_splits)
  from fetchTarget_sent [OF t assms(2)] ok obtain k where "checkDestination (net_at w k) (UBase u) (RURL q)" by auto
  from checkDestination_public [OF this] show ?thesis by auto
qed

text \<open>A registry that hands out a location on its own content host, and throttles on request.\<close>

definition example_url :: "string \<Rightarrow> url" where
  "example_url host = \<lparr>UScheme = ''https'', UHostname = host, UHost = host, UPath = ''/v2'', UQuery = []\<rparr>"

definition example_response :: "int \<Rightarrow> string \<Rightarrow> response" where
  "example_response status header =
     \<lparr>Status = status, Location = Some (example_url ''cdn.example''), RetryAfter = header, WWWAuthenticate = [], RContentType = [], Body = ''x''\<rparr>"

definition example_net :: "int \<Rightarrow> string \<Rightarrow> network" where
  "example_net status header =
     \<lparr>LookupIP = (\<lambda>h. if h = ''cdn.example'' then Some [IPv4 93 184 216 34] else Some [IPv4 10 0 0 1]),
      answer = (\<lambda>req. if UHostname (RURL req) = ''repo.example'' then Some (example_response status header)
                     else Some (example_response 200 [])),
      parse_url = (\<lambda>_. Some (example_url ''cdn.example'')), parse_query = (\<lambda>_. []), encode_query = (\<lambda>_. []),
      decode_token = (\<lambda>_. None), http_date = (\<lambda>_. None)\<rparr>"

definition example_weather :: "int \<Rightarrow> string \<Rightarrow> weather" where
  "example_weather status header =
     \<lparr>net_at = (\<lambda>_. example_net status header), now_at = (\<lambda>n. seconds 100 + int n), done_at = (\<lambda>n. seconds 100 + int n),
      jitter_at = (\<lambda>_. 7), cancelled_at = (\<lambda>_. False), limited_at = (\<lambda>_. False)\<rparr>"

definition example_opts :: fetch_opts where "example_opts = \<lparr>OQuery = [], OAccept = []\<rparr>"

definition example_upstream :: upstream where "example_upstream = NewUpstream (example_url ''repo.example'') 0"

text \<open>A redirect to the content host is followed: two requests are sent, the second to a public address.\<close>

theorem requests_stay_public_witness:
  "length (fst (snd (snd (Fetch (example_weather 302 []) ''p'' example_opts example_upstream)))) = 2 \<and>
   (let q = fst (snd (snd (Fetch (example_weather 302 []) ''p'' example_opts example_upstream))) ! 1
    in equal_fold (UHostname (RURL q)) (UHostname (UBase example_upstream)) \<or>
       (\<exists>n ips. LookupIP (net_at (example_weather 302 []) n) (UHostname (RURL q)) = Some ips \<and> list_all isPublicIP ips))"
proof -
  define r where "r = Fetch (example_weather 302 []) ''p'' example_opts example_upstream"
  obtain out u' sent waits where r: "r = (out, u', sent, waits)" by (metis prod_cases4)
  have l: "length (fst (snd (snd (Fetch (example_weather 302 []) ''p'' example_opts example_upstream)))) = 2"
    by code_simp
  then have m: "sent ! 1 \<in> set sent" using r unfolding r_def by (intro nth_mem) simp
  have f: "Fetch (example_weather 302 []) ''p'' example_opts example_upstream = (out, u', sent, waits)"
    using r by (simp only: r_def)
  from requests_stay_public [OF disjI2, OF f m] l show ?thesis
    by (simp add: f Let_def list_all_iff)
qed

subsection \<open>How long a fetch waits\<close>

lemma backoff_eq: "n \<le> 8 \<Longrightarrow> backoff n = backoffBase * 2 ^ (n - 1)"
proof -
  assume "n \<le> 8"
  then have "(2::int) ^ (n - 1) \<le> 2 ^ 7" by (intro power_increasing) auto
  then show ?thesis by (simp add: backoff_def backoffBase_def millisecond_def wrap64_def)
qed

lemma sleep_before_bounds:
  assumes "n \<le> 8" and "wait \<le> maxRetryAfter"
  shows "0 < sleep_before n wait j \<and> sleep_before n wait j \<le> maxRetryAfter"
proof (cases "wait > 0")
  case True
  with assms show ?thesis by (simp add: sleep_before_def)
next
  case False
  have p: "(1::int) \<le> 2 ^ (n - 1)" "(2::int) ^ (n - 1) \<le> 2 ^ 7"
    using assms(1) power_increasing [of "n - 1" 7 "2::int"] by auto
  then have b: "100000000 \<le> backoff n" "backoff n \<le> 12800000000"
    by (auto simp: backoff_eq [OF assms(1)] backoffBase_def millisecond_def)
  then have "0 \<le> j mod backoff n" "j mod backoff n < backoff n" by auto
  with b have "0 < j mod backoff n + backoff n div 2 \<and> j mod backoff n + backoff n div 2 \<le> 30000000000" by linarith
  with False show ?thesis by (simp add: sleep_before_def maxRetryAfter_def seconds_def)
qed

lemma attempts_waits:
  assumes "n + left \<le> 9" and "wait \<le> maxRetryAfter"
  shows "length (snd (snd (snd (attempts left w target opts n wait u)))) \<le> (if n = 0 then left - 1 else left) \<and>
         (\<forall>d \<in> set (snd (snd (snd (attempts left w target opts n wait u)))). 0 < d \<and> d \<le> maxRetryAfter)"
  using assms
proof (induction left arbitrary: n wait u)
  case 0
  then show ?case by simp
next
  case (Suc left)
  have here: "length (waits_before w n wait) = (if n = 0 then 0 else 1)"
    "d \<in> set (waits_before w n wait) \<Longrightarrow> 0 < d \<and> d \<le> maxRetryAfter" for d
    using Suc.prems sleep_before_bounds [of n wait] by (auto simp: waits_before_def)
  show ?case
  proof (cases rule: attempts_Suc_cases [of left w target opts n wait u])
    case (stop out u' sent)
    then show ?thesis using here by auto
  next
    case (more r c sent wait' u')
    have "length (snd (snd (snd (attempts left w target opts (Suc n) wait' u')))) \<le> left \<and>
         (\<forall>d \<in> set (snd (snd (snd (attempts left w target opts (Suc n) wait' u')))). 0 < d \<and> d \<le> maxRetryAfter)"
      using Suc.IH [of "Suc n" wait' u'] Suc.prems more(5) by simp
    then show ?thesis unfolding more(1) with_trace_waits using here by auto
  qed
qed

lemma sum_list_le: "(\<And>d. d \<in> set ds \<Longrightarrow> d \<le> (m::int)) \<Longrightarrow> sum_list ds \<le> int (length ds) * m"
proof (induction ds)
  case (Cons a ds)
  then have "a \<le> m" "sum_list ds \<le> int (length ds) * m" by auto
  then show ?case by (simp add: distrib_right)
qed simp

text \<open>
  C18: No upstream can hold a caller: with at most nine attempts configured, every wait between two
  attempts is positive and at most thirty seconds, whatever Retry-After headers come (numbers that
  overflow a duration and dates included), there are fewer waits than attempts, and all of them
  together stay within thirty seconds for each attempt after the first.
\<close>

theorem fetch_waits_are_bounded:
  assumes "fetchTarget w target opts u = (out, u', sent, waits)" and "0 < URetries u" and "URetries u \<le> 9"
  shows "length waits < URetries u \<and> (\<forall>d \<in> set waits. 0 < d \<and> d \<le> seconds 30) \<and>
         sum_list waits \<le> (int (URetries u) - 1) * seconds 30"
proof -
  obtain ok b where a: "Allow (now_at w 0) (UBreaker u) = (ok, b)" by fastforce
  have w: "length waits \<le> URetries u - 1 \<and> (\<forall>d \<in> set waits. 0 < d \<and> d \<le> maxRetryAfter)"
  proof (cases ok)
    case True
    with a assms(1) have "waits = snd (snd (snd (attempts (URetries u) w target opts 0 0 (u\<lparr>UBreaker := b\<rparr>))))"
      by (simp add: fetchTarget_def)
    then show ?thesis
      using attempts_waits [of 0 "URetries u" 0 w target opts "u\<lparr>UBreaker := b\<rparr>"] assms(3)
      by (simp add: maxRetryAfter_def seconds_def)
  next
    case False
    with a assms(1) show ?thesis by (simp add: fetchTarget_def)
  qed
  have "sum_list waits \<le> int (length waits) * maxRetryAfter" using w by (intro sum_list_le) auto
  also have "\<dots> \<le> (int (URetries u) - 1) * maxRetryAfter"
    using w assms(2) by (intro mult_right_mono) (auto simp: maxRetryAfter_def seconds_def)
  finally show ?thesis using w assms(2) by (auto simp: maxRetryAfter_def)
qed

text \<open>Three attempts that are told to wait an hour wait thirty seconds twice.\<close>

theorem fetch_waits_are_bounded_witness:
  "snd (snd (snd (fetchTarget (example_weather 429 ''3600'') (example_url ''repo.example'') example_opts example_upstream)))
     = [seconds 30, seconds 30] \<and>
   sum_list (snd (snd (snd (fetchTarget (example_weather 429 ''3600'') (example_url ''repo.example'') example_opts example_upstream))))
     \<le> (int (URetries example_upstream) - 1) * seconds 30"
proof -
  define r where "r = fetchTarget (example_weather 429 ''3600'') (example_url ''repo.example'') example_opts example_upstream"
  obtain out u' sent waits where r: "r = (out, u', sent, waits)" by (metis prod_cases4)
  have "snd (snd (snd (fetchTarget (example_weather 429 ''3600'') (example_url ''repo.example'') example_opts example_upstream)))
     = [seconds 30, seconds 30]" by code_simp
  moreover have "0 < URetries example_upstream" "URetries example_upstream \<le> 9" by code_simp+
  ultimately show ?thesis
    using fetch_waits_are_bounded [OF r [unfolded r_def]] r unfolding r_def by simp
qed

subsection \<open>A probe that is only throttled\<close>

lemma throttled_attempt:
  assumes "\<And>req. \<exists>resp. answer net req = Some resp \<and> Status resp = 429"
  shows "\<exists>d sent. attempt net base now target opts c = (Inl (Throttled d), c, sent)"
proof -
  define req where "req = authorize now c \<lparr>RURL = target, RAccept = OAccept opts, RAuthorization = []\<rparr>"
  obtain resp where r: "answer net req = Some resp" "Status resp = 429" using assms by blast
  then have "Do net base req = (Some resp, [req])"
    unfolding Do_def by (subst client_Do.simps) (simp add: redirect_of_def)
  with r show ?thesis
    unfolding attempt_def Let_def req_def [symmetric] by (simp add: classify_def)
qed

lemma throttled_attempts_breaker:
  assumes "\<And>n req. \<exists>resp. answer (net_at w n) req = Some resp \<and> Status resp = 429"
  shows "UBreaker (fst (snd (attempts left w target opts n wait u))) = UBreaker u \<and>
         (\<exists>e. fst (attempts left w target opts n wait u) = Inl e)"
proof (induction left arbitrary: n wait u)
  case 0
  then show ?case by simp
next
  case (Suc left)
  obtain d sent where "attempt (net_at w n) (UBase u) (now_at w n) target opts (UTokens u) = (Inl (Throttled d), UTokens u, sent)"
    using throttled_attempt assms by blast
  with Suc.IH [of "Suc n" d u] show ?case by (auto simp: Let_def with_trace_def split: prod.splits)
qed

text \<open>
  C38: The breaker's probe can be lost for good.  When the breaker is open, its cooldown has passed
  and the upstream answers the probe with 429 on every attempt, the fetch reports no outcome to the
  breaker: it stays half-open with the probe in flight, and from then on every fetch of that client,
  at any time and however healthy the upstream is, is refused without a request being sent.
\<close>

theorem throttled_probe_closes_the_feed:
  assumes "BState (UBreaker u) = BreakerOpen" and "now_at w 0 - OpenedAt (UBreaker u) \<ge> Cooldown (UBreaker u)"
    and "\<And>n req. \<exists>resp. answer (net_at w n) req = Some resp \<and> Status resp = 429"
    and "fetchTarget w target opts u = (out, u', sent, waits)"
  shows "fetchTarget w' target' opts' u' = (Inl FUnavailable, u', [], [])"
proof -
  define b where "b = UBreaker u\<lparr>BState := BreakerHalfOpen, ProbeInFlight := True\<rparr>"
  have "Allow (now_at w 0) (UBreaker u) = (True, b)" using assms(1,2) by (simp add: Allow_def b_def)
  with assms(4) have "u' = fst (snd (attempts (URetries u) w target opts 0 0 (u\<lparr>UBreaker := b\<rparr>)))"
    by (simp add: fetchTarget_def)
  then have "UBreaker u' = b" using throttled_attempts_breaker [OF assms(3)] by simp
  then have "Allow t (UBreaker u') = (False, UBreaker u')" for t by (simp add: Allow_def b_def)
  then show ?thesis by (simp add: fetchTarget_def)
qed

definition opened_upstream :: upstream where
  "opened_upstream = example_upstream\<lparr>UBreaker := (NewBreaker 0 0)\<lparr>BState := BreakerOpen, OpenedAt := 0, Failures := 5\<rparr>\<rparr>"

text \<open>An hour later the upstream is healthy and the fetch is still refused.\<close>

definition throttling_weather :: weather where
  "throttling_weather = (example_weather 429 [])\<lparr>net_at := (\<lambda>_. (example_net 429 [])\<lparr>answer := (\<lambda>_. Some (example_response 429 []))\<rparr>)\<rparr>"

theorem throttled_probe_closes_the_feed_witness:
  "\<exists>u'. u' = fst (snd (fetchTarget throttling_weather (example_url ''repo.example'') example_opts opened_upstream)) \<and>
     fst (fetchTarget (example_weather 200 []\<lparr>now_at := (\<lambda>_. seconds 3700)\<rparr>) (example_url ''repo.example'') example_opts example_upstream)
       = Inr (example_response 200 []) \<and>
     fetchTarget (example_weather 200 []\<lparr>now_at := (\<lambda>_. seconds 3700)\<rparr>) (example_url ''repo.example'') example_opts u'
       = (Inl FUnavailable, u', [], [])"
proof -
  define r where "r = fetchTarget throttling_weather (example_url ''repo.example'') example_opts opened_upstream"
  obtain out u' sent waits where r: "r = (out, u', sent, waits)" by (metis prod_cases4)
  have o: "BState (UBreaker opened_upstream) = BreakerOpen" by code_simp
  have c: "Cooldown (UBreaker opened_upstream) \<le> now_at throttling_weather 0 - OpenedAt (UBreaker opened_upstream)" by code_simp
  have t: "\<exists>resp. answer (net_at throttling_weather n) req = Some resp \<and> Status resp = 429" for n req
    by (simp add: throttling_weather_def example_response_def)
  have h: "fst (fetchTarget (example_weather 200 []\<lparr>now_at := (\<lambda>_. seconds 3700)\<rparr>) (example_url ''repo.example'') example_opts example_upstream)
       = Inr (example_response 200 [])" by code_simp
  show ?thesis
    using throttled_probe_closes_the_feed [OF o c t r [unfolded r_def]] h r unfolding r_def by simp
qed

end
