(* ===== verification/Peer_Fetch.thy ===== *)
theory Peer_Fetch
  imports Blob_Store
begin

text \<open>
  How a blob comes from a peer site: \<^verbatim>\<open>Client.FetchBlob\<close> and \<^verbatim>\<open>streamBlob\<close> of \<^verbatim>\<open>src/core/repl/puller.go\<close>,
  \<^verbatim>\<open>Manager.EnsureBlob\<close>, \<^verbatim>\<open>HasBlob\<close> and \<^verbatim>\<open>FetchManifest\<close> of \<^verbatim>\<open>src/core/repl/manager.go\<close>.  A peer is what
  it answers to each request; its bytes are not trusted.
\<close>

definition blobKey :: "string \<Rightarrow> string" where
  "blobKey sha = ''blobs/sha256/'' @ sha"

lemma blobKey_inj [simp]: "blobKey a = blobKey b \<longleftrightarrow> a = b"
  by (simp add: blobKey_def)

subsection \<open>A transfer\<close>

text \<open>A reply: its status, the bytes that arrive, and whether the connection breaks after them.\<close>

datatype blob_reply = No_reply | Reply int string bool

datatype peer_error = PNotFound | PMismatch | PFailed

definition streamBlob :: "blob_reply \<Rightarrow> int \<Rightarrow> int \<Rightarrow> string \<times> peer_error option" where
  "streamBlob reply offset limit =
     (case reply of
        No_reply \<Rightarrow> ([], Some PFailed)
      | Reply status body broken \<Rightarrow>
          if status = 404 then ([], Some PNotFound)
          else if offset > 0 \<and> status = 200 then ([], Some PFailed)
          else if offset > 0 \<and> status \<noteq> 206 then ([], Some PFailed)
          else if offset = 0 \<and> status \<noteq> 200 then ([], Some PFailed)
          else
            let cap = nat (wrap64 (limit + 1)); n = take cap body
            in if broken \<and> length body < cap then (n, Some PFailed)
               else if int (length n) > limit then (n, Some PFailed)
               else (n, None))"

definition maxUnsizedBlob :: int where "maxUnsizedBlob = 8 * 2 ^ 30"

definition spool_limit :: "int \<Rightarrow> int" where
  "spool_limit sz = (if sz \<le> 0 then maxUnsizedBlob else wrap64 (sz + 2 ^ 20))"

type_synonym peer_blobs = "string \<Rightarrow> nat \<Rightarrow> int \<Rightarrow> blob_reply"

primrec stream_attempts :: "nat \<Rightarrow> nat \<Rightarrow> peer_blobs \<Rightarrow> string \<Rightarrow> int \<Rightarrow> string \<Rightarrow> peer_error option \<Rightarrow> string \<times> peer_error option" where
  "stream_attempts 0 n peer digest limit spooled lastErr = (spooled, lastErr)"
| "stream_attempts (Suc left) n peer digest limit spooled lastErr =
     (if int (length spooled) > limit then (spooled, Some PFailed)
      else (case streamBlob (peer digest n (int (length spooled))) (int (length spooled)) (limit - int (length spooled)) of
              (part, None) \<Rightarrow> (spooled @ part, None)
            | (part, Some e) \<Rightarrow>
                if e = PNotFound \<or> part = [] then (spooled @ part, Some e)
                else stream_attempts left (Suc n) peer digest limit (spooled @ part) (Some e)))"

definition FetchBlob ::
  "(string \<Rightarrow> string) \<Rightarrow> os \<Rightarrow> int \<Rightarrow> peer_blobs \<Rightarrow> string \<Rightarrow> int \<Rightarrow> fs \<Rightarrow> (peer_error + unit) \<times> fs" where
  "FetchBlob sha256 io now peer digest sz s =
     (case stream_attempts 3 0 peer digest (spool_limit sz) [] None of
        (_, Some e) \<Rightarrow> (Inl e, s)
      | (spooled, None) \<Rightarrow>
          if sha256 spooled \<noteq> digest then (Inl PMismatch, s)
          else if sz > 0 \<and> int (length spooled) \<noteq> sz then (Inl PFailed, s)
          else (case store_Put sha256 io now (blobKey digest) spooled
                       \<lparr>PSHA256 = digest, PSize = int (length spooled), PContentType = []\<rparr> s of
                  (Inl e, s) \<Rightarrow> (Inl (if e = SMismatch then PMismatch else PFailed), s)
                | (Inr _, s) \<Rightarrow> (Inr (), s)))"

subsection \<open>Any peer that has it\<close>

record peer_client =
  CName :: string
  CBlobs :: peer_blobs
  CManifest :: "string \<Rightarrow> string \<Rightarrow> (peer_error + string \<times> int)"

definition HasBlob :: "os \<Rightarrow> string \<Rightarrow> fs \<Rightarrow> bool" where
  "HasBlob io digest s = (case store_Stat io (blobKey digest) s of Inr _ \<Rightarrow> True | Inl _ \<Rightarrow> False)"

definition order_clients :: "string \<Rightarrow> peer_client list \<Rightarrow> peer_client list" where
  "order_clients fromPeer cs = fold (\<lambda>c ordered. if CName c = fromPeer then c # ordered else ordered @ [c]) cs []"

primrec fetch_from :: "(string \<Rightarrow> string) \<Rightarrow> (nat \<Rightarrow> os) \<Rightarrow> int \<Rightarrow> nat \<Rightarrow> string \<Rightarrow> int \<Rightarrow> peer_client list \<Rightarrow> peer_error option \<Rightarrow> fs \<Rightarrow> (peer_error + unit) \<times> fs" where
  "fetch_from sha256 io now n digest sz [] lastErr s =
     (Inl (case lastErr of None \<Rightarrow> PNotFound | Some e \<Rightarrow> e), s)"
| "fetch_from sha256 io now n digest sz (c # cs) lastErr s =
     (case FetchBlob sha256 (io n) now (CBlobs c) digest sz s of
        (Inr _, s) \<Rightarrow> (Inr (), s)
      | (Inl e, s) \<Rightarrow> fetch_from sha256 io now (Suc n) digest sz cs (Some e) s)"

definition EnsureBlob ::
  "(string \<Rightarrow> string) \<Rightarrow> (nat \<Rightarrow> os) \<Rightarrow> int \<Rightarrow> peer_client list \<Rightarrow> string \<Rightarrow> int \<Rightarrow> string \<Rightarrow> fs \<Rightarrow> (peer_error + unit) \<times> fs" where
  "EnsureBlob sha256 io now clients digest sz fromPeer s =
     (if HasBlob (io 0) digest s then (Inr (), s)
      else fetch_from sha256 io now 1 digest sz (order_clients fromPeer clients) None s)"

subsection \<open>Looking a coordinate up at the peers\<close>

type_synonym misses = "(string \<times> int) list"

definition recentlyMissing :: "int \<Rightarrow> string \<Rightarrow> misses \<Rightarrow> bool \<times> misses" where
  "recentlyMissing now key m =
     (case map_of m key of
        None \<Rightarrow> (False, m)
      | Some until \<Rightarrow> if now > until then (False, remove_file key m) else (True, m))"

definition noteMissing :: "int \<Rightarrow> int \<Rightarrow> string \<Rightarrow> misses \<Rightarrow> misses" where
  "noteMissing now missTTL key m = write_file key (now + missTTL) (if length m > 4096 then [] else m)"

text \<open>\<^verbatim>\<open>Client.Manifest\<close> refuses an answer whose digest is not 64 characters long.\<close>

definition client_Manifest :: "peer_client \<Rightarrow> string \<Rightarrow> string \<Rightarrow> peer_error + string \<times> int" where
  "client_Manifest c feed path =
     (case CManifest c feed path of
        Inl e \<Rightarrow> Inl e
      | Inr (sha, sz) \<Rightarrow> if length sha \<noteq> 64 then Inl PFailed else Inr (sha, sz))"

primrec ask_clients :: "peer_client list \<Rightarrow> string \<Rightarrow> string \<Rightarrow> peer_error \<Rightarrow> peer_error + string \<times> int" where
  "ask_clients [] feed path lastErr = Inl lastErr"
| "ask_clients (c # cs) feed path lastErr =
     (case client_Manifest c feed path of Inr r \<Rightarrow> Inr r | Inl e \<Rightarrow> ask_clients cs feed path e)"

definition FetchManifest ::
  "int \<Rightarrow> int \<Rightarrow> peer_client list \<Rightarrow> string \<Rightarrow> string \<Rightarrow> misses \<Rightarrow> (peer_error + string \<times> int) \<times> misses" where
  "FetchManifest now missTTL clients feed path m =
     (let key = feed @ ''/'' @ path
      in (case recentlyMissing now key m of
            (True, m) \<Rightarrow> (Inl PNotFound, m)
          | (False, m) \<Rightarrow>
              (case ask_clients clients feed path PNotFound of
                 Inr r \<Rightarrow> (Inr r, m)
               | Inl e \<Rightarrow> (Inl e, noteMissing now missTTL key m))))"

subsection \<open>What a transfer can do\<close>

text \<open>Every blob is stored under the digest of its content.\<close>

definition addressed :: "(string \<Rightarrow> string) \<Rightarrow> fs \<Rightarrow> bool" where
  "addressed sha256 s \<longleftrightarrow> (\<forall>d content. content_at (blobKey d) s = Some content \<longrightarrow> sha256 content = d)"

text \<open>A store that differs only by blobs that were added.\<close>

definition adds_blobs :: "fs \<Rightarrow> fs \<Rightarrow> bool" where
  "adds_blobs s s' \<longleftrightarrow>
     (\<forall>k. content_at k s' = content_at k s \<or> (\<exists>d. k = blobKey d))"

lemma adds_blobs_refl [simp]: "adds_blobs s s"
  by (simp add: adds_blobs_def)

lemma adds_blobs_trans: "adds_blobs a b \<Longrightarrow> adds_blobs b c \<Longrightarrow> adds_blobs a c"
  unfolding adds_blobs_def by metis

lemma addressed_same: "addressed sha256 s \<Longrightarrow> (\<And>k. content_at k s' = content_at k s) \<Longrightarrow> addressed sha256 s'"
  by (simp add: addressed_def)

lemma addressed_write:
  assumes "addressed sha256 s" and "\<And>k. content_at k s' = (if k = key then Some content else content_at k s)"
    and "\<And>d. key = blobKey d \<Longrightarrow> sha256 content = d"
  shows "addressed sha256 s'"
  unfolding addressed_def
proof (intro allI impI)
  fix d c
  assume "content_at (blobKey d) s' = Some c"
  with assms show "sha256 c = d" by (cases "blobKey d = key") (auto simp: addressed_def)
qed

lemma FetchBlob_effect:
  assumes "FetchBlob sha256 io now peer digest sz s = (r, s')"
  shows "addressed sha256 s \<longrightarrow> addressed sha256 s'" and "adds_blobs s s'"
    and "r = Inr () \<Longrightarrow> \<exists>content. content_at (blobKey digest) s' = Some content"
proof -
  obtain spooled e where st: "stream_attempts 3 0 peer digest (spool_limit sz) [] None = (spooled, e)" by fastforce
  obtain r1 s1 where p: "store_Put sha256 io now (blobKey digest) spooled
      \<lparr>PSHA256 = digest, PSize = int (length spooled), PContentType = []\<rparr> s = (r1, s1)" by fastforce
  have "s' = s \<and> r \<noteq> Inr () \<or> s' = s1 \<and> sha256 spooled = digest \<and> (r = Inr () \<longleftrightarrow> r1 = Inr ())"
    using assms st p unfolding FetchBlob_def by (auto split: option.splits if_splits sum.splits)
  then have "(\<forall>k. content_at k s' = content_at k s) \<and> r \<noteq> Inr () \<or>
     (\<exists>content. sha256 content = digest \<and>
        (\<forall>k. content_at k s' = (if k = blobKey digest then Some content else content_at k s)))"
    using content_at_Put [OF p] by (cases "r1 = Inr ()") auto
  then show "addressed sha256 s \<longrightarrow> addressed sha256 s'" "adds_blobs s s'"
    "r = Inr () \<Longrightarrow> \<exists>content. content_at (blobKey digest) s' = Some content"
    by (auto simp: adds_blobs_def intro: addressed_same addressed_write)
qed

lemma fetch_from_effect:
  "fetch_from sha256 io now n digest sz cs lastErr s = (r, s') \<Longrightarrow>
     (addressed sha256 s \<longrightarrow> addressed sha256 s') \<and> adds_blobs s s' \<and>
     (r = Inr () \<longrightarrow> (\<exists>content. content_at (blobKey digest) s' = Some content))"
proof (induction cs arbitrary: n lastErr s)
  case Nil
  then show ?case by auto
next
  case (Cons c cs)
  obtain r1 s1 where f: "FetchBlob sha256 (io n) now (CBlobs c) digest sz s = (r1, s1)" by fastforce
  note e = FetchBlob_effect [OF f]
  show ?case
  proof (cases r1)
    case (Inr u)
    with Cons.prems f e show ?thesis by auto
  next
    case (Inl err)
    with Cons.prems f have "fetch_from sha256 io now (Suc n) digest sz cs (Some err) s1 = (r, s')" by simp
    from Cons.IH [OF this] e show ?thesis using adds_blobs_trans by blast
  qed
qed

lemma EnsureBlob_effect:
  assumes "EnsureBlob sha256 io now clients digest sz fromPeer s = (r, s')"
  shows "addressed sha256 s \<Longrightarrow> addressed sha256 s'" and "adds_blobs s s'"
    and "r = Inr () \<Longrightarrow> \<exists>content. content_at (blobKey digest) s' = Some content"
proof -
  have "(addressed sha256 s \<longrightarrow> addressed sha256 s') \<and> adds_blobs s s' \<and>
     (r = Inr () \<longrightarrow> (\<exists>content. content_at (blobKey digest) s' = Some content))"
  proof (cases "HasBlob (io 0) digest s")
    case True
    with assms show ?thesis
      by (auto simp: EnsureBlob_def HasBlob_def dest: store_Stat_found split: sum.splits)
  next
    case False
    with assms have "fetch_from sha256 io now 1 digest sz (order_clients fromPeer clients) None s = (r, s')"
      by (simp add: EnsureBlob_def)
    from fetch_from_effect [OF this] show ?thesis .
  qed
  then show "addressed sha256 s \<Longrightarrow> addressed sha256 s'" "adds_blobs s s'"
    "r = Inr () \<Longrightarrow> \<exists>content. content_at (blobKey digest) s' = Some content" by auto
qed

text \<open>
  What a peer can make this site spool: whatever it sends, on however many resumed transfers, no more
  than the declared size, the megabyte of slack and one byte.
\<close>

lemma streamBlob_length:
  assumes "0 \<le> limit" "limit < 2 ^ 62"
  shows "int (length (fst (streamBlob reply offset limit))) \<le> limit + 1"
proof -
  have w: "wrap64 (limit + 1) = limit + 1" using assms by (intro wrap64_id) auto
  have t: "int (length (take (nat (limit + 1)) body)) \<le> limit + 1" for body :: string using assms(1) by simp
  from assms(1) show ?thesis
    by (auto simp: streamBlob_def Let_def w t simp del: length_take split: blob_reply.splits)
qed

lemma stream_attempts_length:
  assumes "0 \<le> limit" "limit < 2 ^ 62" "int (length spooled) \<le> limit + 1"
  shows "int (length (fst (stream_attempts left n peer digest limit spooled e))) \<le> limit + 1"
  using assms
proof (induction left arbitrary: n spooled e)
  case 0
  then show ?case by simp
next
  case (Suc left)
  show ?case
  proof (cases "int (length spooled) > limit")
    case True
    with Suc.prems show ?thesis by simp
  next
    case False
    define part where "part = streamBlob (peer digest n (int (length spooled))) (int (length spooled)) (limit - int (length spooled))"
    have "int (length (fst part)) \<le> limit - int (length spooled) + 1"
      unfolding part_def by (rule streamBlob_length) (use False Suc.prems in auto)
    then have "int (length (spooled @ fst part)) \<le> limit + 1" by simp
    then show ?thesis
      using False Suc.IH [OF Suc.prems(1,2)] by (auto simp: part_def [symmetric] split: prod.splits option.splits)
  qed
qed

lemma FetchBlob_spools:
  assumes "sz < 2 ^ 61"
  shows "int (length (fst (stream_attempts 3 0 peer digest (spool_limit sz) [] None))) \<le> max (8 * 2 ^ 30) (sz + 2 ^ 20) + 1"
proof -
  have l: "spool_limit sz = (if sz \<le> 0 then 8 * 2 ^ 30 else sz + 2 ^ 20)"
    using assms wrap64_id [of "sz + 2 ^ 20"] by (simp add: spool_limit_def maxUnsizedBlob_def)
  have "int (length (fst (stream_attempts 3 0 peer digest (spool_limit sz) [] None))) \<le> spool_limit sz + 1"
    by (rule stream_attempts_length) (use assms in \<open>auto simp: l\<close>)
  then show ?thesis using l by (auto split: if_splits)
qed

end
