(* ===== verification/Pipeline.thy ===== *)
theory Pipeline
  imports Upstream Peer_Fetch Repl_State
begin

text \<open>
  The read path, \<^verbatim>\<open>src/core/pipeline/pipeline.go\<close>: cache lookup, peers, lock, upstream fetch, checksum,
  store, serve.  A step of it reads and changes one world (the blob store, the upstream client, the
  memory of peer misses, a count of the operations so far) and may fail; what the surroundings do to
  the n-th operation is an argument.  Formats reach it as records of the functions their modules
  implement.  No value stands for a request that never returns.
\<close>

subsection \<open>Intents\<close>

datatype intent_kind = IntentArtifact | IntentMetadata | IntentSynthetic | IntentSearch

record checksum =
  Algo :: string
  Hex :: string

definition no_checksum :: checksum where "no_checksum = \<lparr>Algo = [], Hex = []\<rparr>"

definition IsZero :: "checksum \<Rightarrow> bool" where
  "IsZero c \<longleftrightarrow> Algo c = [] \<and> Hex c = []"

record checksum_source =
  SAlgo :: string
  SPath :: string

definition source_IsZero :: "checksum_source \<Rightarrow> bool" where
  "source_IsZero c \<longleftrightarrow> SAlgo c = [] \<and> SPath c = []"

record intent =
  IKind :: intent_kind
  ICoord :: coordinate
  CacheTTL :: int
  RemotePath :: string
  IChecksum :: checksum
  RemoteChecksum :: checksum_source
  WantChecksum :: string
  Indirect :: bool
  RemoteURL :: string
  IMediaType :: string
  IAccept :: string
  RemoteQuery :: string

record feed =
  FeedName :: string
  FeedFormat :: string
  FeedUpstream :: string
  FeedAnonymous :: bool
  FeedGroup :: bool
  FeedHosted :: bool
  FeedExternalURL :: string

datatype source = SourceCache | SourceUpstream | SourceStale | SourceLocal | SourcePeer

record served =
  VBody :: string
  VSize :: int
  VSHA256 :: string
  VModTime :: int
  VSource :: source
  VBlobKey :: string
  VContentType :: string

record manifest =
  PtSHA256 :: string
  PtSize :: int
  PtChecksums :: strmap
  PtCoordinate :: string
  PtIngestedAt :: int
  PtOrigin :: string
  PtSite :: string
  PtPublisher :: string
  PtMetadata :: strmap

record intent_request =
  QFeed :: feed
  QIntent :: intent
  QUpstream :: bool
  QPeerFallback :: bool

subsection \<open>The format module and the surroundings\<close>

record metadata_source =
  MetadataIntent :: "feed \<Rightarrow> coordinate \<Rightarrow> intent option"
  ExtractMetadata :: "coordinate \<Rightarrow> string \<Rightarrow> strmap option"

record format_module =
  RewriteMetadata :: "feed \<Rightarrow> string \<Rightarrow> string option"
  ResolveIndirect :: "(feed \<Rightarrow> intent \<Rightarrow> response \<Rightarrow> string \<Rightarrow> (string \<times> checksum) option) option"
  AsMetadataSource :: "metadata_source option"

text \<open>
  The hash functions by algorithm, the JSON form of a manifest, the resolution of a reference, the
  module and the peers; and, for the n-th operation, what the operating system, the clock, the
  network, the lock, the temporary file and the download do, and what other replicas did to the store
  while this one waited for the lock.
\<close>

record surroundings =
  hash_of :: "string \<Rightarrow> string \<Rightarrow> string"
  encode_manifest :: "manifest \<Rightarrow> string"
  decode_manifest :: "string \<Rightarrow> manifest option"
  resolve_reference :: "url \<Rightarrow> string \<Rightarrow> string option"
  Module :: format_module
  Peers :: "peer_client list option"
  missTTL :: int
  Site_name :: string
  os_at :: "nat \<Rightarrow> os"
  clock_at :: "nat \<Rightarrow> int"
  weather_at :: "nat \<Rightarrow> weather"
  lock_at :: "nat \<Rightarrow> bool"
  meanwhile :: "nat \<Rightarrow> fs \<Rightarrow> fs"
  spool_at :: "nat \<Rightarrow> bool"
  download_at :: "nat \<Rightarrow> bool"

record pipe_world =
  WFs :: fs
  WUp :: upstream
  WMisses :: misses
  WSent :: "request list"
  WTick :: nat

datatype pipe_error = ENotFound | EChecksumMismatch | EUpstreamUnavailable | EOther

subsection \<open>Steps\<close>

type_synonym 'a act = "pipe_world \<Rightarrow> ((pipe_error + 'a) \<times> pipe_world) option"

definition ret :: "'a \<Rightarrow> 'a act" where "ret x w = Some (Inr x, w)"

definition throw :: "pipe_error \<Rightarrow> 'a act" where "throw e w = Some (Inl e, w)"

definition handle :: "'a act \<Rightarrow> ((pipe_error + 'a) \<Rightarrow> 'b act) \<Rightarrow> 'b act" where
  "handle m f w = (case m w of None \<Rightarrow> None | Some (r, w) \<Rightarrow> f r w)"

definition seq :: "'a act \<Rightarrow> ('a \<Rightarrow> 'b act) \<Rightarrow> 'b act" where
  "seq m f = handle m (\<lambda>r. case r of Inl e \<Rightarrow> throw e | Inr x \<Rightarrow> f x)"

definition tick :: "pipe_world \<Rightarrow> pipe_world" where "tick w = w\<lparr>WTick := Suc (WTick w)\<rparr>"

definition of_store :: "store_error \<Rightarrow> pipe_error" where
  "of_store e = (case e of SNotFound \<Rightarrow> ENotFound | SMismatch \<Rightarrow> EChecksumMismatch | SOther \<Rightarrow> EOther)"

definition of_fetch :: "fetch_error \<Rightarrow> pipe_error" where
  "of_fetch e = (case e of FNotFound \<Rightarrow> ENotFound | FUnavailable \<Rightarrow> EUpstreamUnavailable | FDestination \<Rightarrow> EUpstreamUnavailable | _ \<Rightarrow> EOther)"

definition of_peer :: "peer_error \<Rightarrow> pipe_error" where
  "of_peer e = (case e of PNotFound \<Rightarrow> ENotFound | PMismatch \<Rightarrow> EChecksumMismatch | PFailed \<Rightarrow> EOther)"

definition get_now :: "surroundings \<Rightarrow> int act" where
  "get_now p w = Some (Inr (clock_at p (WTick w)), tick w)"

definition do_Get :: "surroundings \<Rightarrow> string \<Rightarrow> (string \<times> blob_info) act" where
  "do_Get p key w =
     Some ((case store_Get (os_at p (WTick w)) key (WFs w) of Inl e \<Rightarrow> Inl (of_store e) | Inr x \<Rightarrow> Inr x), tick w)"

definition do_Stat :: "surroundings \<Rightarrow> string \<Rightarrow> blob_info act" where
  "do_Stat p key w =
     Some ((case store_Stat (os_at p (WTick w)) key (WFs w) of Inl e \<Rightarrow> Inl (of_store e) | Inr x \<Rightarrow> Inr x), tick w)"

definition do_Put :: "surroundings \<Rightarrow> string \<Rightarrow> string \<Rightarrow> put_opts \<Rightarrow> unit act" where
  "do_Put p key content opts w =
     (case store_Put (hash_of p ''sha256'') (os_at p (WTick w)) (clock_at p (WTick w)) key content opts (WFs w) of
        (r, s) \<Rightarrow> Some ((case r of Inl e \<Rightarrow> Inl (of_store e) | Inr x \<Rightarrow> Inr x), tick (w\<lparr>WFs := s\<rparr>)))"

definition do_fetch :: "surroundings \<Rightarrow> (weather \<Rightarrow> upstream \<Rightarrow> (fetch_error + 'a) \<times> upstream \<times> request list \<times> int list) \<Rightarrow> 'a act" where
  "do_fetch p f w =
     (case f (weather_at p (WTick w)) (WUp w) of
        (r, u, sent, _) \<Rightarrow>
          Some ((case r of Inl e \<Rightarrow> Inl (of_fetch e) | Inr x \<Rightarrow> Inr x), tick (w\<lparr>WUp := u, WSent := WSent w @ sent\<rparr>)))"

definition do_EnsureBlob :: "surroundings \<Rightarrow> peer_client list \<Rightarrow> string \<Rightarrow> int \<Rightarrow> unit act" where
  "do_EnsureBlob p clients sha sz w =
     (case EnsureBlob (hash_of p ''sha256'') (\<lambda>n. os_at p (WTick w + n)) (clock_at p (WTick w)) clients sha sz [] (WFs w) of
        (r, s) \<Rightarrow> Some ((case r of Inl e \<Rightarrow> Inl (of_peer e) | Inr x \<Rightarrow> Inr x),
                         w\<lparr>WFs := s, WTick := WTick w + length clients + 1\<rparr>))"

definition do_FetchManifest :: "surroundings \<Rightarrow> peer_client list \<Rightarrow> string \<Rightarrow> string \<Rightarrow> (string \<times> int) act" where
  "do_FetchManifest p clients feed path w =
     (case FetchManifest (clock_at p (WTick w)) (missTTL p) clients feed path (WMisses w) of
        (r, m) \<Rightarrow> Some ((case r of Inl e \<Rightarrow> Inl (of_peer e) | Inr x \<Rightarrow> Inr x), tick (w\<lparr>WMisses := m\<rparr>)))"

definition with_lock :: "surroundings \<Rightarrow> 'a act \<Rightarrow> 'a act" where
  "with_lock p m w =
     (if lock_at p (WTick w) then m (tick (w\<lparr>WFs := meanwhile p (WTick w) (WFs w)\<rparr>)) else Some (Inl EOther, tick w))"

text \<open>An outside operation that works or fails with no other effect.\<close>

definition works :: "(nat \<Rightarrow> bool) \<Rightarrow> unit act" where
  "works f w = Some (if f (WTick w) then Inr () else Inl EOther, tick w)"

subsection \<open>Keys\<close>

definition manifestKey :: "feed \<Rightarrow> intent \<Rightarrow> string" where
  "manifestKey feed i = ''manifests/'' @ FeedName feed @ ''/'' @ RemotePath i"

definition metaKey :: "surroundings \<Rightarrow> feed \<Rightarrow> intent \<Rightarrow> string" where
  "metaKey p feed i =
     (let key = ''meta/'' @ FeedName feed @ ''/'' @ RemotePath i
      in if RemoteQuery i = [] then key else key @ ''@'' @ take 16 (hash_of p ''sha256'' (RemoteQuery i)))"

subsection \<open>Checksums\<close>

definition hasherFor :: "surroundings \<Rightarrow> string \<Rightarrow> (string \<Rightarrow> string) option" where
  "hasherFor p algo = (if algo \<in> {''sha1'', ''md5'', ''sha256'', ''sha512''} then Some (hash_of p algo) else None)"

definition all_digests :: "surroundings \<Rightarrow> string \<Rightarrow> strmap" where
  "all_digests p body = map (\<lambda>algo. (algo, hash_of p algo body)) [''sha1'', ''md5'', ''sha256'', ''sha512'']"

definition verifyChecksum :: "checksum \<Rightarrow> strmap \<Rightarrow> bool" where
  "verifyChecksum want digests =
     (if IsZero want then True
      else (case map_of digests (to_lower (Algo want)) of None \<Rightarrow> False | Some got \<Rightarrow> equal_fold got (Hex want)))"

definition checksumHexLen :: "string \<Rightarrow> nat option" where
  "checksumHexLen = map_of [(''md5'', 32), (''sha1'', 40), (''sha256'', 64), (''sha512'', 128)]"

fun words :: "string \<Rightarrow> string \<Rightarrow> string list" where
  "words cur [] = (if cur = [] then [] else [rev cur])"
| "words cur (c # cs) = (if is_space c then (if cur = [] then words [] cs else rev cur # words [] cs) else words (c # cur) cs)"

definition is_hex :: "char \<Rightarrow> bool" where
  "is_hex c \<longleftrightarrow> (CHR ''0'' \<le> c \<and> c \<le> CHR ''9'') \<or> (CHR ''a'' \<le> c \<and> c \<le> CHR ''f'')"

definition parseChecksumBody :: "string \<Rightarrow> string \<Rightarrow> string option" where
  "parseChecksumBody algo body =
     (case words [] body of
        [] \<Rightarrow> None
      | f # _ \<Rightarrow>
          let digest = to_lower f
          in (case checksumHexLen algo of
                None \<Rightarrow> None
              | Some want \<Rightarrow> if length digest \<noteq> want then None else if list_all is_hex digest then Some digest else None))"

subsection \<open>Manifests and blobs\<close>

definition loadManifest :: "surroundings \<Rightarrow> string \<Rightarrow> manifest act" where
  "loadManifest p key = seq (do_Get p key) (\<lambda>(raw, _).
     case readAllCapped raw (2 ^ 20) of
       None \<Rightarrow> throw EOther
     | Some raw \<Rightarrow>
         (case decode_manifest p raw of
            None \<Rightarrow> throw EOther
          | Some m \<Rightarrow> if PtSHA256 m = [] then throw EOther else ret m))"

definition MetaContentType :: string where "MetaContentType = ''content_type''"

definition lookup_text :: "string \<Rightarrow> strmap \<Rightarrow> string" where
  "lookup_text k m = (case map_of m k of None \<Rightarrow> [] | Some v \<Rightarrow> v)"

definition openBlob :: "surroundings \<Rightarrow> manifest \<Rightarrow> source \<Rightarrow> served act" where
  "openBlob p m src = seq (do_Get p (blobKey (PtSHA256 m))) (\<lambda>(body, info).
     ret \<lparr>VBody = body, VSize = (if ISize info \<ge> 0 \<and> ISize info \<noteq> PtSize m then ISize info else PtSize m),
          VSHA256 = PtSHA256 m, VModTime = IModTime info, VSource = src, VBlobKey = blobKey (PtSHA256 m),
          VContentType = lookup_text MetaContentType (PtMetadata m)\<rparr>)"

definition manifestDigest :: "surroundings \<Rightarrow> manifest \<Rightarrow> string \<Rightarrow> string act" where
  "manifestDigest p m algo =
     (if algo = ''sha256'' \<and> PtSHA256 m \<noteq> [] then ret (PtSHA256 m)
      else if lookup_text algo (PtChecksums m) \<noteq> [] then ret (lookup_text algo (PtChecksums m))
      else (case hasherFor p algo of
              None \<Rightarrow> throw ENotFound
            | Some h \<Rightarrow> seq (do_Get p (blobKey (PtSHA256 m))) (\<lambda>(body, _). ret (h body))))"

definition textResult :: "string \<Rightarrow> source \<Rightarrow> int \<Rightarrow> served" where
  "textResult text src modified =
     \<lparr>VBody = text, VSize = int (length text), VSHA256 = [], VModTime = modified, VSource = src, VBlobKey = [], VContentType = []\<rparr>"

definition artifactResult :: "surroundings \<Rightarrow> intent_request \<Rightarrow> manifest \<Rightarrow> source \<Rightarrow> served act" where
  "artifactResult p req m src =
     (if WantChecksum (QIntent req) = [] then openBlob p m src
      else seq (manifestDigest p m (WantChecksum (QIntent req))) (\<lambda>digest. ret (textResult digest src (PtIngestedAt m))))"

subsection \<open>Peers\<close>

definition peer_manifest :: "string \<Rightarrow> int \<Rightarrow> int \<Rightarrow> manifest" where
  "peer_manifest sha sz now =
     \<lparr>PtSHA256 = sha, PtSize = sz, PtChecksums = [], PtCoordinate = [], PtIngestedAt = now, PtOrigin = ''peer'', PtSite = [],
      PtPublisher = [], PtMetadata = []\<rparr>"

definition fromPeer :: "surroundings \<Rightarrow> intent_request \<Rightarrow> served act" where
  "fromPeer p req =
     (case (if QPeerFallback req then Peers p else None) of
        None \<Rightarrow> throw ENotFound
      | Some clients \<Rightarrow>
          seq (do_FetchManifest p clients (FeedName (QFeed req)) (RemotePath (QIntent req))) (\<lambda>(sha, sz).
          seq (do_EnsureBlob p clients sha sz) (\<lambda>_.
          seq (get_now p) (\<lambda>now. artifactResult p req (peer_manifest sha sz now) SourcePeer))))"

definition fromPeerBlob :: "surroundings \<Rightarrow> intent_request \<Rightarrow> manifest \<Rightarrow> served act" where
  "fromPeerBlob p req m =
     (case (if QPeerFallback req then Peers p else None) of
        None \<Rightarrow> throw ENotFound
      | Some clients \<Rightarrow> seq (do_EnsureBlob p clients (PtSHA256 m) (PtSize m)) (\<lambda>_. artifactResult p req m SourcePeer))"

subsection \<open>Ingesting\<close>

definition fetchRemoteChecksum :: "surroundings \<Rightarrow> intent_request \<Rightarrow> checksum act" where
  "fetchRemoteChecksum p req =
     (let src = RemoteChecksum (QIntent req)
      in handle (do_fetch p (\<lambda>w. FetchAll w (SPath src) \<lparr>OQuery = [], OAccept = []\<rparr>)) (\<lambda>r.
           case r of
             Inl ENotFound \<Rightarrow> ret no_checksum
           | Inl e \<Rightarrow> throw e
           | Inr (body, _) \<Rightarrow>
               (case parseChecksumBody (SAlgo src) body of
                  None \<Rightarrow> throw EChecksumMismatch
                | Some d \<Rightarrow> ret \<lparr>Algo = SAlgo src, Hex = d\<rparr>)))"

definition MetaChecksum :: string where "MetaChecksum = ''checksum''"

definition checksum_text :: "string \<Rightarrow> checksum" where
  "checksum_text raw =
     (case str_cut raw '':'' of (algo, digest, ok) \<Rightarrow> if ok then \<lparr>Algo = to_lower algo, Hex = to_lower digest\<rparr> else no_checksum)"

definition metadataChecksum :: "surroundings \<Rightarrow> (intent_request \<Rightarrow> served act) \<Rightarrow> intent_request \<Rightarrow> checksum act" where
  "metadataChecksum p serve req =
     (case (if QUpstream req then AsMetadataSource (Module p) else None) of
        None \<Rightarrow> ret no_checksum
      | Some src \<Rightarrow>
          (case MetadataIntent src (QFeed req) (ICoord (QIntent req)) of
             None \<Rightarrow> ret no_checksum
           | Some i \<Rightarrow>
               if RemotePath i = RemotePath (QIntent req) then ret no_checksum
               else handle (serve (req\<lparr>QIntent := i\<rparr>)) (\<lambda>r.
                      case r of
                        Inl _ \<Rightarrow> ret no_checksum
                      | Inr res \<Rightarrow>
                          (case readAllCapped (VBody res) metadataSizeCap of
                             None \<Rightarrow> ret no_checksum
                           | Some body \<Rightarrow>
                               (case ExtractMetadata src (ICoord (QIntent req)) body of
                                  None \<Rightarrow> ret no_checksum
                                | Some meta \<Rightarrow>
                                    if lookup_text MetaChecksum meta = [] then ret no_checksum
                                    else ret (checksum_text (lookup_text MetaChecksum meta)))))))"

definition ResolveReference :: "surroundings \<Rightarrow> string \<Rightarrow> string \<Rightarrow> string act" where
  "ResolveReference p remotePath loc w =
     (case resolve_reference p (buildURL (UBase (WUp w)) remotePath []) loc of None \<Rightarrow> throw EOther w | Some t \<Rightarrow> ret t w)"

definition openArtifactStream :: "surroundings \<Rightarrow> intent_request \<Rightarrow> (response \<times> checksum) act" where
  "openArtifactStream p req =
     (let i = QIntent req; opts = \<lparr>OQuery = [], OAccept = IAccept i\<rparr>
      in if RemoteURL i \<noteq> [] then seq (do_fetch p (\<lambda>w. FetchURL w (RemoteURL i) opts)) (\<lambda>resp. ret (resp, no_checksum))
         else seq (do_fetch p (\<lambda>w. Fetch w (RemotePath i) opts)) (\<lambda>resp.
           if \<not> Indirect i then ret (resp, no_checksum)
           else (case ResolveIndirect (Module p) of
                   None \<Rightarrow> throw EOther
                 | Some resolve \<Rightarrow>
                     (case readAllCapped (Body resp) (2 ^ 20) of
                        None \<Rightarrow> throw EOther
                      | Some body \<Rightarrow>
                          (case resolve (QFeed req) i resp body of
                             None \<Rightarrow> throw EOther
                           | Some (loc, published) \<Rightarrow>
                               seq (ResolveReference p (RemotePath i) loc) (\<lambda>target.
                               seq (do_fetch p (\<lambda>w. FetchURL w target \<lparr>OQuery = [], OAccept = []\<rparr>)) (\<lambda>stream. ret (stream, published))))))))"

definition ingestMetadata :: "intent \<Rightarrow> response \<Rightarrow> strmap" where
  "ingestMetadata i resp =
     (if IMediaType i \<noteq> [] then []
      else let declared = trim_space (RContentType resp)
           in if declared = [] \<or> declared = ''application/octet-stream'' then [] else [(MetaContentType, declared)])"

definition expected_checksum :: "surroundings \<Rightarrow> (intent_request \<Rightarrow> served act) \<Rightarrow> intent_request \<Rightarrow> checksum act" where
  "expected_checksum p serve req =
     seq (if IsZero (IChecksum (QIntent req)) \<and> \<not> source_IsZero (RemoteChecksum (QIntent req)) then fetchRemoteChecksum p req
          else ret (IChecksum (QIntent req))) (\<lambda>expected.
     if IsZero expected then metadataChecksum p serve req else ret expected)"

definition proxy_manifest :: "surroundings \<Rightarrow> intent_request \<Rightarrow> response \<Rightarrow> int \<Rightarrow> manifest" where
  "proxy_manifest p req resp now =
     \<lparr>PtSHA256 = hash_of p ''sha256'' (Body resp), PtSize = int (length (Body resp)), PtChecksums = all_digests p (Body resp),
      PtCoordinate = coord_String (ICoord (QIntent req)), PtIngestedAt = now, PtOrigin = ''proxy'', PtSite = Site_name p,
      PtPublisher = [], PtMetadata = ingestMetadata (QIntent req) resp\<rparr>"

definition store_blob :: "surroundings \<Rightarrow> string \<Rightarrow> unit act" where
  "store_blob p body =
     (let digest = hash_of p ''sha256'' body
      in handle (do_Stat p (blobKey digest)) (\<lambda>r.
           case r of
             Inr _ \<Rightarrow> ret ()
           | Inl ENotFound \<Rightarrow> do_Put p (blobKey digest) body \<lparr>PSHA256 = digest, PSize = int (length body), PContentType = []\<rparr>
           | Inl e \<Rightarrow> throw e))"

definition store_verified :: "surroundings \<Rightarrow> intent_request \<Rightarrow> string \<Rightarrow> checksum \<Rightarrow> response \<Rightarrow> manifest act" where
  "store_verified p req mkey expected resp =
     seq (works (spool_at p)) (\<lambda>_.
     seq (works (download_at p)) (\<lambda>_.
     if \<not> verifyChecksum expected (all_digests p (Body resp)) then throw EChecksumMismatch
     else seq (store_blob p (Body resp)) (\<lambda>_.
          seq (get_now p) (\<lambda>now.
          let m = proxy_manifest p req resp now
          in seq (do_Put p mkey (encode_manifest p m) \<lparr>PSHA256 = [], PSize = 0, PContentType = []\<rparr>) (\<lambda>_. ret m)))))"

definition fetchAndStore :: "surroundings \<Rightarrow> (intent_request \<Rightarrow> served act) \<Rightarrow> intent_request \<Rightarrow> string \<Rightarrow> manifest act" where
  "fetchAndStore p serve req mkey =
     seq (expected_checksum p serve req) (\<lambda>expected.
     seq (openArtifactStream p req) (\<lambda>(resp, indirectChecksum).
     store_verified p req mkey (if IsZero expected then indirectChecksum else expected) resp))"

definition ingestArtifact :: "surroundings \<Rightarrow> (intent_request \<Rightarrow> served act) \<Rightarrow> intent_request \<Rightarrow> string \<Rightarrow> manifest act" where
  "ingestArtifact p serve req mkey =
     with_lock p (handle (loadManifest p mkey) (\<lambda>r.
       case r of Inr m \<Rightarrow> ret m | Inl _ \<Rightarrow> fetchAndStore p serve req mkey))"

subsection \<open>Serving\<close>

definition serveArtifact :: "surroundings \<Rightarrow> (intent_request \<Rightarrow> served act) \<Rightarrow> intent_request \<Rightarrow> served act" where
  "serveArtifact p serve req =
     (let mkey = manifestKey (QFeed req) (QIntent req)
      in handle (loadManifest p mkey) (\<lambda>r.
           case r of
             Inr m \<Rightarrow>
               handle (artifactResult p req m SourceCache) (\<lambda>r.
                 case r of
                   Inr res \<Rightarrow> ret res
                 | Inl e \<Rightarrow> handle (fromPeerBlob p req m) (\<lambda>r. case r of Inr res \<Rightarrow> ret res | Inl _ \<Rightarrow> throw e))
           | Inl e \<Rightarrow>
               if e \<noteq> ENotFound then throw e
               else handle (fromPeer p req) (\<lambda>r.
                      case r of
                        Inr res \<Rightarrow> ret res
                      | Inl _ \<Rightarrow>
                          if \<not> QUpstream req then throw ENotFound
                          else seq (ingestArtifact p serve req mkey) (\<lambda>m. artifactResult p req m SourceUpstream))))"

definition openMeta :: "surroundings \<Rightarrow> string \<Rightarrow> source \<Rightarrow> served act" where
  "openMeta p key src = seq (do_Get p key) (\<lambda>(body, info).
     ret \<lparr>VBody = body, VSize = ISize info, VSHA256 = ISHA256 info, VModTime = IModTime info, VSource = src, VBlobKey = [],
          VContentType = IContentType info\<rparr>)"

definition refreshMetadata :: "surroundings \<Rightarrow> intent_request \<Rightarrow> string \<Rightarrow> unit act" where
  "refreshMetadata p req key =
     seq (do_fetch p (\<lambda>w. FetchAll w (RemotePath (QIntent req)) \<lparr>OQuery = RemoteQuery (QIntent req), OAccept = IAccept (QIntent req)\<rparr>)) (\<lambda>(body, contentType).
     case RewriteMetadata (Module p) (QFeed req) body of
       None \<Rightarrow> throw EOther
     | Some rewritten \<Rightarrow> do_Put p key rewritten \<lparr>PSHA256 = [], PSize = 0, PContentType = contentType\<rparr>)"

definition serveMetadataBody :: "surroundings \<Rightarrow> intent_request \<Rightarrow> served act" where
  "serveMetadataBody p req =
     (let key = metaKey p (QFeed req) (QIntent req); ttl = CacheTTL (QIntent req)
      in handle (do_Stat p key) (\<lambda>stat.
         seq (get_now p) (\<lambda>now.
         let cached = (case stat of Inr _ \<Rightarrow> True | Inl _ \<Rightarrow> False);
             fresh = (case stat of Inr info \<Rightarrow> ttl > 0 \<and> now - IModTime info < ttl | Inl _ \<Rightarrow> False)
         in if fresh then openMeta p key SourceCache
            else if \<not> QUpstream req then
              handle (loadManifest p (manifestKey (QFeed req) (QIntent req))) (\<lambda>r.
                case r of
                  Inr m \<Rightarrow> openBlob p m SourceLocal
                | Inl _ \<Rightarrow> if cached then openMeta p key SourceLocal else throw ENotFound)
            else
              handle (refreshMetadata p req key) (\<lambda>r.
                case r of
                  Inr _ \<Rightarrow> openMeta p key SourceUpstream
                | Inl ENotFound \<Rightarrow> throw ENotFound
                | Inl e \<Rightarrow> if cached then openMeta p key SourceStale else throw e))))"

definition serveMetadata :: "surroundings \<Rightarrow> intent_request \<Rightarrow> served act" where
  "serveMetadata p req =
     seq (serveMetadataBody p req) (\<lambda>res.
       if WantChecksum (QIntent req) = [] then ret res
       else (case hasherFor p (WantChecksum (QIntent req)) of
               None \<Rightarrow> throw ENotFound
             | Some h \<Rightarrow> ret (textResult (h (VBody res)) (VSource res) (VModTime res))))"

definition serve_once :: "surroundings \<Rightarrow> (intent_request \<Rightarrow> served act) \<Rightarrow> intent_request \<Rightarrow> served act" where
  "serve_once p serve req =
     (if \<not> validRemotePath (RemotePath (QIntent req)) then throw ENotFound
      else (case IKind (QIntent req) of
              IntentArtifact \<Rightarrow> serveArtifact p serve req
            | IntentMetadata \<Rightarrow> serveMetadata p req
            | IntentSearch \<Rightarrow> serveMetadata p req
            | IntentSynthetic \<Rightarrow> throw EOther))"

text \<open>
  A metadata intent is served by a nested call, so a request returns when its chain of metadata
  intents is shorter than the bound.
\<close>

primrec Serve :: "surroundings \<Rightarrow> nat \<Rightarrow> intent_request \<Rightarrow> served act" where
  "Serve p 0 req = (\<lambda>w. None)"
| "Serve p (Suc n) req = serve_once p (Serve p n) req"

end
