(* ===== verification/Pipeline_Safety.thy ===== *)
theory Pipeline_Safety
  imports Pipeline
begin

text \<open>
  What the read path keeps.  A locale collects what a relation between worlds needs of the primitive
  steps so that every request respects it; it is interpreted three times: every blob stays stored
  under its digest, a manifest never moves once it is there, and every request sent goes to the
  configured host or a public address.
\<close>

subsection \<open>Steps that respect a relation\<close>

definition keeps :: "(pipe_world \<Rightarrow> pipe_world \<Rightarrow> bool) \<Rightarrow> 'a act \<Rightarrow> bool" where
  "keeps R m \<longleftrightarrow> (\<forall>w r w'. m w = Some (r, w') \<longrightarrow> R w w')"

lemma keepsI: "(\<And>w r w'. m w = Some (r, w') \<Longrightarrow> R w w') \<Longrightarrow> keeps R m"
  by (simp add: keeps_def)

lemma keepsD: "keeps R m \<Longrightarrow> m w = Some (r, w') \<Longrightarrow> R w w'"
  by (simp add: keeps_def)

lemma handle_SomeE:
  assumes "handle m f w = Some (r, w'')"
  obtains r' w' where "m w = Some (r', w')" and "f r' w' = Some (r, w'')"
  using assms by (auto simp: handle_def split: option.splits)

locale quiet_relation =
  fixes p :: surroundings
    and R :: "pipe_world \<Rightarrow> pipe_world \<Rightarrow> bool"
  assumes R_refl: "R w w"
    and R_trans: "R a b \<Longrightarrow> R b c \<Longrightarrow> R a c"
    and R_tick: "R w (tick w)"
    and R_fetch: "keeps R (do_fetch p (\<lambda>w. Fetch w path opts))"
    and R_fetchURL: "keeps R (do_fetch p (\<lambda>w. FetchURL w target opts))"
    and R_fetchAll: "keeps R (do_fetch p (\<lambda>w. FetchAll w path opts))"
    and R_ensure: "keeps R (do_EnsureBlob p clients sha sz)"
    and R_lookup: "keeps R (do_FetchManifest p clients fd path)"
    and R_lock: "R w (tick (w\<lparr>WFs := meanwhile p (WTick w) (WFs w)\<rparr>))"
    and R_blob: "keeps R (do_Put p (blobKey (hash_of p ''sha256'' body)) body popts)"
    and R_meta: "keeps R (do_Put p (metaKey p feed i) content popts)"
begin

lemma keeps_ret [intro]: "keeps R (ret x)"
  by (rule keepsI) (auto simp: ret_def R_refl)

lemma keeps_throw [intro]: "keeps R (throw e)"
  by (rule keepsI) (auto simp: throw_def R_refl)

lemma keeps_handle: "keeps R m \<Longrightarrow> (\<And>r. keeps R (f r)) \<Longrightarrow> keeps R (handle m f)"
  by (rule keepsI, erule handle_SomeE) (blast intro: R_trans dest: keepsD)

lemma keeps_seq: "keeps R m \<Longrightarrow> (\<And>x. keeps R (f x)) \<Longrightarrow> keeps R (seq m f)"
  unfolding seq_def by (rule keeps_handle) (auto split: sum.splits)

lemma keeps_Get: "keeps R (do_Get p key)"
  by (rule keepsI) (auto simp: do_Get_def R_tick)

lemma keeps_Stat: "keeps R (do_Stat p key)"
  by (rule keepsI) (auto simp: do_Stat_def R_tick)

lemma keeps_now: "keeps R (get_now p)"
  by (rule keepsI) (auto simp: get_now_def R_tick)

lemma keeps_works: "keeps R (works f)"
  by (rule keepsI) (auto simp: works_def R_tick)

lemma keeps_reference: "keeps R (ResolveReference p path loc)"
  by (rule keepsI) (auto simp: ResolveReference_def throw_def ret_def R_refl split: option.splits)

lemma keeps_lock: "keeps R m \<Longrightarrow> keeps R (with_lock p m)"
  by (rule keepsI) (auto simp: with_lock_def split: if_splits intro: R_tick R_trans [OF R_lock] dest: keepsD)

lemmas keeps_basic =
  keeps_seq keeps_handle keeps_Get keeps_Stat keeps_now keeps_works keeps_reference keeps_ret keeps_throw
  R_fetch R_fetchURL R_fetchAll R_ensure R_lookup R_blob R_meta

lemma keeps_loadManifest: "keeps R (loadManifest p key)"
  unfolding loadManifest_def by (intro keeps_basic) (auto intro: keeps_basic split: prod.splits option.splits)

lemma keeps_openBlob: "keeps R (openBlob p m src)"
  unfolding openBlob_def by (intro keeps_basic) (auto intro: keeps_basic split: prod.splits)

lemma keeps_artifactResult: "keeps R (artifactResult p req m src)"
  unfolding artifactResult_def manifestDigest_def
  by (auto intro!: keeps_basic keeps_openBlob split: prod.splits option.splits)

lemma keeps_fromPeer: "keeps R (fromPeer p req)"
  unfolding fromPeer_def by (auto intro!: keeps_basic keeps_artifactResult split: prod.splits option.splits)

lemma keeps_fromPeerBlob: "keeps R (fromPeerBlob p req m)"
  unfolding fromPeerBlob_def by (auto intro!: keeps_basic keeps_artifactResult split: prod.splits option.splits)

lemma keeps_fetchRemoteChecksum: "keeps R (fetchRemoteChecksum p req)"
  unfolding fetchRemoteChecksum_def Let_def
  by (rule keeps_handle) (auto intro: keeps_basic split: sum.splits pipe_error.splits option.splits prod.splits)

lemma keeps_openArtifactStream: "keeps R (openArtifactStream p req)"
  unfolding openArtifactStream_def Let_def
  by (auto intro!: keeps_basic split: option.splits prod.splits)

lemma keeps_store_blob: "keeps R (store_blob p body)"
  unfolding store_blob_def Let_def
  by (rule keeps_handle) (auto intro: keeps_basic split: sum.splits pipe_error.splits)

lemma keeps_openMeta: "keeps R (openMeta p key src)"
  unfolding openMeta_def by (intro keeps_basic) (auto intro: keeps_basic split: prod.splits)

lemma keeps_refresh: "keeps R (refreshMetadata p req (metaKey p feed i))"
  unfolding refreshMetadata_def by (auto intro!: keeps_basic split: prod.splits option.splits)

lemma keeps_serveMetadataBody: "keeps R (serveMetadataBody p req)"
  unfolding serveMetadataBody_def Let_def
  by (intro keeps_handle keeps_seq keeps_Stat keeps_now)
    (auto intro!: keeps_openMeta keeps_openBlob keeps_handle keeps_loadManifest keeps_refresh keeps_throw
      split: sum.splits pipe_error.splits)

lemma keeps_serveMetadata: "keeps R (serveMetadata p req)"
  unfolding serveMetadata_def
  by (intro keeps_seq keeps_serveMetadataBody) (auto intro: keeps_basic split: option.splits)

end

text \<open>A relation that also survives the writing of manifests, or speaks only of those already there.\<close>

locale step_relation = quiet_relation p R for p R +
  fixes M :: "feed \<Rightarrow> intent \<Rightarrow> bool"
  assumes R_manifest: "M feed i \<Longrightarrow> keeps R (do_Put p (manifestKey feed i) content popts)"
    and R_absent: "\<not> M feed i \<Longrightarrow> content_at (manifestKey feed i) (WFs w) = None \<Longrightarrow> R w w'"
begin

lemma keeps_metadataChecksum: "(\<And>req. keeps R (serve req)) \<Longrightarrow> keeps R (metadataChecksum p serve req)"
  unfolding metadataChecksum_def
  by (auto intro!: keeps_handle keeps_ret split: option.splits sum.splits)

lemma keeps_expected: "(\<And>req. keeps R (serve req)) \<Longrightarrow> keeps R (expected_checksum p serve req)"
  unfolding expected_checksum_def
  by (auto intro!: keeps_seq keeps_fetchRemoteChecksum keeps_metadataChecksum keeps_ret)

lemma keeps_fetchAndStore:
  "(\<And>req. keeps R (serve req)) \<Longrightarrow> M feed i \<Longrightarrow> keeps R (fetchAndStore p serve req (manifestKey feed i))"
  unfolding fetchAndStore_def store_verified_def Let_def
  by (auto intro!: keeps_seq keeps_expected keeps_openArtifactStream keeps_works keeps_store_blob keeps_now R_manifest
      keeps_ret keeps_throw split: prod.splits)

lemma keeps_ingestArtifact:
  "(\<And>req. keeps R (serve req)) \<Longrightarrow> M feed i \<Longrightarrow> keeps R (ingestArtifact p serve req (manifestKey feed i))"
  unfolding ingestArtifact_def
  by (auto intro!: keeps_lock keeps_handle keeps_loadManifest keeps_ret keeps_fetchAndStore split: sum.splits)

text \<open>A manifest that was looked for in vain was not there.\<close>

lemma loadManifest_absent:
  assumes "loadManifest p key w = Some (Inl ENotFound, w')"
  shows "content_at key (WFs w) = None" and "WFs w' = WFs w"
proof -
  have "store_Get (os_at p (WTick w)) key (WFs w) = Inl SNotFound \<and> w' = tick w"
    using assms unfolding loadManifest_def seq_def handle_def do_Get_def
    by (auto simp: throw_def ret_def of_store_def split: sum.splits prod.splits option.splits if_splits store_error.splits)
  then show "content_at key (WFs w) = None" "WFs w' = WFs w"
    by (auto dest: store_Get_notfound simp: tick_def)
qed

lemma keeps_serveArtifact:
  assumes "\<And>req. keeps R (serve req)"
  shows "keeps R (serveArtifact p serve req)"
proof (cases "M (QFeed req) (QIntent req)")
  case True
  then show ?thesis
    unfolding serveArtifact_def Let_def
    by (auto intro!: keeps_handle keeps_seq keeps_loadManifest keeps_artifactResult keeps_fromPeerBlob keeps_fromPeer
        keeps_ingestArtifact assms keeps_ret keeps_throw split: sum.splits)
next
  case False
  let ?key = "manifestKey (QFeed req) (QIntent req)"
  show ?thesis
  proof (rule keepsI)
    fix w r w'
    assume *: "serveArtifact p serve req w = Some (r, w')"
    then obtain r1 w1 where l: "loadManifest p ?key w = Some (r1, w1)"
      unfolding serveArtifact_def Let_def by (rule handle_SomeE)
    show "R w w'"
    proof (cases "r1 = Inl ENotFound")
      case True
      with l loadManifest_absent have "content_at ?key (WFs w) = None" by blast
      with False show ?thesis by (rule R_absent)
    next
      case False
      define f where "f = (\<lambda>r. case r of
          Inr m \<Rightarrow> handle (artifactResult p req m SourceCache) (\<lambda>r. case r of Inr res \<Rightarrow> ret res
                 | Inl e \<Rightarrow> handle (fromPeerBlob p req m) (\<lambda>r. case r of Inr res \<Rightarrow> ret res | Inl _ \<Rightarrow> throw e))
        | Inl e \<Rightarrow> throw e)"
      have "f r1 w1 = Some (r, w')"
        using * l False unfolding serveArtifact_def Let_def f_def handle_def by (auto split: sum.splits)
      moreover have "keeps R (f r1)"
        unfolding f_def
        by (auto intro!: keeps_handle keeps_artifactResult keeps_fromPeerBlob keeps_ret keeps_throw split: sum.splits)
      ultimately have "R w1 w'" by (blast dest: keepsD)
      with keepsD [OF keeps_loadManifest l] show ?thesis by (rule R_trans)
    qed
  qed
qed

lemma keeps_Serve: "keeps R (Serve p n req)"
proof (induction n arbitrary: req)
  case 0
  show ?case by (rule keepsI) simp
next
  case (Suc n)
  then show ?case
    by (auto simp: serve_once_def intro!: keeps_serveArtifact keeps_serveMetadata keeps_throw split: intent_kind.splits)
qed

end

subsection \<open>The store after a write\<close>

lemma do_Put_contents:
  "do_Put p key content popts w = Some (r, w') \<Longrightarrow>
     content_at k (WFs w') = (if r = Inr () \<and> k = key then Some content else content_at k (WFs w))"
  by (auto simp: do_Put_def tick_def dest!: content_at_Put [where k = k] split: prod.splits sum.splits)

lemma do_fetch_fs: "do_fetch p f w = Some (r, w') \<Longrightarrow> WFs w' = WFs w"
  by (auto simp: do_fetch_def tick_def split: prod.splits)

lemma do_FetchManifest_fs: "do_FetchManifest p clients fd path w = Some (r, w') \<Longrightarrow> WFs w' = WFs w"
  by (auto simp: do_FetchManifest_def tick_def split: prod.splits)

lemma do_EnsureBlob_fs:
  assumes "do_EnsureBlob p clients sha sz w = Some (r, w')"
  shows "addressed (hash_of p ''sha256'') (WFs w) \<Longrightarrow> addressed (hash_of p ''sha256'') (WFs w')"
    and "adds_blobs (WFs w) (WFs w')"
  using assms EnsureBlob_effect(1,2) by (auto simp: do_EnsureBlob_def split: prod.splits)

lemma tick_fs [simp]: "WFs (tick w) = WFs w" "WSent (tick w) = WSent w" "WUp (tick w) = WUp w"
  by (simp_all add: tick_def)

lemma keys_apart [simp]: "manifestKey feed i \<noteq> blobKey d" "metaKey p feed i \<noteq> blobKey d" "metaKey p feed i \<noteq> manifestKey feed' i'"
  "blobKey d \<noteq> manifestKey feed i" "blobKey d \<noteq> metaKey p feed i" "manifestKey feed' i' \<noteq> metaKey p feed i"
  by (simp_all add: manifestKey_def metaKey_def blobKey_def Let_def)

subsection \<open>Content stays under its digest\<close>

definition replicas_address :: "surroundings \<Rightarrow> bool" where
  "replicas_address p \<longleftrightarrow>
     (\<forall>n s. addressed (hash_of p ''sha256'') s \<longrightarrow> addressed (hash_of p ''sha256'') (meanwhile p n s))"

definition stays_addressed :: "surroundings \<Rightarrow> pipe_world \<Rightarrow> pipe_world \<Rightarrow> bool" where
  "stays_addressed p w w' \<longleftrightarrow>
     (replicas_address p \<longrightarrow> addressed (hash_of p ''sha256'') (WFs w) \<longrightarrow> addressed (hash_of p ''sha256'') (WFs w'))"

lemma stays_addressed_Put:
  assumes "\<And>d. key = blobKey d \<Longrightarrow> hash_of p ''sha256'' content = d"
  shows "keeps (stays_addressed p) (do_Put p key content popts)"
proof (rule keepsI)
  fix w r w'
  assume d: "do_Put p key content popts w = Some (r, w')"
  show "stays_addressed p w w'"
    unfolding stays_addressed_def
  proof (intro impI)
    assume a: "addressed (hash_of p ''sha256'') (WFs w)"
    show "addressed (hash_of p ''sha256'') (WFs w')"
    proof (cases "r = Inr ()")
      case True
      with do_Put_contents [OF d] show ?thesis by (intro addressed_write [OF a _ assms]) auto
    next
      case False
      with do_Put_contents [OF d] show ?thesis by (intro addressed_same [OF a]) simp
    qed
  qed
qed

lemma stays_addressed_same: "(\<And>w r w'. m w = Some (r, w') \<Longrightarrow> WFs w' = WFs w) \<Longrightarrow> keeps (stays_addressed p) m"
  by (auto simp: keeps_def stays_addressed_def)

interpretation addressing: step_relation p "stays_addressed p" "\<lambda>_ _. True" for p
proof unfold_locales
  show "keeps (stays_addressed p) (do_EnsureBlob p clients sha sz)" for clients sha sz
    by (rule keepsI) (auto simp: stays_addressed_def dest: do_EnsureBlob_fs)
  show "stays_addressed p w (tick (w\<lparr>WFs := meanwhile p (WTick w) (WFs w)\<rparr>))" for w
    by (auto simp: stays_addressed_def replicas_address_def)
  show "keeps (stays_addressed p) (do_Put p (blobKey (hash_of p ''sha256'' body)) body popts)" for body popts
    by (rule stays_addressed_Put) simp
  show "keeps (stays_addressed p) (do_Put p (metaKey p feed i) content popts)" for feed i content popts
    by (rule stays_addressed_Put) simp
  show "keeps (stays_addressed p) (do_Put p (manifestKey feed i) content popts)" for feed i content popts
    by (rule stays_addressed_Put) simp
qed (auto intro!: stays_addressed_same dest: do_fetch_fs do_FetchManifest_fs, auto simp: stays_addressed_def)

subsection \<open>A manifest never moves\<close>

definition stays_put :: "surroundings \<Rightarrow> string \<Rightarrow> pipe_world \<Rightarrow> pipe_world \<Rightarrow> bool" where
  "stays_put p key w w' \<longleftrightarrow>
     (\<forall>c. (\<forall>n s. content_at key s = Some c \<longrightarrow> content_at key (meanwhile p n s) = Some c) \<longrightarrow>
          (\<exists>feed i. key = manifestKey feed i) \<longrightarrow> content_at key (WFs w) = Some c \<longrightarrow> content_at key (WFs w') = Some c)"

lemma stays_put_same: "(\<And>w r w'. m w = Some (r, w') \<Longrightarrow> WFs w' = WFs w) \<Longrightarrow> keeps (stays_put p key) m"
  by (auto simp: keeps_def stays_put_def)

lemma stays_put_Put:
  assumes "\<And>feed i. k = manifestKey feed i \<Longrightarrow> k \<noteq> key"
  shows "keeps (stays_put p k) (do_Put p key content popts)"
proof (rule keepsI)
  fix w r w'
  assume "do_Put p key content popts w = Some (r, w')"
  from do_Put_contents [OF this, of k] assms show "stays_put p k w w'" by (auto simp: stays_put_def)
qed

interpretation immutable: step_relation p "stays_put p key" "\<lambda>feed i. manifestKey feed i \<noteq> key" for p key
proof unfold_locales
  show "keeps (stays_put p key) (do_EnsureBlob p clients sha sz)" for clients sha sz
  proof (rule keepsI)
    fix w r w'
    assume "do_EnsureBlob p clients sha sz w = Some (r, w')"
    from do_EnsureBlob_fs(2) [OF this] have "(\<exists>d. key = blobKey d) \<or> content_at key (WFs w') = content_at key (WFs w)"
      by (auto simp: adds_blobs_def)
    then show "stays_put p key w w'" by (auto simp: stays_put_def)
  qed
  show "stays_put p key w (tick (w\<lparr>WFs := meanwhile p (WTick w) (WFs w)\<rparr>))" for w
    by (simp add: stays_put_def)
  show "keeps (stays_put p key) (do_Put p (blobKey (hash_of p ''sha256'' body)) body popts)" for body popts
    by (rule stays_put_Put) auto
  show "keeps (stays_put p key) (do_Put p (metaKey p feed i) content popts)" for feed i content popts
    by (rule stays_put_Put) auto
  show "manifestKey feed i \<noteq> key \<Longrightarrow> keeps (stays_put p key) (do_Put p (manifestKey feed i) content popts)" for feed i content popts
    by (rule stays_put_Put) auto
qed (auto intro!: stays_put_same dest: do_fetch_fs do_FetchManifest_fs, auto simp: stays_put_def)

subsection \<open>Requests go to the configured host or to public addresses\<close>

definition reachable_host :: "surroundings \<Rightarrow> url \<Rightarrow> request \<Rightarrow> bool" where
  "reachable_host p base q \<longleftrightarrow>
     equal_fold (UHostname (RURL q)) (UHostname base) \<or>
     (\<exists>t n ips. LookupIP (net_at (weather_at p t) n) (UHostname (RURL q)) = Some ips \<and> (\<forall>ip \<in> set ips. isPublicIP ip))"

definition sends_public :: "surroundings \<Rightarrow> pipe_world \<Rightarrow> pipe_world \<Rightarrow> bool" where
  "sends_public p w w' \<longleftrightarrow>
     UBase (WUp w') = UBase (WUp w) \<and> (\<forall>q \<in> set (WSent w'). q \<in> set (WSent w) \<or> reachable_host p (UBase (WUp w)) q)"

lemma sends_public_fetch:
  assumes "\<And>w u. UBase (fst (snd (f w u))) = UBase u"
    and "\<And>w u q. q \<in> set (fst (snd (snd (f w u)))) \<Longrightarrow>
           equal_fold (UHostname (RURL q)) (UHostname (UBase u)) \<or>
           (\<exists>n ips. LookupIP (net_at w n) (UHostname (RURL q)) = Some ips \<and> (\<forall>ip \<in> set ips. isPublicIP ip))"
  shows "keeps (sends_public p) (do_fetch p f)"
proof (rule keepsI)
  fix w r w'
  assume d: "do_fetch p f w = Some (r, w')"
  obtain out u sent waits where f: "f (weather_at p (WTick w)) (WUp w) = (out, u, sent, waits)" by (metis prod_cases4)
  with d have w: "WUp w' = u" "WSent w' = WSent w @ sent" by (auto simp: do_fetch_def tick_def)
  show "sends_public p w w'"
    using assms(1) [of "weather_at p (WTick w)" "WUp w"] assms(2) [of _ "weather_at p (WTick w)" "WUp w"] f w
    unfolding sends_public_def reachable_host_def by auto blast
qed

lemma sends_public_same: "(\<And>w r w'. m w = Some (r, w') \<Longrightarrow> WUp w' = WUp w \<and> WSent w' = WSent w) \<Longrightarrow> keeps (sends_public p) m"
  by (auto simp: keeps_def sends_public_def)

lemma FetchAll_trace: "snd (FetchAll w path opts u) = snd (Fetch w path opts u)"
  by (auto simp: FetchAll_def split: prod.splits sum.splits)

lemma Fetch_sent:
  assumes "q \<in> set (fst (snd (snd (Fetch w path opts u))))"
  shows "equal_fold (UHostname (RURL q)) (UHostname (UBase u)) \<or>
      (\<exists>n ips. LookupIP (net_at w n) (UHostname (RURL q)) = Some ips \<and> (\<forall>ip \<in> set ips. isPublicIP ip))"
proof -
  obtain out u' sent waits where e: "Fetch w path opts u = (out, u', sent, waits)" by (metis prod_cases4)
  with assms have "q \<in> set sent" by simp
  from requests_stay_public [OF disjI2, OF e this] show ?thesis .
qed

lemma FetchURL_sent:
  assumes "q \<in> set (fst (snd (snd (FetchURL w target opts u))))"
  shows "equal_fold (UHostname (RURL q)) (UHostname (UBase u)) \<or>
      (\<exists>n ips. LookupIP (net_at w n) (UHostname (RURL q)) = Some ips \<and> (\<forall>ip \<in> set ips. isPublicIP ip))"
proof -
  obtain out u' sent waits where e: "FetchURL w target opts u = (out, u', sent, waits)" by (metis prod_cases4)
  with assms have "q \<in> set sent" by simp
  from requests_stay_public [OF disjI1, OF e this] show ?thesis .
qed

interpretation guarded: step_relation p "sends_public p" "\<lambda>_ _. True" for p
proof unfold_locales
  show "keeps (sends_public p) (do_fetch p (\<lambda>w. Fetch w path opts))" for path opts
    by (rule sends_public_fetch) (auto simp: fetch_base dest: Fetch_sent)
  show "keeps (sends_public p) (do_fetch p (\<lambda>w. FetchAll w path opts))" for path opts
    by (rule sends_public_fetch) (auto simp: fetch_base FetchAll_trace dest: Fetch_sent)
  show "keeps (sends_public p) (do_fetch p (\<lambda>w. FetchURL w target opts))" for target opts
    by (rule sends_public_fetch) (auto simp: fetch_base dest: FetchURL_sent)
  show "keeps (sends_public p) (do_EnsureBlob p clients sha sz)" for clients sha sz
    by (rule sends_public_same) (auto simp: do_EnsureBlob_def split: prod.splits)
  show "keeps (sends_public p) (do_FetchManifest p clients fd path)" for clients fd path
    by (rule sends_public_same) (auto simp: do_FetchManifest_def split: prod.splits)
  have P: "keeps (sends_public p) (do_Put p key content popts)" for key content popts
    by (rule sends_public_same) (auto simp: do_Put_def split: prod.splits)
  show "keeps (sends_public p) (do_Put p (blobKey (hash_of p ''sha256'' body)) body popts)" for body popts by (rule P)
  show "keeps (sends_public p) (do_Put p (metaKey p feed i) content popts)" for feed i content popts by (rule P)
  show "keeps (sends_public p) (do_Put p (manifestKey feed i) content popts)" for feed i content popts by (rule P)
qed (auto simp: sends_public_def)

end
