(* ===== verification/Pipeline_Serving.thy ===== *)
theory Pipeline_Serving
  imports Pipeline_Safety
begin

text \<open>
  What the read path promises its callers: served content matches its digest, nothing unverified
  becomes visible, manifests never move, cached metadata survives an outage but not a deletion,
  every request returns, and no request leaves for a private address.
\<close>

lemma seq_SomeE:
  assumes "seq m f w = Some (r, w'')"
  obtains (fail) e where "m w = Some (Inl e, w'')" and "r = Inl e"
  | (go) x w' where "m w = Some (Inr x, w')" and "f x w' = Some (r, w'')"
  using assms unfolding seq_def by (elim handle_SomeE) (auto simp: throw_def split: sum.splits)

subsection \<open>Content and digest\<close>

definition returns :: "('a \<Rightarrow> pipe_world \<Rightarrow> bool) \<Rightarrow> 'a act \<Rightarrow> bool" where
  "returns Q m \<longleftrightarrow> (\<forall>w x w'. m w = Some (Inr x, w') \<longrightarrow> Q x w')"

lemma returns_throw: "returns Q (throw e)"
  by (simp add: returns_def throw_def)

lemma returns_ret: "(\<And>w. Q x w) \<Longrightarrow> returns Q (ret x)"
  by (simp add: returns_def ret_def)

lemma returns_handle: "(\<And>r. returns Q (f r)) \<Longrightarrow> returns Q (handle m f)"
  unfolding returns_def by (blast elim: handle_SomeE)

lemma returns_handle_pass:
  "returns Q m \<Longrightarrow> (\<And>e. returns Q (f e)) \<Longrightarrow> returns Q (handle m (\<lambda>r. case r of Inr res \<Rightarrow> ret res | Inl e \<Rightarrow> f e))"
  unfolding returns_def by (auto simp: ret_def elim!: handle_SomeE split: sum.splits)

lemma returns_seq: "(\<And>x. returns Q (f x)) \<Longrightarrow> returns Q (seq m f)"
  unfolding returns_def by (auto elim!: seq_SomeE)

text \<open>A result that names a blob is that blob, at its length.\<close>

definition from_store :: "served \<Rightarrow> pipe_world \<Rightarrow> bool" where
  "from_store res w \<longleftrightarrow>
     (VBlobKey res \<noteq> [] \<longrightarrow>
        content_at (blobKey (VSHA256 res)) (WFs w) = Some (VBody res) \<and> VSize res = int (length (VBody res)))"

lemma store_Get_size: "store_Get io key s = Inr (body, info) \<Longrightarrow> ISize info = int (length body)"
  by (auto simp: store_Get_def store_Stat_def split: sum.splits option.splits if_splits)

lemma openBlob_from_store: "returns from_store (openBlob p m src)"
  unfolding returns_def openBlob_def
proof (intro allI impI)
  fix w x w'
  assume "seq (do_Get p (blobKey (PtSHA256 m))) (\<lambda>(body, info).
     ret \<lparr>VBody = body, VSize = (if ISize info \<ge> 0 \<and> ISize info \<noteq> PtSize m then ISize info else PtSize m),
          VSHA256 = PtSHA256 m, VModTime = IModTime info, VSource = src, VBlobKey = blobKey (PtSHA256 m),
          VContentType = lookup_text MetaContentType (PtMetadata m)\<rparr>) w = Some (Inr x, w')"
  then show "from_store x w'"
  proof (cases rule: seq_SomeE)
    case (go y w1)
    obtain body info where y: "y = (body, info)" by fastforce
    from go(1) y have g: "store_Get (os_at p (WTick w)) (blobKey (PtSHA256 m)) (WFs w) = Inr (body, info)" and "w1 = tick w"
      by (auto simp: do_Get_def split: sum.splits)
    with go(2) y store_Get_content [OF g] store_Get_size [OF g] show ?thesis
      by (auto simp: ret_def from_store_def)
  qed simp
qed

lemma artifactResult_from_store: "returns from_store (artifactResult p req m src)"
  unfolding artifactResult_def
  by (auto intro!: openBlob_from_store returns_seq returns_ret simp: from_store_def textResult_def)

lemma openMeta_from_store: "returns from_store (openMeta p key src)"
  unfolding openMeta_def by (rule returns_seq) (auto intro!: returns_ret simp: from_store_def split: prod.splits)

lemma serveArtifact_from_store: "returns from_store (serveArtifact p serve req)"
proof -
  have peer: "returns from_store (fromPeer p req)" "\<And>m. returns from_store (fromPeerBlob p req m)"
    unfolding fromPeer_def fromPeerBlob_def
    by (auto intro!: returns_seq artifactResult_from_store returns_throw split: option.splits prod.splits)
  show ?thesis
    unfolding serveArtifact_def Let_def
  proof (rule returns_handle, split sum.split, intro conjI allI impI)
    fix m
    show "returns from_store (handle (artifactResult p req m SourceCache) (\<lambda>r.
                 case r of
                   Inr res \<Rightarrow> ret res
                 | Inl e \<Rightarrow> handle (fromPeerBlob p req m) (\<lambda>r. case r of Inr res \<Rightarrow> ret res | Inl _ \<Rightarrow> throw e)))"
      by (intro returns_handle_pass artifactResult_from_store peer returns_throw)
  next
    fix e
    have "returns from_store (handle (fromPeer p req) (\<lambda>r.
                      case r of
                        Inr res \<Rightarrow> ret res
                      | Inl _ \<Rightarrow>
                          if \<not> QUpstream req then throw ENotFound
                          else seq (ingestArtifact p serve req (manifestKey (QFeed req) (QIntent req))) (\<lambda>m. artifactResult p req m SourceUpstream)))"
      by (rule returns_handle_pass [OF peer(1)]) (auto intro!: returns_throw returns_seq artifactResult_from_store)
    then show "returns from_store (if e \<noteq> ENotFound then throw e
               else handle (fromPeer p req) (\<lambda>r.
                      case r of
                        Inr res \<Rightarrow> ret res
                      | Inl _ \<Rightarrow>
                          if \<not> QUpstream req then throw ENotFound
                          else seq (ingestArtifact p serve req (manifestKey (QFeed req) (QIntent req))) (\<lambda>m. artifactResult p req m SourceUpstream)))"
      by (simp add: returns_throw)
  qed
qed

lemma serveMetadata_from_store: "returns from_store (serveMetadata p req)"
proof -
  have body: "returns from_store (serveMetadataBody p req)"
    unfolding serveMetadataBody_def Let_def
    by (intro returns_handle returns_seq)
      (auto intro!: openMeta_from_store openBlob_from_store returns_handle returns_throw split: sum.splits pipe_error.splits)
  show ?thesis
  proof (cases "WantChecksum (QIntent req) = []")
    case True
    then show ?thesis
      using body unfolding serveMetadata_def returns_def by (auto simp: ret_def elim!: seq_SomeE)
  next
    case False
    then show ?thesis
      unfolding serveMetadata_def
      by (intro returns_seq) (auto intro!: returns_throw returns_ret simp: from_store_def textResult_def split: option.splits)
  qed
qed

lemma Serve_from_store: "returns from_store (Serve p n req)"
  by (cases n) (auto simp: returns_def serve_once_def throw_def split: intent_kind.splits
      intro: serveArtifact_from_store [unfolded returns_def, rule_format] serveMetadata_from_store [unfolded returns_def, rule_format])

text \<open>
  C6: Whatever an upstream, a peer or a failing disk does, every blob in the store stays under the
  digest of its content, and an artifact that is served is exactly a stored blob whose digest is the
  one announced and whose length is the one announced.  Other replicas are assumed to respect the
  addressing too.
\<close>

theorem served_content_matches_digest:
  assumes "replicas_address p" and "addressed (hash_of p ''sha256'') (WFs w)"
    and "Serve p n req w = Some (r, w')"
  shows "addressed (hash_of p ''sha256'') (WFs w') \<and>
         (\<forall>res. r = Inr res \<and> VBlobKey res \<noteq> [] \<longrightarrow>
            hash_of p ''sha256'' (VBody res) = VSHA256 res \<and> VSize res = int (length (VBody res)))"
proof -
  have a: "addressed (hash_of p ''sha256'') (WFs w')"
    using keepsD [OF addressing.keeps_Serve assms(3)] assms(1,2) by (simp add: stays_addressed_def)
  have "from_store res w'" if "r = Inr res" for res
    using Serve_from_store [of p n req] assms(3) that by (auto simp: returns_def)
  then show ?thesis using a by (auto simp: from_store_def addressed_def)
qed

text \<open>
  C22: The manifest of an artifact never moves: once a coordinate has one, no request of any kind, for
  any feed, changes it, whatever the upstream answers and whichever operations fail, provided other
  replicas leave it alone.
\<close>

theorem manifest_never_moves:
  assumes "content_at (manifestKey feed i) (WFs w) = Some raw"
    and "\<And>n s. content_at (manifestKey feed i) s = Some raw \<Longrightarrow> content_at (manifestKey feed i) (meanwhile p n s) = Some raw"
    and "Serve p n req w = Some (r, w')"
  shows "content_at (manifestKey feed i) (WFs w') = Some raw"
  using keepsD [OF immutable.keeps_Serve assms(3), of "manifestKey feed i"] assms(1,2)
  unfolding stays_put_def by blast

text \<open>
  C13: Serving a request sends nothing to a private address: every request sent on its behalf, for
  content, checksums, metadata, tokens, indirections and redirects alike, goes to the upstream's
  configured host or to a host whose resolved addresses are all public.
\<close>

theorem serving_stays_public:
  assumes "Serve p n req w = Some (r, w')" and "q \<in> set (WSent w')" and "q \<notin> set (WSent w)"
  shows "equal_fold (UHostname (RURL q)) (UHostname (UBase (WUp w))) \<or>
     (\<exists>t n ips. LookupIP (net_at (weather_at p t) n) (UHostname (RURL q)) = Some ips \<and> (\<forall>ip \<in> set ips. isPublicIP ip))"
  using keepsD [OF guarded.keeps_Serve assms(1)] assms(2,3)
  unfolding sends_public_def reachable_host_def by blast

subsection \<open>Every request returns\<close>

definition runs :: "'a act \<Rightarrow> bool" where
  "runs m \<longleftrightarrow> (\<forall>w. m w \<noteq> None)"

lemma runs_basic:
  "runs (ret x)" "runs (throw e)" "runs (do_Get p key)" "runs (do_Stat p key)" "runs (get_now p)" "runs (works f)"
  "runs (do_Put p key content popts)" "runs (do_fetch p g)" "runs (do_EnsureBlob p clients sha sz)"
  "runs (do_FetchManifest p clients fd path)" "runs (ResolveReference p path loc)"
  by (auto simp: runs_def ret_def throw_def do_Get_def do_Stat_def get_now_def works_def do_Put_def do_fetch_def
      do_EnsureBlob_def do_FetchManifest_def ResolveReference_def split: prod.splits option.splits)

lemma runs_handle: "runs m \<Longrightarrow> (\<And>r. runs (f r)) \<Longrightarrow> runs (handle m f)"
  unfolding runs_def handle_def by (auto split: option.splits)

lemma runs_seq: "runs m \<Longrightarrow> (\<And>x. runs (f x)) \<Longrightarrow> runs (seq m f)"
  unfolding seq_def by (rule runs_handle) (auto intro: runs_basic split: sum.splits)

lemma runs_lock: "runs m \<Longrightarrow> runs (with_lock p m)"
  by (auto simp: runs_def with_lock_def)

lemma runs_loadManifest: "runs (loadManifest p key)"
  unfolding loadManifest_def by (auto intro!: runs_seq runs_basic split: prod.splits option.splits)

lemma runs_openBlob: "runs (openBlob p m src)"
  unfolding openBlob_def by (auto intro!: runs_seq runs_basic split: prod.splits)

lemma runs_artifactResult: "runs (artifactResult p req m src)"
  unfolding artifactResult_def manifestDigest_def
  by (auto intro!: runs_seq runs_basic runs_openBlob split: prod.splits option.splits)

lemma runs_peers: "runs (fromPeer p req)" "runs (fromPeerBlob p req m)"
  unfolding fromPeer_def fromPeerBlob_def
  by (auto intro!: runs_seq runs_basic runs_artifactResult split: prod.splits option.splits)

lemma runs_fetchRemoteChecksum: "runs (fetchRemoteChecksum p req)"
  unfolding fetchRemoteChecksum_def Let_def
  by (rule runs_handle) (auto intro: runs_basic split: sum.splits pipe_error.splits option.splits prod.splits)

lemma runs_openArtifactStream: "runs (openArtifactStream p req)"
  unfolding openArtifactStream_def Let_def by (auto intro!: runs_seq runs_basic split: option.splits prod.splits)

lemma runs_store_blob: "runs (store_blob p body)"
  unfolding store_blob_def Let_def
  by (rule runs_handle) (auto intro: runs_basic split: sum.splits pipe_error.splits)

lemma runs_serveMetadata: "runs (serveMetadata p req)"
proof -
  have m: "runs (openMeta p key src)" "runs (refreshMetadata p req key)" for key src
    unfolding openMeta_def refreshMetadata_def by (auto intro!: runs_seq runs_basic split: prod.splits option.splits)
  have "runs (serveMetadataBody p req)"
    unfolding serveMetadataBody_def Let_def
    by (intro runs_handle runs_seq runs_basic)
      (auto intro!: m runs_openBlob runs_handle runs_loadManifest runs_basic split: sum.splits pipe_error.splits)
  then show ?thesis unfolding serveMetadata_def by (auto intro!: runs_seq runs_basic split: option.splits)
qed

lemma runs_serveArtifact:
  assumes "runs (metadataChecksum p serve req)"
  shows "runs (serveArtifact p serve req)"
proof -
  have "runs (fetchAndStore p serve req key)" for key
    unfolding fetchAndStore_def store_verified_def expected_checksum_def Let_def
    by (auto intro!: runs_seq runs_basic assms runs_fetchRemoteChecksum runs_openArtifactStream runs_store_blob split: prod.splits)
  then show ?thesis
    unfolding serveArtifact_def ingestArtifact_def Let_def
    by (auto intro!: runs_handle runs_seq runs_lock runs_loadManifest runs_artifactResult runs_peers runs_basic split: sum.splits)
qed

text \<open>
  The metadata a module names for a coordinate settles: where it is itself an artifact, its own
  metadata is that artifact again or nothing.
\<close>

definition metadata_settles :: "format_module \<Rightarrow> bool" where
  "metadata_settles m \<longleftrightarrow>
     (\<forall>src feed c i i'. AsMetadataSource m = Some src \<longrightarrow> MetadataIntent src feed c = Some i \<longrightarrow> IKind i = IntentArtifact \<longrightarrow>
        MetadataIntent src feed (ICoord i) = Some i' \<longrightarrow> RemotePath i' = RemotePath i)"

definition nested :: "surroundings \<Rightarrow> intent_request \<Rightarrow> intent option" where
  "nested p req =
     (case (if QUpstream req then AsMetadataSource (Module p) else None) of
        None \<Rightarrow> None
      | Some src \<Rightarrow>
          (case MetadataIntent src (QFeed req) (ICoord (QIntent req)) of
             None \<Rightarrow> None
           | Some i \<Rightarrow> if RemotePath i = RemotePath (QIntent req) then None else Some i))"

lemma metadataChecksum_nested:
  "nested p req = None \<Longrightarrow> metadataChecksum p serve req = ret no_checksum"
  "nested p req = Some i \<Longrightarrow> serve (req\<lparr>QIntent := i\<rparr>) = serve' (req\<lparr>QIntent := i\<rparr>) \<Longrightarrow>
     metadataChecksum p serve req = metadataChecksum p serve' req"
  "nested p req = Some i \<Longrightarrow> runs (serve (req\<lparr>QIntent := i\<rparr>)) \<Longrightarrow> runs (metadataChecksum p serve req)"
  unfolding metadataChecksum_def nested_def
  by (auto intro!: runs_handle runs_basic split: option.splits if_splits sum.splits)

lemma serve_once_cong:
  assumes "metadataChecksum p serve req = metadataChecksum p serve' req"
  shows "serve_once p serve req = serve_once p serve' req"
proof -
  have "expected_checksum p serve req = expected_checksum p serve' req" unfolding expected_checksum_def assms ..
  then have f: "fetchAndStore p serve req key = fetchAndStore p serve' req key" for key unfolding fetchAndStore_def by simp
  have i: "ingestArtifact p serve req key = ingestArtifact p serve' req key" for key unfolding ingestArtifact_def f ..
  have a: "serveArtifact p serve req = serveArtifact p serve' req" unfolding serveArtifact_def i ..
  show ?thesis unfolding serve_once_def a ..
qed

lemma runs_serve_once: "runs (metadataChecksum p serve req) \<Longrightarrow> runs (serve_once p serve req)"
  by (simp add: serve_once_def runs_basic runs_serveArtifact runs_serveMetadata split: intent_kind.splits)

lemma inner_call:
  assumes "metadata_settles (Module p)" and "nested p req = Some i"
  shows "serve_once p serve (req\<lparr>QIntent := i\<rparr>) = serve_once p serve' (req\<lparr>QIntent := i\<rparr>)"
    and "runs (serve_once p serve (req\<lparr>QIntent := i\<rparr>))"
proof -
  show "serve_once p serve (req\<lparr>QIntent := i\<rparr>) = serve_once p serve' (req\<lparr>QIntent := i\<rparr>)"
  proof (cases "IKind i = IntentArtifact")
    case True
    with assms have "nested p (req\<lparr>QIntent := i\<rparr>) = None"
      by (auto simp: nested_def metadata_settles_def split: option.splits if_splits)
    then show ?thesis by (intro serve_once_cong) (simp add: metadataChecksum_nested(1))
  next
    case False
    then show ?thesis by (simp add: serve_once_def split: intent_kind.splits)
  qed
  show "runs (serve_once p serve (req\<lparr>QIntent := i\<rparr>))"
  proof (cases "IKind i = IntentArtifact")
    case True
    with assms have "nested p (req\<lparr>QIntent := i\<rparr>) = None"
      by (auto simp: nested_def metadata_settles_def split: option.splits if_splits)
    then show ?thesis by (intro runs_serve_once) (simp add: metadataChecksum_nested(1) runs_basic)
  next
    case False
    then show ?thesis by (simp add: serve_once_def runs_basic runs_serveMetadata split: intent_kind.splits)
  qed
qed


subsection \<open>Nothing unverified becomes visible\<close>

definition leaves :: "surroundings \<Rightarrow> string \<Rightarrow> pipe_world \<Rightarrow> pipe_world \<Rightarrow> bool" where
  "leaves p key w w' \<longleftrightarrow>
     ((\<forall>n s. content_at key (meanwhile p n s) = content_at key s) \<longrightarrow> (\<exists>feed i. key = manifestKey feed i) \<longrightarrow>
      content_at key (WFs w') = content_at key (WFs w))"

lemma leaves_same: "(\<And>w r w'. m w = Some (r, w') \<Longrightarrow> WFs w' = WFs w) \<Longrightarrow> keeps (leaves p key) m"
  by (auto simp: keeps_def leaves_def)

lemma leaves_Put: "(\<And>feed i. k = manifestKey feed i \<Longrightarrow> k \<noteq> key) \<Longrightarrow> keeps (leaves p k) (do_Put p key content popts)"
  by (rule keepsI) (auto simp: leaves_def dest: do_Put_contents [where k = k])

interpretation untouched: quiet_relation p "leaves p key" for p key
proof unfold_locales
  show "keeps (leaves p key) (do_EnsureBlob p clients sha sz)" for clients sha sz
  proof (rule keepsI)
    fix w r w'
    assume "do_EnsureBlob p clients sha sz w = Some (r, w')"
    from do_EnsureBlob_fs(2) [OF this] have "(\<exists>d. key = blobKey d) \<or> content_at key (WFs w') = content_at key (WFs w)"
      by (auto simp: adds_blobs_def)
    then show "leaves p key w w'" by (auto simp: leaves_def)
  qed
  show "leaves p key w (tick (w\<lparr>WFs := meanwhile p (WTick w) (WFs w)\<rparr>))" for w
    by (simp add: leaves_def)
  show "keeps (leaves p key) (do_Put p (blobKey (hash_of p ''sha256'' body)) body popts)" for body popts
    by (rule leaves_Put) auto
  show "keeps (leaves p key) (do_Put p (metaKey p feed i) content popts)" for feed i content popts
    by (rule leaves_Put) auto
qed (auto intro!: leaves_same dest: do_fetch_fs do_FetchManifest_fs, auto simp: leaves_def)

lemma seq_ret: "seq (ret x) f = f x"
  by (rule ext) (simp add: seq_def handle_def ret_def)

lemma expected_given: "\<not> IsZero (IChecksum (QIntent req)) \<Longrightarrow> expected_checksum p serve req = ret (IChecksum (QIntent req))"
  by (simp add: expected_checksum_def seq_ret)

text \<open>What the manifest key can hold after a step: what it held, or a manifest of verified content.\<close>

definition verified_at :: "surroundings \<Rightarrow> intent_request \<Rightarrow> checksum \<Rightarrow> string \<Rightarrow> pipe_world \<Rightarrow> pipe_world \<Rightarrow> bool" where
  "verified_at p req c key w w' \<longleftrightarrow>
     content_at key (WFs w') = content_at key (WFs w) \<or>
     (\<exists>resp now. content_at key (WFs w') = Some (encode_manifest p (proxy_manifest p req resp now)) \<and>
        verifyChecksum c (all_digests p (Body resp)))"

definition undisturbed :: "surroundings \<Rightarrow> string \<Rightarrow> bool" where
  "undisturbed p key \<longleftrightarrow> (\<forall>n s. content_at key (meanwhile p n s) = content_at key s) \<and> (\<exists>feed i. key = manifestKey feed i)"

lemma leavesD: "leaves p key a b \<Longrightarrow> undisturbed p key \<Longrightarrow> content_at key (WFs b) = content_at key (WFs a)"
  by (simp add: leaves_def undisturbed_def)

lemma verified_after: "content_at key (WFs b) = content_at key (WFs a) \<Longrightarrow> verified_at p req c key b w' \<Longrightarrow> verified_at p req c key a w'"
  by (simp add: verified_at_def)

lemma verified_step:
  assumes run: "seq m f w = Some (r, w')" and u: "undisturbed p key" and m: "keeps (leaves p key) m"
    and f: "\<And>x w1. f x w1 = Some (r, w') \<Longrightarrow> verified_at p req c key w1 w'"
  shows "verified_at p req c key w w'"
  using run
proof (cases rule: seq_SomeE)
  case (fail e)
  from leavesD [OF keepsD [OF m fail(1)] u] show ?thesis by (simp add: verified_at_def)
next
  case (go x w1)
  from leavesD [OF keepsD [OF m go(1)] u] f [OF go(2)] show ?thesis by (rule verified_after)
qed

lemma store_verified_effect:
  assumes u: "undisturbed p key" and run: "store_verified p req key c resp w = Some (r, w')"
  shows "verified_at p req c key w w'"
  using run unfolding store_verified_def
proof (rule verified_step [OF _ u untouched.keeps_works], goal_cases)
  case (1 _ w1)
  then show ?case
  proof (rule verified_step [OF _ u untouched.keeps_works], goal_cases)
    case (1 _ w2)
    show ?case
    proof (cases "verifyChecksum c (all_digests p (Body resp))")
      case False
      with 1 show ?thesis by (auto simp: throw_def verified_at_def)
    next
      case True
      note ok = True
      with 1 have "seq (store_blob p (Body resp)) (\<lambda>_.
          seq (get_now p) (\<lambda>now.
          let m = proxy_manifest p req resp now
          in seq (do_Put p key (encode_manifest p m) \<lparr>PSHA256 = [], PSize = 0, PContentType = []\<rparr>) (\<lambda>_. ret m))) w2 = Some (r, w')"
        by simp
      then show ?thesis
      proof (rule verified_step [OF _ u untouched.keeps_store_blob], goal_cases)
        case (1 _ w3)
        then show ?case
        proof (rule verified_step [OF _ u untouched.keeps_now], goal_cases)
          case (1 now w4)
          then obtain r1 where "do_Put p key (encode_manifest p (proxy_manifest p req resp now))
              \<lparr>PSHA256 = [], PSize = 0, PContentType = []\<rparr> w4 = Some (r1, w')"
            by (auto simp: ret_def Let_def elim!: seq_SomeE)
          from do_Put_contents [OF this, of key] ok show ?case by (auto simp: verified_at_def split: if_splits)
        qed
      qed
    qed
  qed
qed

lemma fetchAndStore_verified:
  assumes c: "\<not> IsZero (IChecksum (QIntent req))" and u: "undisturbed p key"
    and run: "fetchAndStore p serve req key w = Some (r, w')"
  shows "verified_at p req (IChecksum (QIntent req)) key w w'"
  using run unfolding fetchAndStore_def expected_given [OF c] seq_ret
  by (rule verified_step [OF _ u untouched.keeps_openArtifactStream]) (auto simp: c intro: store_verified_effect [OF u] split: prod.splits)

lemma verified_quiet:
  "m w = Some (r, w') \<Longrightarrow> undisturbed p key \<Longrightarrow> keeps (leaves p key) m \<Longrightarrow> verified_at p req c key w w'"
  by (auto simp: verified_at_def dest: leavesD keepsD)

lemma verified_handle:
  assumes run: "handle m f w = Some (r, w')" and u: "undisturbed p key" and m: "keeps (leaves p key) m"
    and f: "\<And>x w1. f x w1 = Some (r, w') \<Longrightarrow> verified_at p req c key w1 w'"
  shows "verified_at p req c key w w'"
proof -
  obtain x w1 where g: "m w = Some (x, w1)" "f x w1 = Some (r, w')" using run by (rule handle_SomeE)
  from leavesD [OF keepsD [OF m g(1)] u] f [OF g(2)] show ?thesis by (rule verified_after)
qed

lemma ingestArtifact_verified:
  assumes run: "ingestArtifact p serve req key w = Some (r, w')"
    and c: "\<not> IsZero (IChecksum (QIntent req))" and u: "undisturbed p key"
  shows "verified_at p req (IChecksum (QIntent req)) key w w'"
proof (cases "lock_at p (WTick w)")
  case False
  with run show ?thesis by (auto simp: ingestArtifact_def with_lock_def verified_at_def)
next
  case True
  define w1 where "w1 = tick (w\<lparr>WFs := meanwhile p (WTick w) (WFs w)\<rparr>)"
  have "content_at key (WFs w1) = content_at key (WFs w)" using u by (simp add: w1_def undisturbed_def)
  moreover have "handle (loadManifest p key) (\<lambda>r. case r of Inr m \<Rightarrow> ret m | Inl _ \<Rightarrow> fetchAndStore p serve req key) w1 = Some (r, w')"
    using run True by (simp add: ingestArtifact_def with_lock_def w1_def)
  then have "verified_at p req (IChecksum (QIntent req)) key w1 w'"
    by (rule verified_handle [OF _ u untouched.keeps_loadManifest])
      (auto split: sum.splits intro: fetchAndStore_verified [OF c u] verified_quiet [OF _ u untouched.keeps_ret])
  ultimately show ?thesis by (rule verified_after)
qed

lemma serveArtifact_verified:
  assumes run: "serveArtifact p serve req w = Some (r, w')"
    and c: "\<not> IsZero (IChecksum (QIntent req))" and u: "undisturbed p (manifestKey (QFeed req) (QIntent req))"
  shows "verified_at p req (IChecksum (QIntent req)) (manifestKey (QFeed req) (QIntent req)) w w'"
  using run unfolding serveArtifact_def Let_def
proof (rule verified_handle [OF _ u untouched.keeps_loadManifest], goal_cases)
  case (1 x w1)
  show ?case
  proof (cases x)
    case (Inr m)
    with 1 show ?thesis
      by (auto intro!: verified_quiet [OF _ u] untouched.keeps_handle untouched.keeps_artifactResult untouched.keeps_fromPeerBlob
          untouched.keeps_ret untouched.keeps_throw split: sum.splits)
  next
    case (Inl e)
    show ?thesis
    proof (cases "e = ENotFound")
      case False
      with 1 Inl show ?thesis by (auto intro: verified_quiet [OF _ u untouched.keeps_throw])
    next
      case True
      with 1 Inl have "handle (fromPeer p req) (\<lambda>r. case r of Inr res \<Rightarrow> ret res
          | Inl _ \<Rightarrow> if \<not> QUpstream req then throw ENotFound
                    else seq (ingestArtifact p serve req (manifestKey (QFeed req) (QIntent req))) (\<lambda>m. artifactResult p req m SourceUpstream))
          w1 = Some (r, w')" by simp
      then show ?thesis
      proof (rule verified_handle [OF _ u untouched.keeps_fromPeer], goal_cases)
        case (1 y w2)
        show ?case
        proof (cases y)
          case (Inr res)
          with 1 show ?thesis by (auto intro: verified_quiet [OF _ u untouched.keeps_ret])
        next
          case (Inl e)
          show ?thesis
          proof (cases "QUpstream req")
            case False
            with 1 Inl show ?thesis by (auto intro: verified_quiet [OF _ u untouched.keeps_throw])
          next
            case True
            with 1 Inl have "seq (ingestArtifact p serve req (manifestKey (QFeed req) (QIntent req)))
                (\<lambda>m. artifactResult p req m SourceUpstream) w2 = Some (r, w')" by simp
            then show ?thesis
            proof (cases rule: seq_SomeE)
              case (fail e)
              from ingestArtifact_verified [OF fail(1) c u] show ?thesis .
            next
              case (go m w3)
              from leavesD [OF keepsD [OF untouched.keeps_artifactResult go(2)] u] ingestArtifact_verified [OF go(1) c u]
              show ?thesis by (simp add: verified_at_def)
            qed
          qed
        qed
      qed
    qed
  qed
qed

text \<open>
  C5: Nothing unverified becomes visible.  When the intent carries a checksum, whatever a request
  does, succeed, fail or stop halfway, the coordinate's manifest is what it was before, or it is the
  manifest of a body that was downloaded whole and matches the checksum.
\<close>

theorem only_verified_content_appears:
  assumes "IKind (QIntent req) = IntentArtifact" and "\<not> IsZero (IChecksum (QIntent req))"
    and "\<And>n s. content_at (manifestKey (QFeed req) (QIntent req)) (meanwhile p n s) = content_at (manifestKey (QFeed req) (QIntent req)) s"
    and "Serve p n req w = Some (r, w')"
  shows "content_at (manifestKey (QFeed req) (QIntent req)) (WFs w') = content_at (manifestKey (QFeed req) (QIntent req)) (WFs w) \<or>
     (\<exists>resp now.
        content_at (manifestKey (QFeed req) (QIntent req)) (WFs w') = Some (encode_manifest p (proxy_manifest p req resp now)) \<and>
        verifyChecksum (IChecksum (QIntent req)) (all_digests p (Body resp)))"
proof -
  have u: "undisturbed p (manifestKey (QFeed req) (QIntent req))" using assms(3) by (auto simp: undisturbed_def)
  obtain k where n: "n = Suc k" using assms(4) by (cases n) auto
  show ?thesis
  proof (cases "validRemotePath (RemotePath (QIntent req))")
    case False
    with assms(4) n show ?thesis by (simp add: serve_once_def throw_def)
  next
    case True
    with assms(1,4) n have "serveArtifact p (Serve p k) req w = Some (r, w')" by (simp add: serve_once_def)
    from serveArtifact_verified [OF this assms(2) u] show ?thesis by (simp add: verified_at_def)
  qed
qed

subsection \<open>Metadata in an outage\<close>

lemma store_Stat_cached:
  "valid_key key \<Longrightarrow> map_of (Data s) key = Some (body, t) \<Longrightarrow>
     \<exists>info. store_Stat Works key s = Inr info \<and> IModTime info = t \<and> ISize info = int (length body)"
  by (simp add: store_Stat_def split: option.split)

text \<open>
  Cached metadata survives an outage but not a deletion.  With a working store and a cached copy:
  while the copy is fresh it is served without asking; once it is stale, an upstream that cannot be
  reached, or answers with an error, makes the request succeed with the cached copy, marked stale,
  and an upstream that answers 404 makes it fail with not found.
\<close>

theorem metadata_survives_outage:
  assumes kind: "IKind (QIntent req) = IntentMetadata \<or> IKind (QIntent req) = IntentSearch"
    and path: "validRemotePath (RemotePath (QIntent req))" and up: "QUpstream req" and want: "WantChecksum (QIntent req) = []"
    and disk: "\<And>n. os_at p n = Works" and valid: "valid_key (metaKey p (QFeed req) (QIntent req))"
    and cached: "map_of (Data (WFs w)) (metaKey p (QFeed req) (QIntent req)) = Some (body, t)"
    and ask: "fst (FetchAll (weather_at p (WTick w + 2)) (RemotePath (QIntent req))
                \<lparr>OQuery = RemoteQuery (QIntent req), OAccept = IAccept (QIntent req)\<rparr> (WUp w)) = Inl e"
  shows "\<exists>w' res. Serve p (Suc n) req w =
           Some (if CacheTTL (QIntent req) > 0 \<and> clock_at p (WTick w + 1) - t < CacheTTL (QIntent req) then Inr (res\<lparr>VSource := SourceCache\<rparr>)
                 else if e = FNotFound then Inl ENotFound
                 else Inr (res\<lparr>VSource := SourceStale\<rparr>), w') \<and>
         VBody res = body \<and> VSize res = int (length body) \<and> VModTime res = t \<and> WFs w' = WFs w"
proof -
  let ?key = "metaKey p (QFeed req) (QIntent req)"
  let ?opts = "\<lparr>OQuery = RemoteQuery (QIntent req), OAccept = IAccept (QIntent req)\<rparr>"
  obtain info where st: "store_Stat Works ?key (WFs w) = Inr info" "IModTime info = t" "ISize info = int (length body)"
    using store_Stat_cached [OF valid cached] by blast
  have get: "store_Get Works ?key (WFs w) = Inr (body, info)" using st(1) cached by (simp add: store_Get_def)
  have om: "openMeta p ?key src w1 = Some (Inr \<lparr>VBody = body, VSize = ISize info, VSHA256 = ISHA256 info, VModTime = t, VSource = src,
      VBlobKey = [], VContentType = IContentType info\<rparr>, tick w1)" if "WFs w1 = WFs w" for src w1
    using that get st(2) by (simp add: openMeta_def seq_def handle_def do_Get_def disk ret_def)
  define w2 where "w2 = tick (tick w)"
  have w2: "WFs w2 = WFs w" "WTick w2 = WTick w + 2" "WUp w2 = WUp w" by (simp_all add: w2_def tick_def)
  obtain u sent waits where fa: "FetchAll (weather_at p (WTick w + 2)) (RemotePath (QIntent req)) ?opts (WUp w) = (Inl e, u, sent, waits)"
    using ask by (metis prod.exhaust fst_conv)
  define w3 where "w3 = tick (w2\<lparr>WUp := u, WSent := WSent w2 @ sent\<rparr>)"
  have refresh: "refreshMetadata p req ?key w2 = Some (Inl (of_fetch e), w3)"
    using fa w2 by (simp add: refreshMetadata_def seq_def handle_def do_fetch_def throw_def w3_def)
  have w3: "WFs w3 = WFs w" by (simp add: w3_def w2)
  have nf: "of_fetch e = ENotFound \<longleftrightarrow> e = FNotFound" by (cases e) (simp_all add: of_fetch_def)
  define fresh where "fresh \<longleftrightarrow> CacheTTL (QIntent req) > 0 \<and> clock_at p (WTick w + 1) - t < CacheTTL (QIntent req)"
  have b: "serveMetadataBody p req w =
      (if fresh then openMeta p ?key SourceCache w2
       else if e = FNotFound then Some (Inl ENotFound, w3) else openMeta p ?key SourceStale w3)"
  proof -
    have "serveMetadataBody p req w = (if fresh then openMeta p ?key SourceCache w2
        else handle (refreshMetadata p req ?key) (\<lambda>r. case r of Inr _ \<Rightarrow> openMeta p ?key SourceUpstream
           | Inl ENotFound \<Rightarrow> throw ENotFound | Inl e \<Rightarrow> openMeta p ?key SourceStale) w2)"
      using st up by (simp add: serveMetadataBody_def Let_def handle_def [of "do_Stat _ _"] seq_def handle_def [of "get_now _"]
          do_Stat_def get_now_def disk fresh_def w2_def tick_def)
    then show ?thesis
      by (simp add: handle_def refresh nf [symmetric] throw_def split: pipe_error.split)
  qed
  have s: "Serve p (Suc n) req w = serveMetadataBody p req w" if "serveMetadataBody p req w = Some (r, w')" for r w'
    using kind path want that by (auto simp: serve_once_def serveMetadata_def seq_def handle_def ret_def throw_def split: sum.splits)
  define res where "res = \<lparr>VBody = body, VSize = ISize info, VSHA256 = ISHA256 info, VModTime = t, VSource = SourceLocal,
      VBlobKey = [], VContentType = IContentType info\<rparr>"
  show ?thesis
    unfolding fresh_def [symmetric]
  proof (intro exI [of _ "if fresh then tick w2 else if e = FNotFound then w3 else tick w3"] exI [of _ res] conjI)
    show "Serve p (Suc n) req w = Some (if fresh then Inr (res\<lparr>VSource := SourceCache\<rparr>)
        else if e = FNotFound then Inl ENotFound else Inr (res\<lparr>VSource := SourceStale\<rparr>),
        if fresh then tick w2 else if e = FNotFound then w3 else tick w3)"
      using b s om [OF w2(1)] om [OF w3] by (simp add: res_def del: Serve.simps)
  qed (use st w2 w3 in \<open>auto simp: res_def\<close>)
qed

subsection \<open>An example feed\<close>

definition example_pipe :: "int \<Rightarrow> surroundings" where
  "example_pipe status =
     \<lparr>hash_of = (\<lambda>algo body. algo @ ''-'' @ body), encode_manifest = PtSHA256, decode_manifest = (\<lambda>s. Some (peer_manifest s 0 0)),
      resolve_reference = (\<lambda>_ _. None),
      Module = \<lparr>RewriteMetadata = (\<lambda>_ b. Some b), ResolveIndirect = None, AsMetadataSource = None\<rparr>,
      Peers = None, missTTL = 0, Site_name = ''eu'', os_at = (\<lambda>_. Works), clock_at = (\<lambda>_. 100),
      weather_at = (\<lambda>_. example_weather status []), lock_at = (\<lambda>_. True), meanwhile = (\<lambda>_ s. s),
      spool_at = (\<lambda>_. True), download_at = (\<lambda>_. True)\<rparr>"

definition example_request :: "intent_kind \<Rightarrow> string \<Rightarrow> intent_request" where
  "example_request kind hex =
     \<lparr>QFeed = \<lparr>FeedName = ''f'', FeedFormat = ''generic'', FeedUpstream = [], FeedAnonymous = False, FeedGroup = False, FeedHosted = False, FeedExternalURL = []\<rparr>,
      QIntent = \<lparr>IKind = kind, ICoord = \<lparr>Format = ''g'', CName = ''n'', CVersion = ''1''\<rparr>, CacheTTL = 10, RemotePath = ''p'',
                 IChecksum = \<lparr>Algo = ''SHA256'', Hex = hex\<rparr>, RemoteChecksum = \<lparr>SAlgo = [], SPath = []\<rparr>, WantChecksum = [],
                 Indirect = False, RemoteURL = [], IMediaType = [], IAccept = [], RemoteQuery = []\<rparr>,
      QUpstream = True, QPeerFallback = False\<rparr>"

definition example_site :: "(string \<times> (string \<times> int)) list \<Rightarrow> pipe_world" where
  "example_site files = \<lparr>WFs = \<lparr>Data = files, Attrs = []\<rparr>, WUp = example_upstream, WMisses = [], WSent = [], WTick = 0\<rparr>"

lemma example_ingest:
  "\<exists>res w'. Serve (example_pipe 200) 2 (example_request IntentArtifact ''sha256-x'') (example_site []) = Some (Inr res, w') \<and>
     VBlobKey res = ''blobs/sha256/sha256-x'' \<and> VBody res = ''x'' \<and> length (WSent w') = 1 \<and>
     content_at ''manifests/f/p'' (WFs w') = Some ''sha256-x''"
proof -
  have "case Serve (example_pipe 200) 2 (example_request IntentArtifact ''sha256-x'') (example_site []) of
      Some (Inr res, w') \<Rightarrow> VBlobKey res = ''blobs/sha256/sha256-x'' \<and> VBody res = ''x'' \<and> length (WSent w') = 1 \<and>
        content_at ''manifests/f/p'' (WFs w') = Some ''sha256-x''
    | _ \<Rightarrow> False"
    by code_simp
  then show ?thesis by (auto split: option.splits prod.splits sum.splits)
qed

lemma example_key: "manifestKey (QFeed (example_request k h)) (QIntent (example_request k h)) = ''manifests/f/p''"
  by (simp add: manifestKey_def example_request_def)

text \<open>An artifact is ingested into an empty store and served.\<close>

theorem served_content_matches_digest_witness:
  "\<exists>res w'. Serve (example_pipe 200) 2 (example_request IntentArtifact ''sha256-x'') (example_site []) = Some (Inr res, w') \<and>
     VBlobKey res \<noteq> [] \<and> hash_of (example_pipe 200) ''sha256'' (VBody res) = VSHA256 res"
proof -
  obtain res w' where r: "Serve (example_pipe 200) 2 (example_request IntentArtifact ''sha256-x'') (example_site []) = Some (Inr res, w')"
    and k: "VBlobKey res = ''blobs/sha256/sha256-x''" using example_ingest by blast
  have a: "replicas_address (example_pipe 200)" by (simp add: replicas_address_def example_pipe_def)
  have b: "addressed (hash_of (example_pipe 200) ''sha256'') (WFs (example_site []))"
    by (simp add: addressed_def example_site_def content_at_def)
  show ?thesis using served_content_matches_digest [OF a b r] r k by auto
qed

text \<open>A second ingest of the same coordinate, from an upstream that now serves something else.\<close>

theorem manifest_never_moves_witness:
  "\<exists>r w'. Serve (example_pipe 200) 2 (example_request IntentArtifact ''sha256-x'') (example_site [(''manifests/f/p'', (''old'', 0))]) = Some (r, w') \<and>
     content_at ''manifests/f/p'' (WFs w') = Some ''old''"
proof -
  let ?req = "example_request IntentArtifact ''sha256-x''"
  have "Serve (example_pipe 200) 2 ?req (example_site [(''manifests/f/p'', (''old'', 0))]) \<noteq> None" by code_simp
  then obtain r w' where r: "Serve (example_pipe 200) 2 ?req (example_site [(''manifests/f/p'', (''old'', 0))]) = Some (r, w')" by auto
  have c: "content_at (manifestKey (QFeed ?req) (QIntent ?req)) (WFs (example_site [(''manifests/f/p'', (''old'', 0))])) = Some ''old''"
    by (simp add: example_key example_site_def content_at_def)
  show ?thesis
    using manifest_never_moves [OF c _ r] r by (auto simp: example_key example_pipe_def)
qed

text \<open>The request the ingest sends goes to the configured host.\<close>

theorem serving_stays_public_witness:
  "\<exists>res w' q. Serve (example_pipe 200) 2 (example_request IntentArtifact ''sha256-x'') (example_site []) = Some (Inr res, w') \<and>
     q \<in> set (WSent w') \<and>
     (equal_fold (UHostname (RURL q)) (UHostname (UBase (WUp (example_site [])))) \<or>
      (\<exists>t n ips. LookupIP (net_at (weather_at (example_pipe 200) t) n) (UHostname (RURL q)) = Some ips \<and> list_all isPublicIP ips))"
proof -
  obtain res w' where r: "Serve (example_pipe 200) 2 (example_request IntentArtifact ''sha256-x'') (example_site []) = Some (Inr res, w')"
    and l: "length (WSent w') = 1" using example_ingest by blast
  then obtain q where q: "q \<in> set (WSent w')" by (cases "WSent w'") auto
  have "q \<notin> set (WSent (example_site []))" by (simp add: example_site_def)
  from serving_stays_public [OF r q this] r q show ?thesis unfolding list_all_iff by blast
qed


text \<open>A body that does not match its checksum is refused and leaves no manifest.\<close>

theorem only_verified_content_appears_witness:
  "\<exists>w'. Serve (example_pipe 200) 2 (example_request IntentArtifact ''sha256-y'') (example_site []) = Some (Inl EChecksumMismatch, w') \<and>
     (content_at ''manifests/f/p'' (WFs w') = None \<or>
      (\<exists>resp now.
         content_at ''manifests/f/p'' (WFs w') =
           Some (encode_manifest (example_pipe 200) (proxy_manifest (example_pipe 200) (example_request IntentArtifact ''sha256-y'') resp now)) \<and>
         verifyChecksum \<lparr>Algo = ''SHA256'', Hex = ''sha256-y''\<rparr> (all_digests (example_pipe 200) (Body resp))))"
proof -
  let ?req = "example_request IntentArtifact ''sha256-y''"
  have "case Serve (example_pipe 200) 2 ?req (example_site []) of Some (Inl EChecksumMismatch, w') \<Rightarrow> True | _ \<Rightarrow> False"
    by code_simp
  then obtain w' where r: "Serve (example_pipe 200) 2 ?req (example_site []) = Some (Inl EChecksumMismatch, w')"
    by (auto split: option.splits prod.splits sum.splits pipe_error.splits)
  have "IKind (QIntent ?req) = IntentArtifact" "\<not> IsZero (IChecksum (QIntent ?req))"
    by (simp_all add: example_request_def IsZero_def)
  moreover have "content_at (manifestKey (QFeed ?req) (QIntent ?req)) (meanwhile (example_pipe 200) n s) =
      content_at (manifestKey (QFeed ?req) (QIntent ?req)) s" for n s by (simp add: example_pipe_def)
  moreover have "content_at ''manifests/f/p'' (WFs (example_site [])) = None" by (simp add: example_site_def content_at_def)
  moreover have "IChecksum (QIntent ?req) = \<lparr>Algo = ''SHA256'', Hex = ''sha256-y''\<rparr>" by (simp add: example_request_def)
  ultimately show ?thesis
    using only_verified_content_appears [OF _ _ _ r] r by (auto simp: example_key)
qed

text \<open>A cached document is served stale while the upstream answers 503.\<close>

theorem metadata_survives_outage_witness:
  "\<exists>res w'. Serve (example_pipe 503) 1 (example_request IntentMetadata []) (example_site [(''meta/f/p'', (''doc'', 0))]) = Some (Inr res, w') \<and>
     VBody res = ''doc'' \<and> VSource res = SourceStale"
proof -
  let ?req = "example_request IntentMetadata []" and ?w = "example_site [(''meta/f/p'', (''doc'', 0))]"
  have k: "metaKey (example_pipe 503) (QFeed ?req) (QIntent ?req) = ''meta/f/p''"
    by (simp add: metaKey_def example_request_def)
  have i: "IKind (QIntent ?req) = IntentMetadata \<or> IKind (QIntent ?req) = IntentSearch" "QUpstream ?req" "WantChecksum (QIntent ?req) = []"
    "RemotePath (QIntent ?req) = ''p''" "CacheTTL (QIntent ?req) = 10" by (simp_all add: example_request_def)
  have p: "validRemotePath (RemotePath (QIntent ?req))" "valid_key (metaKey (example_pipe 503) (QFeed ?req) (QIntent ?req))"
    unfolding k i by code_simp+
  have d: "os_at (example_pipe 503) n = Works" "clock_at (example_pipe 503) n = 100" for n by (simp_all add: example_pipe_def)
  have c: "map_of (Data (WFs ?w)) (metaKey (example_pipe 503) (QFeed ?req) (QIntent ?req)) = Some (''doc'', 0)"
    unfolding k by (simp add: example_site_def)
  have a: "fst (FetchAll (weather_at (example_pipe 503) (WTick ?w + 2)) (RemotePath (QIntent ?req))
      \<lparr>OQuery = RemoteQuery (QIntent ?req), OAccept = IAccept (QIntent ?req)\<rparr> (WUp ?w)) = Inl FUnavailable"
    by code_simp
  from metadata_survives_outage [OF i(1) p(1) i(2,3) d(1) p(2) c a, of 0]
  show ?thesis by (auto simp: i d simp del: Serve.simps)
qed

end
