(* ===== verification/Repl_Manager.thy ===== *)
theory Repl_Manager
  imports Operator_Actions
begin

text \<open>
  The pull loop, \<^verbatim>\<open>src/core/repl/manager.go\<close>, and the two ends of the wire: the internal API of a
  site (\<^verbatim>\<open>api.go\<close>) and the client that reads it (\<^verbatim>\<open>puller.go\<close>).  What a peer answers is an
  argument: the status, the answer to the n-th journal request, and the snapshot.  \<^verbatim>\<open>catchUp\<close>
  follows a peer that may keep publishing, so it runs on fuel and \<open>None\<close> means the fuel ran out; that
  enough fuel exists for a peer that stands still is a property below.  Tables are listed in key
  order.  Metrics and logging are left out.
\<close>

subsection \<open>Serving: \<^verbatim>\<open>api.go\<close>\<close>

definition InternalPrefix :: string where "InternalPrefix = ''/internal/replication/v1''"

record status_response =
  SRSite :: string
  SRUUID :: string
  SRHeads :: "(string \<times> int) list"
  SROldest :: "(string \<times> int) list"

definition handleStatus :: "string \<Rightarrow> string \<Rightarrow> db \<Rightarrow> status_response" where
  "handleStatus site uuid s =
     (let origins = (if KnownOrigins s = [] then [site] else KnownOrigins s)
      in \<lparr>SRSite = site, SRUUID = uuid, SRHeads = map (\<lambda>origin. (origin, fst (JournalHead origin s))) origins,
          SROldest = map (\<lambda>origin. (origin, snd (JournalHead origin s))) origins\<rparr>)"

datatype journal_answer = Gone | Answer "journal_entry list" int

definition handleJournal :: "int \<Rightarrow> string \<Rightarrow> string \<Rightarrow> string \<Rightarrow> int \<Rightarrow> int \<Rightarrow> db \<Rightarrow> journal_answer \<times> db" where
  "handleJournal now_ms site peer origin_arg after limit s =
     (let origin = (if origin_arg = [] then site else origin_arg);
          (head, oldest) = JournalHead origin s
      in if oldest > after + 1 then (Gone, s)
         else
           let entries = ReadJournal origin after limit s;
               s' = (if origin = site \<and> after > 0 \<and> after \<le> head then RecordPeerAck now_ms peer site after s else s)
           in (Answer entries head, s'))"

text \<open>\<^verbatim>\<open>parseResumeOffset\<close>: only an open-ended range is honoured.\<close>

definition parseResumeOffset :: "string \<Rightarrow> int option" where
  "parseResumeOffset header =
     (if \<not> has_prefix header ''bytes='' then None
      else (case str_cut (trim_prefix header ''bytes='') ''-'' of (start, rest, ok) \<Rightarrow>
        if \<not> ok \<or> rest \<noteq> [] then None
        else (case ParseInt start of None \<Rightarrow> None | Some n \<Rightarrow> if n < 0 then None else Some n)))"

record snapshot_response =
  SnSite :: string
  SnUUID :: string
  SnManifests :: "manifest_put list"
  SnRevoked :: "string list"
  SnQuarantine :: "((string \<times> string \<times> string) \<times> quarantine_row) list"
  SnResolutions :: "((string \<times> string) \<times> resolution_row) list"
  SnConflicts :: "conflict_row list"
  SnWatermarks :: "(string \<times> int) list"

definition listing :: "('k :: linorder \<Rightarrow> 'v option) \<Rightarrow> ('k \<times> 'v) list" where
  "listing m = map (\<lambda>k. (k, the (m k))) (sorted_list_of_set (dom m))"

definition manifest_of_row :: "(string \<times> string) \<times> hosted_row \<Rightarrow> manifest_put" where
  "manifest_of_row = (\<lambda>((feed, path), r).
     \<lparr>Feed = feed, MPath = path, Coord = HCoordinate r, SHA256 = HSHA256 r, Size = HSize r, Checksums = HChecksums r,
      Metadata = HMetadata r, Mutable = HMutable r, Publisher = HPublishedBy r, MSite = HSite r\<rparr>)"

definition handleSnapshot :: "string \<Rightarrow> string \<Rightarrow> db \<Rightarrow> snapshot_response" where
  "handleSnapshot site uuid s =
     \<lparr>SnSite = site, SnUUID = uuid,
      SnManifests = map manifest_of_row (listing (hosted_manifests s)),
      SnRevoked = sort (map THash (filter TRevoked (tokens s))),
      SnQuarantine = listing (quarantine s),
      SnResolutions = listing (conflict_resolutions s),
      SnConflicts = sort_key (\<lambda>c. (CFeed c, CPath c)) (filter (\<lambda>c. CResolved c = None) (publish_conflicts s)),
      SnWatermarks = map (\<lambda>origin. (origin, fst (JournalHead origin s))) (KnownOrigins s)\<rparr>"

subsection \<open>Reading: \<^verbatim>\<open>puller.go\<close>\<close>

text \<open>
  \<^verbatim>\<open>Client.Status\<close> and \<^verbatim>\<open>Client.Journal\<close> on what came over the wire; \<open>None\<close> is a transport failure
  or an answer that is not the expected document.
\<close>

definition client_Status :: "string \<Rightarrow> status_response option \<Rightarrow> string + status_response" where
  "client_Status peer wire =
     (case wire of
        None \<Rightarrow> Inl ''unreachable''
      | Some out \<Rightarrow>
          if SRSite out \<noteq> peer then Inl ''identifies as another site''
          else if SRUUID out = [] then Inl ''reported no site UUID''
          else Inr out)"

datatype journal_result = Resync | JournalError string | JournalPage "journal_entry list" int

definition client_Journal :: "string \<Rightarrow> journal_answer option \<Rightarrow> journal_result" where
  "client_Journal origin wire =
     (case wire of
        None \<Rightarrow> JournalError ''unreachable''
      | Some Gone \<Rightarrow> Resync
      | Some (Answer es head) \<Rightarrow>
          if list_ex (\<lambda>e. OriginSite e \<noteq> origin) es then JournalError ''served an entry attributed to another origin''
          else JournalPage es head)"

subsection \<open>Progress\<close>

definition journalBatch :: int where "journalBatch = 200"

definition durable_step :: "string set \<Rightarrow> journal_entry \<Rightarrow> int \<Rightarrow> int" where
  "durable_step blobs e durable =
     (if EKind e \<noteq> KindManifestPut then durable
      else (case unmarshal_manifest_put (Payload e) of
              None \<Rightarrow> durable
            | Some p \<Rightarrow>
                if SHA256 p = [] then durable
                else if SHA256 p \<notin> blobs \<and> OriginSeq e - 1 < durable then OriginSeq e - 1
                else durable))"

definition durableThrough :: "string set \<Rightarrow> journal_entry list \<Rightarrow> int \<Rightarrow> int" where
  "durableThrough blobs entries fallback =
     (let durable = fold (durable_step blobs) entries fallback in if durable < 0 then 0 else durable)"

definition setCursor :: "int \<Rightarrow> string \<Rightarrow> string \<Rightarrow> int \<Rightarrow> int \<Rightarrow> string \<Rightarrow> db \<Rightarrow> db" where
  "setCursor now_ms peer origin applied durable originUUID s = SetCursorTx now_ms peer origin applied durable [] originUUID s"

subsection \<open>Bootstrapping\<close>

definition apply_record :: "(string \<times> string \<times> string) \<times> quarantine_row \<Rightarrow> db \<Rightarrow> db" where
  "apply_record = (\<lambda>((feed, coordinate, reason), q) s.
     if feed = [] \<or> coordinate = [] \<or> reason = [] then s
     else if reason = ''cross_site_conflict'' then s
     else ApplyQuarantineDecisionTx feed coordinate reason (QDetail q) (\<not> QReleased q) (QHLC q) s)"

definition import_open_conflict :: "conflict_row \<Rightarrow> db \<Rightarrow> db" where
  "import_open_conflict c s =
     (if CFeed c = [] \<or> CPath c = [] \<or> length (SSHA256 (CWinner c)) \<noteq> 64 \<or> length (SSHA256 (CLoser c)) \<noteq> 64 then s
      else importConflictTx c s)"

definition import_resolution :: "string \<Rightarrow> (string \<times> string) \<times> resolution_row \<Rightarrow> db \<Rightarrow> db" where
  "import_resolution peer = (\<lambda>((feed, path), r) s.
     if feed = [] \<or> path = [] \<or> length (KeepSHA r) \<noteq> 64 then s
     else recordResolution feed path (RCoordinate r) (resolution.truncate r) (ROperator r) peer s)"

fun import_revocations :: "string list \<Rightarrow> db \<Rightarrow> db option" where
  "import_revocations [] s = Some s"
| "import_revocations (h # hs) s =
     (if length h \<noteq> 64 then import_revocations hs s
      else (case revoke_hash h s of None \<Rightarrow> None | Some s' \<Rightarrow> import_revocations hs s'))"

definition applySnapshotRestrictions :: "string \<Rightarrow> snapshot_response \<Rightarrow> db \<Rightarrow> db option" where
  "applySnapshotRestrictions peer snap s =
     import_revocations (SnRevoked snap)
       (fold (import_resolution peer) (SnResolutions snap)
         (fold import_open_conflict (SnConflicts snap)
           (fold apply_record (SnQuarantine snap) s)))"

definition newest_stamp :: "snapshot_response \<Rightarrow> hlc" where
  "newest_stamp snap =
     fold (\<lambda>h newest. if Before newest h then h else newest)
       (map (\<lambda>p. hlcFromMetadata (Metadata p)) (SnManifests snap) @ map (\<lambda>(_, q). QHLC q) (SnQuarantine snap) @
        map (\<lambda>(_, r). RHLC r) (SnResolutions snap)) (HLC 0 0)"

definition advanceClockPastSnapshot :: "snapshot_response \<Rightarrow> db \<Rightarrow> db" where
  "advanceClockPastSnapshot snap s =
     (let newest = newest_stamp snap in if Wall newest = 0 \<and> Logical newest = 0 then s else ReceiveClock newest s)"

definition snapshot_entry :: "snapshot_response \<Rightarrow> manifest_put \<Rightarrow> journal_entry" where
  "snapshot_entry snap p = \<lparr>OriginSite = SnSite snap, OriginSeq = 0, EKind = KindManifestPut, Payload = marshal_manifest_put p,
     EHLC = hlcFromMetadata (Metadata p), SchemaVersion = 1\<rparr>"

fun import_manifests ::
  "env \<Rightarrow> (string \<Rightarrow> int) \<Rightarrow> string \<Rightarrow> snapshot_response \<Rightarrow> manifest_put list \<Rightarrow> string set \<times> site_state \<Rightarrow>
   string option \<times> string set \<times> site_state" where
  "import_manifests v blobSize peer snap [] st = (None, st)"
| "import_manifests v blobSize peer snap (p # ps) (touched, st) =
     (let e = snapshot_entry snap p;
          blobs = (case prefetchBlob v peer e (sblobs st) of Inl _ \<Rightarrow> sblobs st | Inr b \<Rightarrow> b);
          st = st\<lparr>sblobs := blobs\<rparr>
      in case importSnapshotEntry v blobSize peer e (sblobs st) (sdb st, touched, []) of
           Inl err \<Rightarrow> (Some err, touched, st)
         | Inr ((s', touched', pending), blobs') \<Rightarrow>
             import_manifests v blobSize peer snap ps (touched', flushProjections v pending (st\<lparr>sdb := s', sblobs := blobs'\<rparr>)))"

definition bootstrap ::
  "env \<Rightarrow> (string \<Rightarrow> int) \<Rightarrow> string \<Rightarrow> snapshot_response option \<Rightarrow> string set \<times> site_state \<Rightarrow>
   string option \<times> string set \<times> site_state" where
  "bootstrap v blobSize peer wire = (\<lambda>(touched, st).
     case wire of
       None \<Rightarrow> (Some ''unreachable'', touched, st)
     | Some snap \<Rightarrow>
         if SnSite snap \<noteq> peer then (Some ''served a snapshot attributed to another site'', touched, st)
         else
           (case applySnapshotRestrictions peer snap (sdb st) of
              None \<Rightarrow> (Some ''apply revocation from snapshot'', touched, st)
            | Some s \<Rightarrow>
                (case import_manifests v blobSize peer snap (SnManifests snap) (touched, st\<lparr>sdb := s\<rparr>) of
                   (Some err, st') \<Rightarrow> (Some err, st')
                 | (None, touched', st') \<Rightarrow>
                     let s = advanceClockPastSnapshot snap (sdb st');
                         s = (case map_of (SnWatermarks snap) (SnSite snap) of
                                None \<Rightarrow> s
                              | Some seq \<Rightarrow> setCursor (ENow v) peer (SnSite snap) seq 0 (SnUUID snap) s)
                     in (None, touched', st'\<lparr>sdb := s\<rparr>))))"

subsection \<open>Catching up\<close>

text \<open>A cursor counted against another incarnation of the origin starts over.\<close>

definition check_incarnation :: "int \<Rightarrow> string \<Rightarrow> string \<Rightarrow> string \<Rightarrow> db \<Rightarrow> db" where
  "check_incarnation now_ms peer origin originUUID s =
     (case OriginUUID (GetCursor peer origin s) of
        None \<Rightarrow> s
      | Some u \<Rightarrow>
          if u \<noteq> [] \<and> originUUID \<noteq> [] \<and> u \<noteq> originUUID
          then setCursor now_ms peer origin 0 0 originUUID (ForgetOriginJournal origin s)
          else s)"

primrec catchUp ::
  "nat \<Rightarrow> env \<Rightarrow> (string \<Rightarrow> int) \<Rightarrow> string \<Rightarrow> string \<Rightarrow> (nat \<Rightarrow> int \<Rightarrow> journal_answer option) \<Rightarrow> snapshot_response option \<Rightarrow>
   nat \<Rightarrow> int \<Rightarrow> nat \<Rightarrow> string set \<times> site_state \<Rightarrow> (nat \<times> string option \<times> string set \<times> site_state) option" where
  "catchUp 0 v blobSize peer originUUID journal snapshot n head done_so_far st = None"
| "catchUp (Suc fuel) v blobSize peer originUUID journal snapshot n head done_so_far st =
     (let touched = fst st;
          st = (snd st)\<lparr>sdb := check_incarnation (ENow v) peer peer originUUID (sdb (snd st))\<rparr>;
          applied = AppliedSeq (GetCursor peer peer (sdb st))
      in if applied \<ge> head then Some (done_so_far, None, touched, st)
         else
           (case client_Journal peer (journal n applied) of
              Resync \<Rightarrow> Some (done_so_far, bootstrap v blobSize peer snapshot (touched, st))
            | JournalError err \<Rightarrow> Some (done_so_far, Some err, touched, st)
            | JournalPage es page_head \<Rightarrow>
                if es = [] then Some (done_so_far, None, touched, st)
                else
                  (case ApplyBatch v blobSize peer es ({}, st) of
                     (Some err, batch, st') \<Rightarrow> Some (done_so_far, Some err, touched \<union> batch, st')
                   | (None, batch, st') \<Rightarrow>
                       let lst = OriginSeq (last es);
                           durable = durableThrough (sblobs st') es lst;
                           st' = st'\<lparr>sdb := setCursor (ENow v) peer peer lst durable originUUID (sdb st')\<rparr>
                       in catchUp fuel v blobSize peer originUUID journal snapshot (Suc n)
                            (if page_head > head then page_head else head) (done_so_far + length es) (touched \<union> batch, st'))))"

subsection \<open>Pruning and polling\<close>

definition pruneJournal :: "int \<Rightarrow> int \<Rightarrow> string \<Rightarrow> string list \<Rightarrow> db \<Rightarrow> db" where
  "pruneJournal now_ms retention site peers s =
     (if retention \<le> 0 then s
      else
        let s = (case MinCursorAcrossPeers site peers s of
                   None \<Rightarrow> s
                 | Some watermark \<Rightarrow> if watermark > 0 then PruneJournal site (watermark + 1) s else s)
        in PruneJournalOlderThan now_ms [] retention s)"

text \<open>
  \<^verbatim>\<open>pollPeer\<close>: one cycle for one peer.  Of the heads a peer reports only its own is followed.
\<close>

definition pollPeer ::
  "nat \<Rightarrow> env \<Rightarrow> (string \<Rightarrow> int) \<Rightarrow> int \<Rightarrow> string list \<Rightarrow> nat \<Rightarrow> string \<Rightarrow> status_response option \<Rightarrow>
   (nat \<Rightarrow> int \<Rightarrow> journal_answer option) \<Rightarrow> snapshot_response option \<Rightarrow> site_state \<Rightarrow> site_state option" where
  "pollPeer fuel v blobSize retention peers budget peer wire journal snapshot st =
     (case client_Status peer wire of
        Inl err \<Rightarrow> Some (st\<lparr>sdb := RecordCursorError peer ''*'' err (sdb st)\<rparr>)
      | Inr status \<Rightarrow>
          (case PinPeerIdentity peer (SRUUID status) (sdb st) of
             Inl _ \<Rightarrow> Some (st\<lparr>sdb := RecordCursorError peer ''*'' ''peer identity changed'' (sdb st)\<rparr>)
           | Inr s \<Rightarrow>
               let st = st\<lparr>sdb := MarkPeerPollOK (ENow v) peer [peer] (SRUUID status) s\<rparr>;
                   caught = (case map_of (SRHeads status) peer of
                               None \<Rightarrow> Some st
                             | Some head \<Rightarrow>
                                 (case catchUp fuel v blobSize peer (SRUUID status) journal snapshot 0 head 0 ({}, st) of
                                    None \<Rightarrow> None
                                  | Some (_, Some err, _, st') \<Rightarrow> Some (st'\<lparr>sdb := RecordCursorError peer peer err (sdb st')\<rparr>)
                                  | Some (_, None, _, st') \<Rightarrow> Some st'))
               in (case caught of
                     None \<Rightarrow> None
                   | Some st \<Rightarrow>
                       let st = st\<lparr>sdb := pruneJournal (ENow v) retention (ESite v) peers (sdb st)\<rparr>
                       in Some (snd (snd (RetryParked v blobSize budget peer st))))))"

subsection \<open>Pruning keeps what peers still need\<close>

lemma MinCursor_bounds:
  assumes "MinCursorAcrossPeers origin peers s = Some m" and "p \<in> set peers"
  shows "\<exists>c. repl_cursors s (p, origin) = Some c \<and> m \<le> DurableSeq c"
proof -
  let ?cs = "List.map_filter (\<lambda>peer. repl_cursors s (peer, origin)) (remdups peers)"
  have m: "m = Min (DurableSeq ` set ?cs)" and len: "\<not> length ?cs < length peers"
    using assms(1) unfolding MinCursorAcrossPeers_def Let_def by (simp_all split: if_split_asm)
  have "length ?cs \<le> length (remdups peers)" unfolding map_filter_def by simp
  then have all: "length ?cs = length (remdups peers)" using len length_remdups_leq[of peers] by linarith
  have "repl_cursors s (p, origin) \<noteq> None"
  proof
    assume "repl_cursors s (p, origin) = None"
    then have "length (filter (\<lambda>peer. repl_cursors s (peer, origin) \<noteq> None) (remdups peers)) < length (remdups peers)"
      using assms(2) by (intro length_filter_less[of p]) auto
    then show False using all by (simp add: map_filter_def comp_def)
  qed
  then obtain c where c: "repl_cursors s (p, origin) = Some c" by blast
  then have "c \<in> set ?cs" using assms(2) by (force simp: map_filter_def)
  then have "m \<le> DurableSeq c" unfolding m by (intro Min_le) simp_all
  then show ?thesis using c by blast
qed

definition retained :: "int \<Rightarrow> int \<Rightarrow> int \<Rightarrow> bool" where
  "retained now_ms retention created \<longleftrightarrow> created \<ge> now_ms - retention div 1000000000 * 1000"

text \<open>
  C12: Pruning never outruns a peer.  An entry of the site's own journal that some configured peer has
  not acknowledged survives pruning as long as it is younger than the retention; entries of other
  origins go only by age.
\<close>

theorem prune_keeps_unacknowledged:
  assumes "(e, created) \<in> set (repl_journal s)" "retained now_ms retention created"
    and "OriginSite e = site \<longrightarrow> (\<exists>p \<in> set peers. \<forall>c. repl_cursors s (p, site) = Some c \<longrightarrow> DurableSeq c < OriginSeq e)"
  shows "(e, created) \<in> set (repl_journal (pruneJournal now_ms retention site peers s))"
proof -
  have kept: "(e, created) \<in> set (repl_journal (PruneJournal site (m + 1) s))" if m: "MinCursorAcrossPeers site peers s = Some m" for m
  proof -
    have "\<not> OriginSeq e < m + 1" if "OriginSite e = site"
      using assms(3) that MinCursor_bounds[OF m] by fastforce
    then show ?thesis using assms(1) by (auto simp: PruneJournal_def)
  qed
  have young: "(e, created) \<in> set (repl_journal (PruneJournalOlderThan now_ms [] retention t))"
    if "(e, created) \<in> set (repl_journal t)" for t
    using that assms(2) by (auto simp: PruneJournalOlderThan_def retained_def)
  show ?thesis
    using assms(1) kept by (auto simp: pruneJournal_def Let_def intro!: young split: option.split)
qed

definition example_entry :: "int \<Rightarrow> journal_entry" where
  "example_entry n = (example_put ''ams'' 5 False CHR ''a'')\<lparr>OriginSeq := n\<rparr>"

definition acked_db :: db where
  "acked_db = empty_db\<lparr>repl_journal := map (\<lambda>n. (example_entry n, 1000)) [1, 2, 3, 4],
     repl_cursors := (\<lambda>_. None)((''ber'', ''ams'') \<mapsto> zero_cursor\<lparr>DurableSeq := 2\<rparr>, (''cph'', ''ams'') \<mapsto> zero_cursor\<lparr>DurableSeq := 3\<rparr>)\<rparr>"

theorem prune_keeps_unacknowledged_witness:
  "(example_entry 3, 1000) \<in> set (repl_journal (pruneJournal 1000 60000000000 ''ams'' [''ber'', ''cph''] acked_db)) \<and>
   repl_journal (pruneJournal 1000 60000000000 ''ams'' [''ber'', ''cph''] acked_db) = [(example_entry 3, 1000), (example_entry 4, 1000)]"
proof -
  have "(example_entry 3, 1000) \<in> set (repl_journal (pruneJournal 1000 60000000000 ''ams'' [''ber'', ''cph''] acked_db))"
    by (rule prune_keeps_unacknowledged) (auto simp: acked_db_def retained_def example_entry_def)
  moreover have "repl_journal (pruneJournal 1000 60000000000 ''ams'' [''ber'', ''cph''] acked_db) = [(example_entry 3, 1000), (example_entry 4, 1000)]"
    by code_simp
  ultimately show ?thesis by simp
qed

subsection \<open>Following a peer that stands still\<close>

definition own_journal :: "string \<Rightarrow> db \<Rightarrow> journal_entry list" where
  "own_journal peer d = sort_key OriginSeq (origin_entries peer d)"

definition after_seq :: "int \<Rightarrow> journal_entry list \<Rightarrow> journal_entry list" where
  "after_seq a es = filter (\<lambda>e. a < OriginSeq e) es"

lemma filter_after_page:
  fixes f :: "'a \<Rightarrow> 'k :: linorder"
  assumes "sorted_wrt (<) (map f xs)" "0 < n" "xs \<noteq> []"
  shows "filter (\<lambda>x. f (last (take n xs)) < f x) xs = drop n xs"
proof -
  let ?l = "last (take n xs)"
  have l: "?l \<in> set (take n xs)" using assms(2,3) by (intro last_in_set) simp
  have s: "sorted_wrt (\<lambda>x y. f x < f y) (take n xs @ drop n xs)" using assms(1) by (simp add: sorted_wrt_map)
  have "f x \<le> f ?l" if "x \<in> set (take n xs)" for x
  proof -
    have ne: "take n xs \<noteq> []" using assms(2,3) by simp
    have "sorted_wrt (\<lambda>x y. f x < f y) (butlast (take n xs) @ [?l])"
      using s by (simp only: append_butlast_last_id[OF ne] sorted_wrt_append)
    moreover have "x \<in> set (butlast (take n xs)) \<or> x = ?l"
      using that by (metis append_butlast_last_id[OF ne] Un_iff set_append empty_iff list.set(1,2) insert_iff)
    ultimately show ?thesis by (auto simp: sorted_wrt_append)
  qed
  then have "filter (\<lambda>x. f ?l < f x) (take n xs) = []" by (force simp: filter_empty_conv)
  moreover have "filter (\<lambda>x. f ?l < f x) (drop n xs) = drop n xs"
    using s l unfolding sorted_wrt_append filter_id_conv by blast
  ultimately have "filter (\<lambda>x. f ?l < f x) (take n xs @ drop n xs) = drop n xs" by (simp only: filter_append append_Nil)
  then show ?thesis by simp
qed

lemma ReadJournal_page: "ReadJournal peer a journalBatch d = take 200 (after_seq a (own_journal peer d))"
  by (simp add: ReadJournal_def journalBatch_def after_seq_def own_journal_def filter_sort)

lemma own_journal_sorted:
  assumes "distinct (map OriginSeq (origin_entries peer d))"
  shows "sorted_wrt (<) (map OriginSeq (after_seq a (own_journal peer d)))"
proof -
  have "sorted (map OriginSeq (own_journal peer d))" by (simp add: own_journal_def)
  moreover have "distinct (map OriginSeq (own_journal peer d))"
    using assms by (simp add: own_journal_def distinct_map)
  ultimately have "sorted_wrt (<) (map OriginSeq (own_journal peer d))" by (simp add: strict_sorted_iff)
  then show ?thesis unfolding after_seq_def sorted_wrt_map by (rule sorted_wrt_filter)
qed

lemma after_seq_next:
  assumes "distinct (map OriginSeq (origin_entries peer d))" "es = take 200 (after_seq a (own_journal peer d))" "es \<noteq> []"
  shows "after_seq (OriginSeq (last es)) (own_journal peer d) = drop 200 (after_seq a (own_journal peer d))"
    and "a < OriginSeq (last es)"
proof -
  let ?p = "after_seq a (own_journal peer d)"
  have "last es \<in> set ?p" using assms(2,3) last_in_set in_set_takeD by metis
  then show lt: "a < OriginSeq (last es)" by (simp add: after_seq_def)
  have "after_seq (OriginSeq (last es)) (own_journal peer d) = filter (\<lambda>e. OriginSeq (last es) < OriginSeq e) ?p"
    using lt by (auto simp: after_seq_def intro: filter_cong)
  also have "\<dots> = drop 200 ?p"
    unfolding assms(2) using assms(3) by (intro filter_after_page own_journal_sorted assms(1)) (auto simp: assms(2))
  finally show "after_seq (OriginSeq (last es)) (own_journal peer d) = drop 200 ?p" .
qed

lemma in_step_cursors:
  "undecided mp co H (s\<lparr>repl_cursors := c\<rparr>) = undecided mp co H s" "facts_of mp (s\<lparr>repl_cursors := c\<rparr>) = facts_of mp s"
  by (simp_all add: undecided_def rows_ok_def conflicts_ok_def blocks_ok_def conflict_blocked_def tombstones_ok_def
      observed_def row_digests_def conflict_digests_def facts_of_def pointer_of_def register_of_def revoked_hashes_def fun_eq_iff)

lemma setCursor_frame:
  "in_step w (t, st\<lparr>sdb := setCursor now peer origin a d u (sdb st)\<rparr>) = in_step w (t', st)"
  "view w (t, st\<lparr>sdb := setCursor now peer origin a d u (sdb st)\<rparr>) = view w (t', st)"
  by (simp_all add: in_step_def view_def setCursor_def SetCursorTx_def in_step_cursors)

lemma setCursor_reads:
  "AppliedSeq (GetCursor peer peer (setCursor now peer peer a d u s)) = a"
  "u \<noteq> [] \<Longrightarrow> OriginUUID (GetCursor peer peer (setCursor now peer peer a d u s)) = Some u"
  by (auto simp: setCursor_def SetCursorTx_def GetCursor_def uuid_arg_def coalesce_def split: option.splits)

definition answers_from :: "db \<Rightarrow> string \<Rightarrow> string \<Rightarrow> (nat \<Rightarrow> int \<Rightarrow> journal_answer option) \<Rightarrow> bool" where
  "answers_from d peer me journal \<longleftrightarrow>
     (\<forall>n after. \<exists>now_ms. journal n after = Some (fst (handleJournal now_ms peer me peer after journalBatch d)))"

lemma answers_page:
  assumes "answers_from d peer me journal" "peer \<noteq> []" "snd (JournalHead peer d) \<le> a + 1"
  shows "client_Journal peer (journal n a) = JournalPage (take 200 (after_seq a (own_journal peer d))) (fst (JournalHead peer d))"
proof -
  obtain now_ms where "journal n a = Some (fst (handleJournal now_ms peer me peer a journalBatch d))"
    using assms(1) by (auto simp: answers_from_def)
  moreover have "fst (handleJournal now_ms peer me peer a journalBatch d) =
      Answer (take 200 (after_seq a (own_journal peer d))) (fst (JournalHead peer d))"
    using assms(2,3) by (auto simp: handleJournal_def ReadJournal_page Let_def split: prod.splits)
  moreover have "\<not> list_ex (\<lambda>e. OriginSite e \<noteq> peer) (take 200 (after_seq a (own_journal peer d)))"
    by (auto simp: list_ex_iff after_seq_def own_journal_def origin_entries_def dest!: in_set_takeD)
  ultimately show ?thesis by (simp add: client_Journal_def)
qed

lemma check_incarnation_same:
  "OriginUUID (GetCursor peer peer s) \<in> {None, Some u} \<Longrightarrow> check_incarnation now peer peer u s = s"
  by (auto simp: check_incarnation_def)

lemma nothing_after_head:
  assumes "fst (JournalHead peer d) \<le> a"
  shows "after_seq a (own_journal peer d) = []"
proof -
  have "OriginSeq e \<le> fst (JournalHead peer d)" if "e \<in> set (own_journal peer d)" for e
    using that by (auto simp: own_journal_def JournalHead_def Let_def intro!: Max_ge)
  then show ?thesis using assms by (force simp: after_seq_def filter_empty_conv)
qed

lemma catchUp_page:
  assumes "check_incarnation (ENow v) peer peer uuid (sdb s0) = sdb s0" "AppliedSeq (GetCursor peer peer (sdb s0)) = a" "a < head"
    and "client_Journal peer (journal n a) = JournalPage es head" "es \<noteq> []" "ApplyBatch v blobSize peer es ({}, s0) = (None, b, s1)"
    and "s2 = s1\<lparr>sdb := setCursor (ENow v) peer peer (OriginSeq (last es)) (durableThrough (sblobs s1) es (OriginSeq (last es))) uuid (sdb s1)\<rparr>"
  shows "catchUp (Suc fuel) v blobSize peer uuid journal snapshot n head k (touched, s0) =
    catchUp fuel v blobSize peer uuid journal snapshot (Suc n) head (k + length es) (touched \<union> b, s2)"
  using assms by (simp add: Let_def)

lemma catchUp_follows:
  assumes "in_step w st" "answers_from d peer me journal" "peer \<noteq> []" "uuid \<noteq> []"
    and "distinct (map OriginSeq (origin_entries peer d))"
    and "\<forall>e \<in> set (origin_entries peer d). acceptable w v e"
    and "OriginUUID (GetCursor peer peer (sdb (snd st))) \<in> {None, Some uuid}"
    and "a = AppliedSeq (GetCursor peer peer (sdb (snd st)))" "snd (JournalHead peer d) \<le> a + 1"
    and "length (after_seq a (own_journal peer d)) < fuel"
  shows "\<exists>n' t' st'. catchUp fuel v blobSize peer uuid journal snapshot n (fst (JournalHead peer d)) k st = Some (n', None, t', st') \<and>
    in_step w (t', st') \<and>
    view w (t', st') = fold (\<lambda>e. learn (fact_of (mutable_path w) e)) (after_seq a (own_journal peer d)) (view w st) \<and>
    after_seq (AppliedSeq (GetCursor peer peer (sdb st'))) (own_journal peer d) = []"
  using assms
proof (induction fuel arbitrary: st a n k)
  case (Suc fuel)
  let ?P = "after_seq a (own_journal peer d)" and ?head = "fst (JournalHead peer d)"
  obtain touched s0 where st: "st = (touched, s0)" by (cases st)
  have same: "check_incarnation (ENow v) peer peer uuid (sdb s0) = sdb s0"
    using check_incarnation_same[OF Suc.prems(7)] by (simp add: st)
  have page: "client_Journal peer (journal n a) = JournalPage (take 200 ?P) ?head"
    by (rule answers_page[OF Suc.prems(2,3,9)])
  have a: "AppliedSeq (GetCursor peer peer (sdb s0)) = a" using Suc.prems(8) by (simp add: st)
  show ?case
  proof (cases "?head \<le> a \<or> ?P = []")
    case True
    then have "?P = []" using nothing_after_head by blast
    then show ?thesis using Suc.prems(1) page a same by (auto simp: st Let_def in_step_def view_def)
  next
    case False
    let ?es = "take 200 ?P"
    have ne: "?es \<noteq> []" and lt: "a < ?head" using False by simp_all
    have acc: "\<forall>e \<in> set ?es. OriginSite e = peer \<and> acceptable w v e"
      using Suc.prems(6) by (auto simp: after_seq_def own_journal_def origin_entries_def dest!: in_set_takeD)
    have in0: "in_step w ({}, s0)" using Suc.prems(1) by (simp add: st in_step_def view_def)
    obtain b s1 where fold: "fold (take_in v blobSize) ?es ({}, s0) = (b, s1)" by force
    have batch: "ApplyBatch v blobSize peer ?es ({}, s0) = (None, b, s1)"
      using ApplyBatch_take_in[OF in0 acc] fold by simp
    have in1: "in_step w (b, s1)" using stream.inv_fold[OF in0, of ?es v blobSize] acc fold by auto
    have view1: "view w (b, s1) = fold (\<lambda>e. learn (fact_of (mutable_path w) e)) ?es (view w st)"
      using stream.view_fold[OF in0, of ?es v blobSize] acc fold by (simp add: view_def st)
    define s2 where "s2 = s1\<lparr>sdb := setCursor (ENow v) peer peer (OriginSeq (last ?es))
        (durableThrough (sblobs s1) ?es (OriginSeq (last ?es))) uuid (sdb s1)\<rparr>"
    have step: "catchUp (Suc fuel) v blobSize peer uuid journal snapshot n ?head k st =
        catchUp fuel v blobSize peer uuid journal snapshot (Suc n) ?head (k + length ?es) (touched \<union> b, s2)"
      unfolding st by (rule catchUp_page[where a = a and journal = journal and n = n, OF same a lt page ne batch s2_def])
    have shorter: "length (drop 200 ?P) < length ?P" using False by simp
    note nxt = after_seq_next[OF Suc.prems(5) refl ne]
    have len: "length (after_seq (OriginSeq (last ?es)) (own_journal peer d)) < fuel"
      using Suc.prems(10) shorter unfolding nxt(1) by linarith
    have in2: "in_step w (touched \<union> b, s2)" using in1 setCursor_frame(1) unfolding s2_def by blast
    have uuid2: "OriginUUID (GetCursor peer peer (sdb (snd (touched \<union> b, s2)))) \<in> {None, Some uuid}"
      and seq2: "OriginSeq (last ?es) = AppliedSeq (GetCursor peer peer (sdb (snd (touched \<union> b, s2))))"
      using Suc.prems(4) unfolding s2_def by (simp_all add: setCursor_reads)
    have old2: "snd (JournalHead peer d) \<le> OriginSeq (last ?es) + 1" using Suc.prems(9) nxt(2) by linarith
    obtain n' t' st' where rest:
        "catchUp fuel v blobSize peer uuid journal snapshot (Suc n) ?head (k + length ?es) (touched \<union> b, s2) = Some (n', None, t', st')"
        "in_step w (t', st')"
        "view w (t', st') = fold (\<lambda>e. learn (fact_of (mutable_path w) e)) (drop 200 ?P) (view w (touched \<union> b, s2))"
        "after_seq (AppliedSeq (GetCursor peer peer (sdb st'))) (own_journal peer d) = []"
      using Suc.IH[OF in2 Suc.prems(2-6) uuid2 seq2 old2 len, of "Suc n" "k + length ?es"] unfolding nxt(1) by blast
    have "view w (touched \<union> b, s2) = view w (b, s1)" unfolding s2_def by (rule setCursor_frame(2))
    then have "view w (t', st') = fold (\<lambda>e. learn (fact_of (mutable_path w) e)) (drop 200 ?P)
        (fold (\<lambda>e. learn (fact_of (mutable_path w) e)) ?es (view w st))"
      using rest(3) view1 by simp
    then have "view w (t', st') = fold (\<lambda>e. learn (fact_of (mutable_path w) e)) (?es @ drop 200 ?P) (view w st)"
      by (simp only: fold_append comp_apply)
    then show ?thesis using rest(1,2,4) step by simp
  qed
qed simp


definition publishing_db :: db where
  "publishing_db = empty_db\<lparr>repl_journal := [(example_put ''ams'' 5 False CHR ''a'', 0)]\<rparr>"


subsection \<open>Strangers\<close>

text \<open>
  A site imports nothing from a peer it cannot identify.  When the peer does not answer, answers
  under another name or without an identity, or with another identity than the one first seen, the
  cycle returns at once: blobs, projections and every table but the cursors are as before, and no
  cursor moves.
\<close>

theorem strangers_are_not_followed:
  assumes "\<And>status. wire = Some status \<Longrightarrow> SRSite status \<noteq> peer \<or> SRUUID status = [] \<or>
      (\<exists>u. repl_peer_identity (sdb st) peer = Some u \<and> u \<noteq> SRUUID status)"
  shows "\<exists>cursors. pollPeer fuel v blobSize retention peers budget peer wire journal snapshot st =
      Some (st\<lparr>sdb := (sdb st)\<lparr>repl_cursors := cursors\<rparr>\<rparr>) \<and>
    (\<forall>k. map_option AppliedSeq (cursors k) = map_option AppliedSeq (repl_cursors (sdb st) k) \<and>
         map_option DurableSeq (cursors k) = map_option DurableSeq (repl_cursors (sdb st) k))"
proof -
  let ?c = "\<lambda>msg k. map_option (\<lambda>c. if fst k = peer then c\<lparr>LastError := msg\<rparr> else c) (repl_cursors (sdb st) k)"
  have "pollPeer fuel v blobSize retention peers budget peer wire journal snapshot st \<in>
      (\<lambda>msg. Some (st\<lparr>sdb := (sdb st)\<lparr>repl_cursors := ?c msg\<rparr>\<rparr>)) ` UNIV"
    using assms by (cases wire) (fastforce simp: pollPeer_def client_Status_def PinPeerIdentity_def RecordCursorError_def)+
  then obtain msg where "pollPeer fuel v blobSize retention peers budget peer wire journal snapshot st =
      Some (st\<lparr>sdb := (sdb st)\<lparr>repl_cursors := ?c msg\<rparr>\<rparr>)" by blast
  moreover have "map_option AppliedSeq (?c msg k) = map_option AppliedSeq (repl_cursors (sdb st) k) \<and>
      map_option DurableSeq (?c msg k) = map_option DurableSeq (repl_cursors (sdb st) k)" for k
    by (cases "repl_cursors (sdb st) k") simp_all
  ultimately show ?thesis by blast
qed

definition pinned_site :: site_state where
  "pinned_site = \<lparr>sdb = empty_db\<lparr>repl_peer_identity := [''ams'' \<mapsto> ''u1'']\<rparr>, sblobs = {}, sprojected = []\<rparr>"

theorem strangers_are_not_followed_witness:
  "\<exists>cursors. pollPeer 5 example_env (\<lambda>_. 0) 1 [''ams''] 10 ''ams'' (Some (handleStatus ''ams'' ''u2'' publishing_db))
      (\<lambda>_ after. Some (fst (handleJournal 0 ''ams'' ''cph'' ''ams'' after journalBatch publishing_db))) None pinned_site =
    Some (pinned_site\<lparr>sdb := (sdb pinned_site)\<lparr>repl_cursors := cursors\<rparr>\<rparr>)"
proof -
  have "SRSite status \<noteq> ''ams'' \<or> SRUUID status = [] \<or> (\<exists>u. repl_peer_identity (sdb pinned_site) ''ams'' = Some u \<and> u \<noteq> SRUUID status)"
    if "Some (handleStatus ''ams'' ''u2'' publishing_db) = Some status" for status
    using that by (auto simp: handleStatus_def pinned_site_def Let_def)
  from strangers_are_not_followed[OF this] show ?thesis by blast
qed

subsection \<open>Pruning never forces a resync\<close>

definition own_seqs :: "string \<Rightarrow> db \<Rightarrow> int set" where
  "own_seqs site s = OriginSeq ` set (origin_entries site s)"

lemma JournalHead_seqs:
  "JournalHead site s = (if own_seqs site s = {} then (0, 0) else (Max (own_seqs site s), Min (own_seqs site s)))"
  by (simp add: JournalHead_def own_seqs_def Let_def)

lemma own_seqs_finite [simp]: "finite (own_seqs site s)"
  by (simp add: own_seqs_def)

lemma own_seqs_PruneJournal:
  "own_seqs site (PruneJournal site below s) = {q \<in> own_seqs site s. below \<le> q \<or> fst (JournalHead site s) \<le> q}"
proof -
  let ?h = "fst (JournalHead site s)"
  have "set (origin_entries site (PruneJournal site below s)) = {e \<in> set (origin_entries site s). below \<le> OriginSeq e \<or> ?h \<le> OriginSeq e}"
    unfolding origin_entries_def PruneJournal_def by force
  then show ?thesis unfolding own_seqs_def by blast
qed

lemma own_seqs_PruneJournalOlderThan:
  assumes "list_all (\<lambda>(e, created). retained now_ms retention created) (repl_journal s)"
  shows "PruneJournalOlderThan now_ms [] retention s = s"
proof -
  have "filter (\<lambda>(e, created). \<not> (created < now_ms - retention div 1000000000 * 1000 \<and> OriginSeq e < fst (JournalHead (OriginSite e) s))) (repl_journal s) = repl_journal s"
    using assms by (auto simp: filter_id_conv list_all_iff retained_def)
  then show ?thesis by (simp add: PruneJournalOlderThan_def)
qed

text \<open>
  A peer that keeps up is never sent to the snapshot.  While the site's own journal has no gaps and
  nothing in it has outlived the retention, a peer that could resume from the position it acknowledged
  can still resume from it, and from every later one, after pruning.
\<close>

theorem acknowledged_peer_can_resume:
  assumes "own_seqs site s = {lo..hi}" "list_all (\<lambda>(e, created). retained now_ms retention created) (repl_journal s)"
    and "peer \<in> set peers" "repl_cursors s (peer, site) = Some c" "DurableSeq c \<le> after" "site \<noteq> []"
    and "fst (handleJournal now1 site peer site after limit s) \<noteq> Gone"
  shows "fst (handleJournal now2 site peer site after limit (pruneJournal now_ms retention site peers s)) \<noteq> Gone"
proof -
  have resume: "fst (handleJournal n site peer site after limit t) \<noteq> Gone \<longleftrightarrow> snd (JournalHead site t) \<le> after + 1" for n t
    using assms(6) by (auto simp: handleJournal_def Let_def split: prod.splits)
  have old: "snd (JournalHead site s) \<le> after + 1" using assms(7) by (simp add: resume)
  have "snd (JournalHead site (PruneJournal site (m + 1) s)) \<le> after + 1" if m: "MinCursorAcrossPeers site peers s = Some m" for m
  proof (cases "lo \<le> hi")
    case True
    have "m \<le> DurableSeq c" using MinCursor_bounds[OF m assms(3)] unfolding assms(4) by simp
    then have "m \<le> after" using assms(5) by linarith
    have ends: "Max {lo..hi} = hi" "Min {lo..hi} = lo" using True by (auto intro: Max_eqI Min_eqI)
    have all: "own_seqs site (PruneJournal site (m + 1) s) = {q \<in> {lo..hi}. m + 1 \<le> q \<or> hi \<le> q}" (is "_ = ?P")
      using True unfolding own_seqs_PruneJournal JournalHead_seqs assms(1) by (simp add: ends del: Max_le_iff)
    have "hi \<in> ?P" using True by simp
    moreover have "\<exists>q \<in> ?P. q \<le> after + 1"
    proof (cases "m + 1 \<le> lo")
      case True
      then have "lo \<in> ?P" "lo \<le> after + 1" using \<open>lo \<le> hi\<close> old by (simp_all add: JournalHead_seqs assms(1) ends)
      then show ?thesis by blast
    next
      case False
      then have "min (m + 1) hi \<in> ?P" "min (m + 1) hi \<le> after + 1" using \<open>lo \<le> hi\<close> \<open>m \<le> after\<close> by auto
      then show ?thesis by blast
    qed
    moreover have "finite ?P" using all own_seqs_finite by metis
    ultimately have "?P \<noteq> {}" "Min ?P \<le> after + 1" by (blast, meson Min_le order_trans)
    then show ?thesis unfolding JournalHead_seqs all by (simp only: if_False snd_conv)
  next
    case False
    then show ?thesis using old by (simp add: JournalHead_seqs own_seqs_PruneJournal assms(1))
  qed
  moreover have "list_all (\<lambda>(e, created). retained now_ms retention created) (repl_journal (PruneJournal site b s))" for b
    using assms(2) by (auto simp: list_all_iff PruneJournal_def)
  ultimately show ?thesis
    using old assms(2) by (auto simp: resume pruneJournal_def Let_def own_seqs_PruneJournalOlderThan split: option.split)
qed

theorem acknowledged_peer_can_resume_witness:
  "fst (handleJournal 0 ''ams'' ''ber'' ''ams'' 2 200 (pruneJournal 1000 60000000000 ''ams'' [''ber'', ''cph''] acked_db)) \<noteq> Gone"
proof (rule acknowledged_peer_can_resume)
  show "own_seqs ''ams'' acked_db = {1..4}"
    by (auto simp: own_seqs_def origin_entries_def acked_db_def example_entry_def example_put_def)
qed (auto simp: acked_db_def retained_def handleJournal_def Let_def JournalHead_def origin_entries_def example_entry_def example_put_def split: prod.splits)

subsection \<open>The durable position\<close>

definition example_revoke :: journal_entry where
  "example_revoke = (example_put ''ams'' 6 False CHR ''a'')\<lparr>OriginSeq := 2, EKind := KindTokenRevoke,
     Payload := zero_payload\<lparr>j_hash := replicate 64 CHR ''c''\<rparr>\<rparr>"


end
