(* ===== verification/Repl_Snapshot.thy ===== *)
theory Repl_Snapshot
  imports Repl_Manager
begin

text \<open>
  Bootstrapping, the round trip of \<^verbatim>\<open>handleSnapshot\<close> and \<^verbatim>\<open>bootstrap\<close>: a blank site that imports
  the snapshot of a peer serves what the peer serves, withholds what it withholds and refuses the
  tokens it refuses.
\<close>

subsection \<open>Listings\<close>

lemma listing_distinct: "distinct (map fst (listing m))"
  by (simp add: listing_def comp_def)

lemma listing_entries: "finite (dom m) \<Longrightarrow> set (listing m) = {(k, x). m k = Some x}"
  by (force simp: listing_def)

subsection \<open>The tables one by one\<close>

text \<open>Decisions: a key not yet decided takes the state the record carries.\<close>

lemma apply_record_fresh:
  assumes "quarantine s (f, co, r) = None" "f \<noteq> []" "co \<noteq> []" "r \<noteq> []"
  shows "\<exists>q'. apply_record ((f, co, r), q) s =
      (if r = conflict_reason then s else s\<lparr>quarantine := (quarantine s)((f, co, r) \<mapsto> q')\<rparr>) \<and> QReleased q' = QReleased q"
  using assms
  by (auto simp: apply_record_def conflict_reason_def ApplyQuarantineDecisionTx_def quarantineTx_def releaseQuarantineTx_def)

lemma apply_records:
  assumes "distinct (map fst xs)" "\<forall>(k, q) \<in> set xs. quarantine s k = None \<and> fst k \<noteq> [] \<and> fst (snd k) \<noteq> [] \<and> snd (snd k) \<noteq> []"
  shows "\<exists>m. fold apply_record xs s = s\<lparr>quarantine := m\<rparr> \<and>
    (\<forall>k. withheld (s\<lparr>quarantine := m\<rparr>) k \<longleftrightarrow> withheld s k \<or> snd (snd k) \<noteq> conflict_reason \<and> (\<exists>q. (k, q) \<in> set xs \<and> \<not> QReleased q)) \<and>
    (\<forall>k. snd (snd k) = conflict_reason \<longrightarrow> m k = quarantine s k)"
  using assms
proof (induction xs arbitrary: s)
  case Nil
  have "s\<lparr>quarantine := quarantine s\<rparr> = s" by simp
  then show ?case by (intro exI[of _ "quarantine s"]) simp
next
  case (Cons x xs)
  obtain f co r q where x: "x = ((f, co, r), q)" by (metis surj_pair)
  obtain q' where q': "apply_record x s = (if r = conflict_reason then s else s\<lparr>quarantine := (quarantine s)((f, co, r) \<mapsto> q')\<rparr>)"
      "QReleased q' = QReleased q"
    using apply_record_fresh[of s f co r q] Cons.prems(2) x by auto
  let ?s = "apply_record x s"
  have "\<forall>(k, q) \<in> set xs. quarantine ?s k = None \<and> fst k \<noteq> [] \<and> fst (snd k) \<noteq> [] \<and> snd (snd k) \<noteq> []"
    using Cons.prems x q' by (force simp: image_iff)
  from Cons.IH[OF _ this] Cons.prems(1) obtain m where m: "fold apply_record xs ?s = ?s\<lparr>quarantine := m\<rparr>"
      "\<And>k. withheld (?s\<lparr>quarantine := m\<rparr>) k \<longleftrightarrow> withheld ?s k \<or> snd (snd k) \<noteq> conflict_reason \<and> (\<exists>q. (k, q) \<in> set xs \<and> \<not> QReleased q)"
      "\<And>k. snd (snd k) = conflict_reason \<Longrightarrow> m k = quarantine ?s k"
    by auto
  have here: "withheld ?s k \<longleftrightarrow> withheld s k \<or> snd (snd k) \<noteq> conflict_reason \<and> (k, q) = x \<and> \<not> QReleased q" for k
    using Cons.prems(2) x q' by (auto simp: withheld_def)
  have "?s\<lparr>quarantine := m\<rparr> = s\<lparr>quarantine := m\<rparr>" using q' by simp
  moreover have "withheld (s\<lparr>quarantine := m\<rparr>) k = withheld (?s\<lparr>quarantine := m\<rparr>) k" for k by (simp add: withheld_def)
  moreover have "m k = quarantine s k" if "snd (snd k) = conflict_reason" for k using m(3)[OF that] that q' by auto
  ultimately show ?case using m(1,2) here x by (intro exI[of _ m]) auto
qed

text \<open>Open conflicts: every one is recorded and withholds its coordinate.\<close>

definition conflict_id :: "conflict_row \<Rightarrow> string \<times> string \<times> string \<times> string" where
  "conflict_id c = (CFeed c, CPath c, SSHA256 (CWinner c), SSHA256 (CLoser c))"

definition importable :: "conflict_row \<Rightarrow> bool" where
  "importable c \<longleftrightarrow> CFeed c \<noteq> [] \<and> CPath c \<noteq> [] \<and> length (SSHA256 (CWinner c)) = 64 \<and> length (SSHA256 (CLoser c)) = 64"

lemma sync_withheld:
  assumes "open_conflicts f co s > 0"
  shows "\<exists>m. syncConflictQuarantineTx f co s = s\<lparr>quarantine := m\<rparr> \<and>
    (\<forall>k. withheld (s\<lparr>quarantine := m\<rparr>) k \<longleftrightarrow> withheld s k \<or> k = (f, co, conflict_reason))"
proof -
  have "syncConflictQuarantineTx f co s = s\<lparr>quarantine := quarantine (syncConflictQuarantineTx f co s)\<rparr>"
    using assms by (simp add: syncConflictQuarantineTx_def Let_def)
  moreover have "withheld (syncConflictQuarantineTx f co s) k \<longleftrightarrow> withheld s k \<or> k = (f, co, conflict_reason)" for k
    using assms by (auto simp: syncConflictQuarantineTx_def Let_def withheld_def split: option.split)
  ultimately show ?thesis by metis
qed

lemma import_open_conflict_fresh:
  assumes "importable c" "conflict_id c \<notin> conflict_id ` set (publish_conflicts s)"
  shows "\<exists>m. import_open_conflict c s =
      s\<lparr>publish_conflicts := publish_conflicts s @ [c\<lparr>CResolved := None\<rparr>], quarantine := m\<rparr> \<and>
    (\<forall>k. withheld (s\<lparr>quarantine := m\<rparr>) k \<longleftrightarrow> withheld s k \<or> k = (CFeed c, CCoordinate c, conflict_reason))"
proof -
  let ?s = "s\<lparr>publish_conflicts := publish_conflicts s @ [c\<lparr>CResolved := None\<rparr>]\<rparr>"
  have "import_open_conflict c s = syncConflictQuarantineTx (CFeed c) (CCoordinate c) ?s"
    using assms by (force simp: import_open_conflict_def importable_def importConflictTx_def conflict_id_def list_ex_iff image_iff)
  moreover have "open_conflicts (CFeed c) (CCoordinate c) ?s > 0" by (simp add: open_conflicts_def)
  ultimately show ?thesis using sync_withheld[of "CFeed c" "CCoordinate c" ?s] by (simp add: withheld_def)
qed

lemma import_open_conflicts:
  assumes "distinct (map conflict_id cs)" "list_all importable cs" "conflict_id ` set cs \<inter> conflict_id ` set (publish_conflicts s) = {}"
  shows "\<exists>m pc. fold import_open_conflict cs s = s\<lparr>publish_conflicts := pc, quarantine := m\<rparr> \<and>
    (\<forall>k. withheld (s\<lparr>quarantine := m\<rparr>) k \<longleftrightarrow> withheld s k \<or> (\<exists>c \<in> set cs. k = (CFeed c, CCoordinate c, conflict_reason)))"
  using assms
proof (induction cs arbitrary: s)
  case Nil
  have "s\<lparr>publish_conflicts := publish_conflicts s, quarantine := quarantine s\<rparr> = s" by simp
  then show ?case by (intro exI[of _ "quarantine s"] exI[of _ "publish_conflicts s"]) simp
next
  case (Cons c cs)
  obtain m where m: "import_open_conflict c s =
      s\<lparr>publish_conflicts := publish_conflicts s @ [c\<lparr>CResolved := None\<rparr>], quarantine := m\<rparr>"
      "\<And>k. withheld (s\<lparr>quarantine := m\<rparr>) k \<longleftrightarrow> withheld s k \<or> k = (CFeed c, CCoordinate c, conflict_reason)"
    using import_open_conflict_fresh[of c s] Cons.prems(2,3) by auto
  let ?s = "import_open_conflict c s"
  have "conflict_id ` set cs \<inter> conflict_id ` set (publish_conflicts ?s) = {}"
    using Cons.prems(1,3) m(1) by (auto simp: conflict_id_def)
  then obtain m' pc where m': "fold import_open_conflict cs ?s = ?s\<lparr>publish_conflicts := pc, quarantine := m'\<rparr>"
      "\<And>k. withheld (?s\<lparr>quarantine := m'\<rparr>) k \<longleftrightarrow> withheld ?s k \<or> (\<exists>c \<in> set cs. k = (CFeed c, CCoordinate c, conflict_reason))"
    using Cons.IH[of ?s] Cons.prems(1,2) by auto
  have "withheld (s\<lparr>quarantine := m'\<rparr>) k = withheld (?s\<lparr>quarantine := m'\<rparr>) k" "withheld ?s k = withheld (s\<lparr>quarantine := m\<rparr>) k" for k
    by (simp_all add: withheld_def m(1))
  then show ?case using m' m by (intro exI[of _ m'] exI[of _ pc]) auto
qed

text \<open>Revocations.\<close>

lemma import_revocations_all:
  assumes "tombstones_ok H s" "set hs \<subseteq> H" "inj_on (take 16) H" "\<forall>h \<in> set hs. length h = 64"
  shows "\<exists>ts. import_revocations hs s = Some (s\<lparr>tokens := ts\<rparr>) \<and> revoked_hashes (s\<lparr>tokens := ts\<rparr>) = set hs \<union> revoked_hashes s"
  using assms(1,2,4)
proof (induction hs arbitrary: s)
  case Nil
  have "s\<lparr>tokens := tokens s\<rparr> = s" by simp
  then show ?case by (intro exI[of _ "tokens s"]) simp
next
  case (Cons h hs)
  obtain ts where ts: "revoke_hash h s = Some (s\<lparr>tokens := ts\<rparr>)" "tombstones_ok H (s\<lparr>tokens := ts\<rparr>)"
      "revoked_hashes (s\<lparr>tokens := ts\<rparr>) = insert h (revoked_hashes s)"
    using revoke_hash_tokens[OF Cons.prems(1) _ assms(3), of h] Cons.prems(2) by auto
  then show ?case using Cons.IH[OF ts(2)] Cons.prems(2,3) by auto
qed

text \<open>Manifests: a path not yet hosted takes the row the snapshot carries.\<close>

lemma insertHosted_fresh:
  "hosted_manifests s (Feed p, MPath p) = None \<Longrightarrow>
   \<exists>r. insertHosted p e s = s\<lparr>hosted_manifests := (hosted_manifests s)((Feed p, MPath p) \<mapsto> r)\<rparr> \<and> HSHA256 r = SHA256 p"
  by (simp add: insertHosted_def) (metis hosted_row.select_convs(2))

lemma import_manifests_fresh:
  assumes "distinct (map (\<lambda>p. (Feed p, MPath p)) ps)"
    and "\<forall>p \<in> set ps. hosted_manifests (sdb st) (Feed p, MPath p) = None \<and> Feed p \<noteq> [] \<and> MPath p \<noteq> [] \<and> length (SHA256 p) = 64"
    and "\<forall>k. conflict_resolutions (sdb st) k = None"
  shows "\<exists>t' st' rows. import_manifests v blobSize peer snap ps (touched, st) = (None, t', st') \<and>
    sdb st' = (sdb st)\<lparr>hosted_manifests := rows\<rparr> \<and>
    (\<forall>k. map_option HSHA256 (rows k) =
       (case map_of (map (\<lambda>p. ((Feed p, MPath p), SHA256 p)) ps) k of None \<Rightarrow> map_option HSHA256 (hosted_manifests (sdb st) k) | Some d \<Rightarrow> Some d))"
  using assms
proof (induction ps arbitrary: touched st)
  case Nil
  then show ?case by (intro exI[of _ touched] exI[of _ st] exI[of _ "hosted_manifests (sdb st)"]) simp
next
  case (Cons p ps)
  let ?e = "snapshot_entry snap p"
  define blobs where "blobs = (case prefetchBlob v peer ?e (sblobs st) of Inl _ \<Rightarrow> sblobs st | Inr b \<Rightarrow> b)"
  define st1 where "st1 = flushProjections v [side_write p (incoming_side p) ?e] (st\<lparr>sdb := insertHosted p ?e (sdb st), sblobs := blobs\<rparr>)"
  have "dispatch (v\<lparr>EEager := (\<lambda>_. False)\<rparr>) blobSize peer ?e blobs (sdb st, touched, []) =
      Inr ((insertHosted p ?e (sdb st), insert (Feed p) touched, [side_write p (incoming_side p) ?e]), blobs)"
    using Cons.prems(2,3)
    by (simp add: dispatch_def snapshot_entry_def applyManifestPut_def storedResolution_def hostedState_def Let_def)
  then have step: "import_manifests v blobSize peer snap (p # ps) (touched, st) =
      import_manifests v blobSize peer snap ps (insert (Feed p) touched, st1)"
    by (simp add: importSnapshotEntry_def Let_def blobs_def[symmetric] st1_def)
  obtain r where s1: "sdb st1 = (sdb st)\<lparr>hosted_manifests := (hosted_manifests (sdb st))((Feed p, MPath p) \<mapsto> r)\<rparr>" "HSHA256 r = SHA256 p"
    using insertHosted_fresh[of "sdb st" p ?e] Cons.prems(2) by (auto simp: st1_def)
  have "\<forall>q \<in> set ps. hosted_manifests (sdb st1) (Feed q, MPath q) = None \<and> Feed q \<noteq> [] \<and> MPath q \<noteq> [] \<and> length (SHA256 q) = 64"
    using Cons.prems(1,2) s1(1) by (force simp: image_iff)
  then obtain t' st' rows where rest: "import_manifests v blobSize peer snap ps (insert (Feed p) touched, st1) = (None, t', st')"
      "sdb st' = (sdb st1)\<lparr>hosted_manifests := rows\<rparr>"
      "\<And>k. map_option HSHA256 (rows k) =
       (case map_of (map (\<lambda>p. ((Feed p, MPath p), SHA256 p)) ps) k of None \<Rightarrow> map_option HSHA256 (hosted_manifests (sdb st1) k) | Some d \<Rightarrow> Some d)"
    using Cons.IH[of st1 "insert (Feed p) touched"] Cons.prems(1,3) s1(1) by auto
  have "map_of (map (\<lambda>p. ((Feed p, MPath p), SHA256 p)) ps) (Feed p, MPath p) = None"
    using Cons.prems(1) by (auto simp: map_of_eq_None_iff image_iff)
  then have "map_option HSHA256 (rows k) = (case map_of (map (\<lambda>p. ((Feed p, MPath p), SHA256 p)) (p # ps)) k of
      None \<Rightarrow> map_option HSHA256 (hosted_manifests (sdb st) k) | Some d \<Rightarrow> Some d)" for k
    using s1(2) unfolding rest(3) s1(1) by (cases "k = (Feed p, MPath p)") (simp_all split: option.split)
  then show ?case unfolding step using rest(1,2) s1(1) by (intro exI[of _ t'] exI[of _ st'] exI[of _ rows]) simp
qed

subsection \<open>The round trip\<close>

text \<open>
  A store as the site's own operations leave it, without operator resolutions: keys and digests are
  filled in, a path has one open conflict per pair of digests, and a coordinate is withheld for a
  conflict exactly when it has an open one.
\<close>

definition snapshot_ready :: "db \<Rightarrow> bool" where
  "snapshot_ready d \<longleftrightarrow>
     finite (dom (hosted_manifests d)) \<and> finite (dom (quarantine d)) \<and> (\<forall>k. conflict_resolutions d k = None) \<and>
     (\<forall>k r. hosted_manifests d k = Some r \<longrightarrow> fst k \<noteq> [] \<and> snd k \<noteq> [] \<and> length (HSHA256 r) = 64) \<and>
     (\<forall>k \<in> dom (quarantine d). fst k \<noteq> [] \<and> fst (snd k) \<noteq> [] \<and> snd (snd k) \<noteq> []) \<and>
     distinct (map conflict_id (publish_conflicts d)) \<and> list_all importable (publish_conflicts d) \<and>
     (\<forall>f co. conflict_blocked f co d \<longleftrightarrow> (\<exists>c \<in> set (publish_conflicts d). CResolved c = None \<and> CFeed c = f \<and> CCoordinate c = co)) \<and>
     (\<forall>h \<in> revoked_hashes d. length h = 64) \<and> inj_on (take 16) (revoked_hashes d)"

definition blank :: "db \<Rightarrow> bool" where
  "blank s \<longleftrightarrow> (\<forall>k. hosted_manifests s k = None) \<and> (\<forall>k. quarantine s k = None) \<and> publish_conflicts s = [] \<and>
     tokens s = [] \<and> (\<forall>k. conflict_resolutions s k = None)"

lemma revoked_listed: "set (SnRevoked (handleSnapshot site uuid d)) = revoked_hashes d"
  by (auto simp: handleSnapshot_def revoked_hashes_def)

lemma snapshot_restrictions:
  assumes "snapshot_ready d" "blank s"
  shows "\<exists>m pc ts. applySnapshotRestrictions peer (handleSnapshot site uuid d) s =
      Some (s\<lparr>quarantine := m, publish_conflicts := pc, tokens := ts\<rparr>) \<and>
    withheld (s\<lparr>quarantine := m\<rparr>) = withheld d \<and> revoked_hashes (s\<lparr>tokens := ts\<rparr>) = revoked_hashes d"
proof -
  let ?snap = "handleSnapshot site uuid d" and ?qs = "listing (quarantine d)"
  let ?cs = "sort_key (\<lambda>c. (CFeed c, CPath c)) (filter (\<lambda>c. CResolved c = None) (publish_conflicts d))"
  have qs: "set ?qs = {(k, q). quarantine d k = Some q}" using assms(1) by (intro listing_entries) (simp add: snapshot_ready_def)
  have "\<forall>(k, q) \<in> set ?qs. quarantine s k = None \<and> fst k \<noteq> [] \<and> fst (snd k) \<noteq> [] \<and> snd (snd k) \<noteq> []"
  proof (intro ballI case_prodI2 impI)
    fix x k q assume "x \<in> set ?qs" "x = (k, q)"
    then have "k \<in> dom (quarantine d)" using qs by auto
    moreover have "\<forall>k \<in> dom (quarantine d). fst k \<noteq> [] \<and> fst (snd k) \<noteq> [] \<and> snd (snd k) \<noteq> []"
      using assms(1) unfolding snapshot_ready_def by (elim conjE)
    ultimately show "quarantine s k = None \<and> fst k \<noteq> [] \<and> fst (snd k) \<noteq> [] \<and> snd (snd k) \<noteq> []"
      using assms(2) unfolding blank_def by blast
  qed
  from apply_records[OF listing_distinct this] obtain m where m: "fold apply_record ?qs s = s\<lparr>quarantine := m\<rparr>"
      "\<And>k. withheld (s\<lparr>quarantine := m\<rparr>) k \<longleftrightarrow> withheld s k \<or> snd (snd k) \<noteq> conflict_reason \<and> (\<exists>q. (k, q) \<in> set ?qs \<and> \<not> QReleased q)"
    by auto
  have "distinct (map conflict_id ?cs)" "list_all importable ?cs"
    using assms(1) by (auto simp: snapshot_ready_def distinct_map list_all_iff intro: inj_on_subset)
  then obtain m' pc where m': "fold import_open_conflict ?cs (s\<lparr>quarantine := m\<rparr>) = s\<lparr>publish_conflicts := pc, quarantine := m'\<rparr>"
      "\<And>k. withheld (s\<lparr>quarantine := m'\<rparr>) k \<longleftrightarrow>
        withheld (s\<lparr>quarantine := m\<rparr>) k \<or> (\<exists>c \<in> set ?cs. k = (CFeed c, CCoordinate c, conflict_reason))"
    using import_open_conflicts[of ?cs "s\<lparr>quarantine := m\<rparr>"] assms(2) by (auto simp: blank_def)
  let ?s = "s\<lparr>publish_conflicts := pc, quarantine := m'\<rparr>"
  have "tombstones_ok (revoked_hashes d) ?s" using assms(2) by (simp add: blank_def tombstones_ok_def)
  then obtain ts where ts: "import_revocations (SnRevoked ?snap) ?s = Some (?s\<lparr>tokens := ts\<rparr>)"
      "revoked_hashes (?s\<lparr>tokens := ts\<rparr>) = revoked_hashes d \<union> revoked_hashes ?s"
    using import_revocations_all[of "revoked_hashes d" ?s "SnRevoked ?snap"] assms(1) revoked_listed
    by (auto simp: snapshot_ready_def)
  have "conflict_resolutions d = (\<lambda>_. None)" using assms(1) unfolding snapshot_ready_def by (auto simp: fun_eq_iff)
  then have none: "listing (conflict_resolutions d) = []" by (simp add: listing_def)
  have blocked: "conflict_blocked f co d \<longleftrightarrow> (\<exists>c \<in> set ?cs. (f, co) = (CFeed c, CCoordinate c))" for f co
    using assms(1) unfolding snapshot_ready_def by auto
  have "\<not> withheld s k" for k using assms(2) unfolding blank_def withheld_def by (cases k) simp
  then have w: "withheld (s\<lparr>quarantine := m'\<rparr>) k \<longleftrightarrow> snd (snd k) \<noteq> conflict_reason \<and> (\<exists>q. quarantine d k = Some q \<and> \<not> QReleased q) \<or>
      (\<exists>c \<in> set ?cs. k = (CFeed c, CCoordinate c, conflict_reason))" for k
    unfolding m'(2) m(2) qs by blast
  have "withheld (s\<lparr>quarantine := m'\<rparr>) (f, co, r) = withheld d (f, co, r)" for f co r
  proof (cases "r = conflict_reason")
    case True
    have "withheld d (f, co, r) = conflict_blocked f co d" by (simp add: withheld_def conflict_blocked_def True)
    then show ?thesis unfolding w blocked True by auto
  next
    case False
    then show ?thesis unfolding w by (auto simp: withheld_def split: option.split)
  qed
  moreover have "revoked_hashes (s\<lparr>tokens := ts\<rparr>) = revoked_hashes d"
    using ts(2) assms(2) by (simp add: revoked_hashes_def blank_def)
  moreover have "applySnapshotRestrictions peer ?snap s = Some (s\<lparr>quarantine := m', publish_conflicts := pc, tokens := ts\<rparr>)"
    using ts(1) m(1) m'(1) none by (simp add: applySnapshotRestrictions_def) (simp add: handleSnapshot_def)
  ultimately show ?thesis by (intro exI[of _ m'] exI[of _ pc] exI[of _ ts]) (auto simp: fun_eq_iff)
qed

lemma snapshot_manifests:
  assumes "snapshot_ready d" and ps_def: "ps = SnManifests (handleSnapshot site uuid d)"
  shows "distinct (map (\<lambda>p. (Feed p, MPath p)) ps)"
    and "p \<in> set ps \<Longrightarrow> Feed p \<noteq> [] \<and> MPath p \<noteq> [] \<and> length (SHA256 p) = 64"
    and "map_of (map (\<lambda>p. ((Feed p, MPath p), SHA256 p)) ps) k = served d k"
proof -
  let ?rows = "listing (hosted_manifests d)"
  have rows: "set ?rows = {(k, r). hosted_manifests d k = Some r}"
    using assms(1) by (intro listing_entries) (simp add: snapshot_ready_def)
  have ps: "ps = map manifest_of_row ?rows" by (simp add: ps_def handleSnapshot_def)
  have keys: "map (\<lambda>p. ((Feed p, MPath p), SHA256 p)) ps = map (\<lambda>(k, r). (k, HSHA256 r)) ?rows"
    by (auto simp: ps manifest_of_row_def)
  have "map (\<lambda>p. (Feed p, MPath p)) ps = map fst ?rows" by (auto simp: ps manifest_of_row_def)
  then show "distinct (map (\<lambda>p. (Feed p, MPath p)) ps)" by (simp only: listing_distinct)
  show "Feed p \<noteq> [] \<and> MPath p \<noteq> [] \<and> length (SHA256 p) = 64" if "p \<in> set ps"
    using that assms(1) rows unfolding ps by (fastforce simp: manifest_of_row_def snapshot_ready_def)
  have "map_of ?rows k = hosted_manifests d k"
  proof (cases "hosted_manifests d k")
    case None
    then show ?thesis using rows by (auto simp: map_of_eq_None_iff)
  next
    case (Some r)
    then show ?thesis using rows by (simp add: map_of_eq_Some_iff[OF listing_distinct])
  qed
  then show "map_of (map (\<lambda>p. ((Feed p, MPath p), SHA256 p)) ps) k = served d k"
    unfolding keys served_def by (simp add: map_of_map comp_def)
qed


definition copied_db :: db where
  "copied_db = empty_db\<lparr>
     hosted_manifests := [(''npm'', ''p'') \<mapsto>
       \<lparr>HCoordinate = ''p@1'', HSHA256 = replicate 64 CHR ''a'', HSize = 1, HChecksums = [], HMetadata = [], HMutable = False,
        HOrigin = ''local'', HSite = ''ams'', HPublishedBy = ''ci''\<rparr>],
     quarantine := [(''npm'', ''p@1'', ''malware'') \<mapsto> \<lparr>QDetail = [], QReleased = False, QHLC = HLC 3 0\<rparr>],
     tokens := [\<lparr>TName = ''ci'', THash = replicate 64 CHR ''c'', TRevoked = True\<rparr>]\<rparr>"


end
