(* ===== verification/Garbage_Collection.thy ===== *)
theory Garbage_Collection
  imports Pipeline_Serving Repl_Snapshot
begin

text \<open>
  The garbage collector, \<^verbatim>\<open>src/cmd/fondaco/gc.go\<close>: digests are marked from the database and from every
  manifest in the store, then old blobs without a mark and old staged uploads are removed.  Marking and
  sweeping are separate steps, as requests are served between them.  The digest a manifest's JSON
  names is an argument, as is what the operating system does to the n-th operation.
\<close>

subsection \<open>Marking\<close>

definition gc_manifestDigest :: "(string \<Rightarrow> string option) \<Rightarrow> os \<Rightarrow> fs \<Rightarrow> string \<Rightarrow> string option" where
  "gc_manifestDigest parseManifestSHA io s key =
     (case store_Get io key s of
        Inl SNotFound \<Rightarrow> Some []
      | Inl _ \<Rightarrow> None
      | Inr (raw, _) \<Rightarrow> parseManifestSHA raw)"

primrec mark_manifests :: "(string \<Rightarrow> string option) \<Rightarrow> (nat \<Rightarrow> os) \<Rightarrow> fs \<Rightarrow> string list \<Rightarrow> string list \<Rightarrow> string list option" where
  "mark_manifests parse io s [] marked = Some marked"
| "mark_manifests parse io s (key # keys) marked =
     (case gc_manifestDigest parse (io (length keys)) s key of
        None \<Rightarrow> None
      | Some sha \<Rightarrow> mark_manifests parse io s keys (if sha = [] then marked else sha # marked))"

definition mark_database :: "db \<Rightarrow> string list" where
  "mark_database d =
     map (\<lambda>(_, row). HSHA256 row) (listing (hosted_manifests d)) @
     concat (map (\<lambda>c. [side_meta.SSHA256 (CWinner c), side_meta.SSHA256 (CLoser c)]) (filter (\<lambda>c. CResolved c = None) (publish_conflicts d)))"

definition gc_mark :: "(string \<Rightarrow> string option) \<Rightarrow> (nat \<Rightarrow> os) \<Rightarrow> string list \<Rightarrow> fs \<Rightarrow> string list option" where
  "gc_mark parse io marked s = mark_manifests parse io s (store_List ''manifests/'' s) marked"

subsection \<open>Sweeping\<close>

definition key_digest :: "string \<Rightarrow> string" where
  "key_digest key = last (split_on (CHR ''/'') key)"

definition modified :: "string \<Rightarrow> fs \<Rightarrow> int" where
  "modified key s = (case map_of (Data s) key of None \<Rightarrow> 0 | Some (_, t) \<Rightarrow> t)"

text \<open>The keys a sweep removes; a failure other than a missing blob ends it.\<close>

primrec delete_keys :: "(nat \<Rightarrow> os) \<Rightarrow> string list \<Rightarrow> fs \<Rightarrow> bool \<times> fs" where
  "delete_keys io [] s = (True, s)"
| "delete_keys io (key # keys) s =
     (case store_Delete (io (length keys)) key s of
        (Inr _, s) \<Rightarrow> delete_keys io keys s
      | (Inl SNotFound, s) \<Rightarrow> delete_keys io keys s
      | (Inl _, s) \<Rightarrow> (False, s))"

definition garbage :: "string list \<Rightarrow> int \<Rightarrow> fs \<Rightarrow> string list" where
  "garbage marked cutoff s =
     filter (\<lambda>key. key_digest key \<notin> set marked \<and> \<not> modified key s > cutoff) (store_List ''blobs/sha256/'' s)"

definition StagingPrefix :: string where "StagingPrefix = ''uploads/''"

definition sweepStaging :: "(nat \<Rightarrow> os) \<Rightarrow> bool \<Rightarrow> int \<Rightarrow> fs \<Rightarrow> bool \<times> fs" where
  "sweepStaging io doDelete cutoff s =
     (if doDelete then delete_keys io (filter (\<lambda>key. \<not> modified key s > cutoff) (store_List StagingPrefix s)) s else (True, s))"

definition gc_sweep :: "(nat \<Rightarrow> os) \<Rightarrow> (nat \<Rightarrow> os) \<Rightarrow> bool \<Rightarrow> int \<Rightarrow> string list \<Rightarrow> fs \<Rightarrow> bool \<times> fs" where
  "gc_sweep io io' doDelete cutoff marked s =
     (case (if doDelete then delete_keys io (garbage marked cutoff s) s else (True, s)) of
        (False, s) \<Rightarrow> (False, s)
      | (True, s) \<Rightarrow> sweepStaging io' doDelete cutoff s)"

text \<open>A run, with the marks from the database: what happens to the store between marking and sweeping is the argument.\<close>

definition gc_run ::
  "(string \<Rightarrow> string option) \<Rightarrow> (nat \<Rightarrow> nat \<Rightarrow> os) \<Rightarrow> string list \<Rightarrow> bool \<Rightarrow> int \<Rightarrow> (fs \<Rightarrow> fs) \<Rightarrow> fs \<Rightarrow> bool \<times> fs" where
  "gc_run parse io marked doDelete cutoff between s =
     (case gc_mark parse (io 0) marked s of
        None \<Rightarrow> (False, s)
      | Some marked \<Rightarrow> gc_sweep (io 1) (io 2) doDelete cutoff marked (between s))"

text \<open>A site that is behind does not sweep.\<close>

definition replicationBehind :: "string list \<Rightarrow> db \<Rightarrow> bool" where
  "replicationBehind peers d \<longleftrightarrow>
     repl_parked d \<noteq> [] \<or>
     list_ex (\<lambda>(_, c). LastError c \<noteq> [] \<or> AppliedSeq c > DurableSeq c) (listing (repl_cursors d)) \<or>
     list_ex (\<lambda>p. p \<notin> set (map (\<lambda>((peer, _), _). peer) (listing (repl_cursors d)))) peers"

definition gcCmd ::
  "(string \<Rightarrow> string option) \<Rightarrow> (nat \<Rightarrow> nat \<Rightarrow> os) \<Rightarrow> db option \<Rightarrow> string list \<Rightarrow> bool \<Rightarrow> bool \<Rightarrow> bool \<Rightarrow> int \<Rightarrow> (fs \<Rightarrow> fs) \<Rightarrow> fs \<Rightarrow> bool \<times> fs" where
  "gcCmd parse io d peers replicating ignoreLag doDelete cutoff between s =
     (case d of
        None \<Rightarrow> gc_run parse io [] doDelete cutoff between s
      | Some db \<Rightarrow>
          if replicating \<and> \<not> ignoreLag \<and> replicationBehind peers db then (False, s)
          else gc_run parse io (mark_database db) doDelete cutoff between s)"

subsection \<open>What is kept\<close>

lemma store_Delete_content:
  "store_Delete io key s = (r, s') \<Longrightarrow> content_at k s' = (if r = Inr () \<and> k = key then None else content_at k s)"
  by (auto simp: store_Delete_def content_at_def split: if_splits option.splits)

lemma delete_keys_content: "k \<notin> set keys \<Longrightarrow> content_at k (snd (delete_keys io keys s)) = content_at k s"
proof (induction keys arbitrary: s)
  case Nil
  then show ?case by simp
next
  case (Cons key keys)
  obtain r s1 where d: "store_Delete (io (length keys)) key s = (r, s1)" by fastforce
  then have "content_at k s1 = content_at k s" using store_Delete_content [OF d] Cons.prems by simp
  then show ?case using d Cons by (auto split: sum.splits store_error.splits)
qed

lemma mark_manifests_marks:
  assumes "mark_manifests parse io s keys marked = Some out"
  shows "set marked \<subseteq> set out"
    and "key \<in> set keys \<Longrightarrow> content_at key s = Some raw \<Longrightarrow> parse raw = Some d \<Longrightarrow> d \<noteq> [] \<Longrightarrow> d \<in> set out"
proof -
  have "set marked \<subseteq> set out \<and> (\<forall>key raw d. key \<in> set keys \<and> content_at key s = Some raw \<and> parse raw = Some d \<and> d \<noteq> [] \<longrightarrow> d \<in> set out)"
    using assms
  proof (induction keys arbitrary: marked)
    case Nil
    then show ?case by simp
  next
    case (Cons k keys)
    obtain dg where dg: "gc_manifestDigest parse (io (length keys)) s k = Some dg"
      and rest: "mark_manifests parse io s keys (if dg = [] then marked else dg # marked) = Some out"
      using Cons.prems by (auto split: option.splits)
    have "dg = d" if "content_at k s = Some raw" "parse raw = Some d" for raw d
    proof -
      have "\<exists>info. store_Get (io (length keys)) k s = Inr (raw, info)"
      proof (cases "store_Get (io (length keys)) k s")
        case (Inl e)
        then have "e = SNotFound" using dg by (cases e) (auto simp: gc_manifestDigest_def)
        with Inl store_Get_notfound that(1) show ?thesis by fastforce
      next
        case (Inr x)
        with store_Get_content [of "io (length keys)" k s] that(1) show ?thesis by (cases x) auto
      qed
      with dg that(2) show ?thesis by (auto simp: gc_manifestDigest_def)
    qed
    with Cons.IH [OF rest] show ?case by (auto split: if_splits)
  qed
  then show "set marked \<subseteq> set out"
    "key \<in> set keys \<Longrightarrow> content_at key s = Some raw \<Longrightarrow> parse raw = Some d \<Longrightarrow> d \<noteq> [] \<Longrightarrow> d \<in> set out"
    by auto
qed

lemma key_digest_blob: "CHR ''/'' \<notin> set d \<Longrightarrow> key_digest (blobKey d) = d"
proof -
  assume d: "CHR ''/'' \<notin> set d"
  have "blobKey d = str_join ''/'' [''blobs'', ''sha256'', d]" by (simp add: blobKey_def)
  moreover have "split_on (CHR ''/'') (str_join ''/'' [''blobs'', ''sha256'', d]) = [''blobs'', ''sha256'', d]"
    using d by (intro split_join) auto
  ultimately show ?thesis by (simp add: key_digest_def)
qed

lemma gc_sweep_keeps:
  assumes "k \<notin> set (garbage marked cutoff s)" and "\<not> has_prefix k StagingPrefix"
  shows "content_at k (snd (gc_sweep io io' doDelete cutoff marked s)) = content_at k s"
proof -
  obtain ok s1 where g: "(if doDelete then delete_keys io (garbage marked cutoff s) s else (True, s)) = (ok, s1)" by fastforce
  have 1: "content_at k s1 = content_at k s"
    using delete_keys_content [OF assms(1), of io s] g by (auto split: if_splits)
  have "content_at k (snd (sweepStaging io' doDelete cutoff s1)) = content_at k s1"
    unfolding sweepStaging_def using assms(2) store_List_exact [of StagingPrefix s1]
    by (auto intro!: delete_keys_content)
  with 1 g show ?thesis by (auto simp: gc_sweep_def split: bool.splits)
qed

text \<open>What refers to a digest when a run marks: a manifest in the store, a hosted row, or a side of an open conflict.\<close>

definition refers :: "(string \<Rightarrow> string option) \<Rightarrow> db option \<Rightarrow> fs \<Rightarrow> string \<Rightarrow> bool" where
  "refers parse d s sha \<longleftrightarrow>
     (\<exists>key raw. has_prefix key ''manifests/'' \<and> content_at key s = Some raw \<and> parse raw = Some sha) \<or>
     (\<exists>db. d = Some db \<and> finite (dom (hosted_manifests db)) \<and>
        ((\<exists>k row. hosted_manifests db k = Some row \<and> HSHA256 row = sha) \<or>
         (\<exists>c \<in> set (publish_conflicts db). CResolved c = None \<and>
            (side_meta.SSHA256 (CWinner c) = sha \<or> side_meta.SSHA256 (CLoser c) = sha))))"

lemma gc_mark_refers:
  assumes "gc_mark parse io (case d of None \<Rightarrow> [] | Some db \<Rightarrow> mark_database db) s = Some marked" and "refers parse d s sha" and "sha \<noteq> []"
  shows "sha \<in> set marked"
proof -
  note m = mark_manifests_marks [OF assms(1) [unfolded gc_mark_def]]
  from assms(2) show ?thesis
    unfolding refers_def
  proof (elim disjE exE conjE bexE)
    fix key raw
    assume k: "has_prefix key ''manifests/''" "content_at key s = Some raw" "parse raw = Some sha"
    then have "key \<in> set (store_List ''manifests/'' s)" using store_List_exact by (auto simp: content_at_def)
    with m(2) k(2,3) assms(3) show ?thesis by blast
  next
    fix db k row
    assume "d = Some db" "finite (dom (hosted_manifests db))" "hosted_manifests db k = Some row" "HSHA256 row = sha"
    then have "sha \<in> set (mark_database db)" by (force simp: mark_database_def listing_entries)
    with m(1) \<open>d = Some db\<close> show ?thesis by auto
  next
    fix db c
    assume "d = Some db" "c \<in> set (publish_conflicts db)" "CResolved c = None" "side_meta.SSHA256 (CWinner c) = sha"
    then have "sha \<in> set (mark_database db)" by (auto simp: mark_database_def)
    with m(1) \<open>d = Some db\<close> show ?thesis by auto
  next
    fix db c
    assume "d = Some db" "c \<in> set (publish_conflicts db)" "CResolved c = None" "side_meta.SSHA256 (CLoser c) = sha"
    then have "sha \<in> set (mark_database db)" by (auto simp: mark_database_def)
    with m(1) \<open>d = Some db\<close> show ?thesis by auto
  qed
qed

lemma gc_run_keeps:
  assumes run: "gc_run parse io (case d of None \<Rightarrow> [] | Some db \<Rightarrow> mark_database db) doDelete cutoff between s = (ok, s')"
    and k: "\<not> has_prefix k ''uploads/''"
    and use: "has_prefix k ''blobs/sha256/'' \<Longrightarrow>
       (\<exists>sha. k = blobKey sha \<and> sha \<noteq> [] \<and> CHR ''/'' \<notin> set sha \<and> refers parse d s sha) \<or> modified k (between s) > cutoff"
  shows "content_at k s' = content_at k s \<or> content_at k s' = content_at k (between s)"
proof (cases "gc_mark parse (io 0) (case d of None \<Rightarrow> [] | Some db \<Rightarrow> mark_database db) s")
  case None
  with run show ?thesis by (simp add: gc_run_def)
next
  case (Some marked)
  with run have s': "s' = snd (gc_sweep (io 1) (io 2) doDelete cutoff marked (between s))" by (simp add: gc_run_def)
  have "k \<notin> set (garbage marked cutoff (between s))"
  proof
    assume "k \<in> set (garbage marked cutoff (between s))"
    then have g: "has_prefix k ''blobs/sha256/''" "key_digest k \<notin> set marked" "\<not> modified k (between s) > cutoff"
      using store_List_exact [of "''blobs/sha256/''" "between s"] by (auto simp: garbage_def)
    from use [OF g(1)] g(3) obtain sha where "k = blobKey sha" "sha \<noteq> []" "CHR ''/'' \<notin> set sha" "refers parse d s sha" by blast
    with gc_mark_refers [OF Some] key_digest_blob g(2) show False by auto
  qed
  with k show ?thesis unfolding s' by (intro disjI2 gc_sweep_keeps) (auto simp: StagingPrefix_def)
qed


text \<open>A manifest, its blob, an old blob nothing refers to, a young one and an abandoned upload.\<close>

definition mixed_store :: fs where
  "mixed_store = \<lparr>Data = [(''manifests/f/p'', (''d1'', 0)), (''blobs/sha256/d1'', (''a'', 0)), (''blobs/sha256/d2'', (''b'', 0)),
                          (''blobs/sha256/d3'', (''c'', 9)), (''uploads/u'', (''e'', 0))], Attrs = []\<rparr>"


subsection \<open>An ingest during a run\<close>

text \<open>An old blob nothing refers to, and a request that ingests the same content between marking and sweeping.\<close>

definition left_over :: fs where
  "left_over = \<lparr>Data = [(''blobs/sha256/sha256-x'', (''x'', 0))], Attrs = []\<rparr>"

definition ask_in :: "fs \<Rightarrow> ((pipe_error + served) \<times> pipe_world) option" where
  "ask_in s = Serve (example_pipe 200) 2 (example_request IntentArtifact ''sha256-x'') ((example_site [])\<lparr>WFs := s\<rparr>)"

definition ingest_between :: "fs \<Rightarrow> fs" where
  "ingest_between s = (case ask_in s of Some (_, w) \<Rightarrow> WFs w | None \<Rightarrow> s)"

text \<open>
  The age limit does not protect an ingest that finds its blob already there.  The ingest checks
  that the blob exists and leaves it as old as it was; a run that marked before the manifest was
  written removes it.  Afterwards the coordinate has a manifest without a blob, and the healthy
  upstream is not asked again: the artifact that was just served is not found.
\<close>

theorem ingested_blob_is_collected:
  "(\<exists>res w. ask_in left_over = Some (Inr res, w) \<and> VBody res = ''x'' \<and> VSource res = SourceUpstream) \<and>
   (\<exists>s'. gc_run Some (\<lambda>_ _. Works) [] True 50 ingest_between left_over = (True, s') \<and>
      content_at ''manifests/f/p'' s' = Some ''sha256-x'' \<and> content_at ''blobs/sha256/sha256-x'' s' = None \<and>
      (\<exists>w. ask_in s' = Some (Inl ENotFound, w) \<and> WSent w = []))"
proof -
  define s' where "s' = snd (gc_run Some (\<lambda>_ _. Works) [] True 50 ingest_between left_over)"
  have 1: "case ask_in left_over of Some (Inr res, w) \<Rightarrow> VBody res = ''x'' \<and> VSource res = SourceUpstream | _ \<Rightarrow> False"
    by code_simp
  have 2: "fst (gc_run Some (\<lambda>_ _. Works) [] True 50 ingest_between left_over)" by code_simp
  have 3: "content_at ''manifests/f/p'' s' = Some ''sha256-x''" "content_at ''blobs/sha256/sha256-x'' s' = None"
    unfolding s'_def by code_simp+
  have 4: "case ask_in s' of Some (Inl ENotFound, w) \<Rightarrow> WSent w = [] | _ \<Rightarrow> False"
    unfolding s'_def by code_simp
  have "gc_run Some (\<lambda>_ _. Works) [] True 50 ingest_between left_over = (True, s')"
    using 2 unfolding s'_def by (simp add: prod_eq_iff)
  then show ?thesis
    using 1 3 4 by (auto split: option.splits prod.splits sum.splits pipe_error.splits)
qed

end
