(* ===== verification/Publish_Path.thy ===== *)
theory Publish_Path
  imports Pipeline Operator_Actions Repl_Manager Config_Access Auth_Request
begin

text \<open>
  The write path: the policy chain (\<^verbatim>\<open>src/core/policy/policy.go\<close>), the access checks
  (\<^verbatim>\<open>src/core/server/access.go\<close>), the publisher (\<^verbatim>\<open>src/core/pipeline/publish.go\<close>), the publish handler,
  forwarding to the home site and its other end (\<^verbatim>\<open>src/core/server/publish.go\<close>).  A hosting module is
  the tree of what it asks of the core: each node is one call with the continuation for its answer,
  so every theorem holds for every module.  Database, disk and clock act through an environment.
\<close>

subsection \<open>Policies\<close>

record artifact =
  ArtCoord :: coordinate
  ArtSize :: int
  ArtChecksum :: checksum
  ArtMetadata :: strmap

record policy_decision =
  PdAllow :: bool
  PdPolicy :: string
  PdCode :: string
  PdReason :: string

record chain_policy =
  CpName :: string
  CpOnResolve :: "caller \<Rightarrow> coordinate \<Rightarrow> policy_decision"
  CpOnServe :: "caller \<Rightarrow> artifact \<Rightarrow> policy_decision"
  CpOnPublish :: "caller \<Rightarrow> artifact \<Rightarrow> policy_decision"

primrec decide :: "(chain_policy \<Rightarrow> policy_decision) \<Rightarrow> chain_policy list \<Rightarrow> policy_decision" where
  "decide f [] = \<lparr>PdAllow = True, PdPolicy = [], PdCode = [], PdReason = []\<rparr>"
| "decide f (np # nps) =
     (let d = f np
      in if \<not> PdAllow d then (if PdPolicy d = [] then d\<lparr>PdPolicy := CpName np\<rparr> else d) else decide f nps)"

definition OnResolve :: "chain_policy list \<Rightarrow> caller \<Rightarrow> coordinate \<Rightarrow> policy_decision" where
  "OnResolve chain i c = decide (\<lambda>p. CpOnResolve p i c) chain"

definition OnServe :: "chain_policy list \<Rightarrow> caller \<Rightarrow> artifact \<Rightarrow> policy_decision" where
  "OnServe chain i a = decide (\<lambda>p. CpOnServe p i a) chain"

definition OnPublish :: "chain_policy list \<Rightarrow> caller \<Rightarrow> artifact \<Rightarrow> policy_decision" where
  "OnPublish chain i a = decide (\<lambda>p. CpOnPublish p i a) chain"

lemma decide_allows: "PdAllow (decide f chain) \<longleftrightarrow> list_all (\<lambda>p. PdAllow (f p)) chain"
  by (induction chain) (auto simp: Let_def)

subsection \<open>Access checks\<close>

definition accessIdentity :: "caller \<Rightarrow> identity" where
  "accessIdentity i =
     \<lparr>Kind = Kind i, Subject = Subject i, Issuer = Issuer i, ProjectPath = ProjectPath i, Ref = Ref i\<rparr>"

definition capabilityFor :: "intent \<Rightarrow> capability" where
  "capabilityFor i = (if IKind i = IntentSearch then CapList else CapRead)"

definition mayServe :: "engine \<Rightarrow> caller \<Rightarrow> string \<Rightarrow> intent \<Rightarrow> decision" where
  "mayServe e i feed q = Explain e (accessIdentity i) (FeedPath feed (coord_String (ICoord q))) (capabilityFor q)"

definition mayPublish :: "engine \<Rightarrow> caller \<Rightarrow> string \<Rightarrow> string \<Rightarrow> decision" where
  "mayPublish e i feed coord = Explain e (accessIdentity i) (FeedPath feed coord) CapPublish"

definition mayPublishSomething :: "engine \<Rightarrow> caller \<Rightarrow> string \<Rightarrow> bool" where
  "mayPublishSomething e i feed = MayReach e (accessIdentity i) (FeedPath feed []) CapPublish"

subsection \<open>Errors\<close>

datatype api_error =
    NotFoundErr | UnauthorizedErr | ForbiddenErr | ChecksumMismatchErr | UpstreamUnavailableErr | UnavailableErr
  | ImmutableErr | QuarantinedErr | BadRequestErr | OtherErr

fun errorStatus :: "api_error \<Rightarrow> int" where
  "errorStatus NotFoundErr = 404"
| "errorStatus UnauthorizedErr = 401"
| "errorStatus ForbiddenErr = 403"
| "errorStatus ChecksumMismatchErr = 502"
| "errorStatus UpstreamUnavailableErr = 502"
| "errorStatus UnavailableErr = 503"
| "errorStatus ImmutableErr = 409"
| "errorStatus QuarantinedErr = 409"
| "errorStatus BadRequestErr = 400"
| "errorStatus OtherErr = 500"

definition of_store_error :: "store_error \<Rightarrow> api_error" where
  "of_store_error e = (case e of SNotFound \<Rightarrow> NotFoundErr | SMismatch \<Rightarrow> ChecksumMismatchErr | SOther \<Rightarrow> OtherErr)"

definition of_auth_error :: "auth_error \<Rightarrow> api_error" where
  "of_auth_error e = (case e of Unauthorized \<Rightarrow> UnauthorizedErr | LookupFailed \<Rightarrow> OtherErr | Unavailable \<Rightarrow> UnavailableErr)"

subsection \<open>The publisher\<close>

text \<open>A nil metadata map is \<open>None\<close>: stamping a row writes into the caller's map when there is one.\<close>

record publish_request =
  PrFeed :: feed
  PrCoord :: coordinate
  PrPath :: string
  PrSHA256 :: string
  PrSize :: int
  PrChecksums :: strmap
  PrIdentity :: caller
  PrMutable :: bool
  PrMetadata :: "strmap option"

record publish_env =
  PeSite :: string
  PeEnabled :: bool
  PeJournal :: bool
  PeHash :: "string \<Rightarrow> string"
  PeEncode :: "manifest \<Rightarrow> string"
  PeClock :: "nat \<Rightarrow> int"
  PeOs :: "nat \<Rightarrow> os"
  PeDb :: "nat \<Rightarrow> bool"

record write_state =
  WsDb :: db
  WsFs :: fs
  WsTick :: nat

definition meta_or_empty :: "strmap option \<Rightarrow> strmap" where
  "meta_or_empty m = (case m of None \<Rightarrow> [] | Some m \<Rightarrow> m)"

definition hosted_row_of :: "string \<Rightarrow> publish_request \<Rightarrow> hosted_input" where
  "hosted_row_of site req =
     \<lparr>IFeed = FeedName (PrFeed req), IPath = PrPath req,
      IRow = \<lparr>HCoordinate = coord_String (PrCoord req), HSHA256 = PrSHA256 req, HSize = PrSize req, HChecksums = PrChecksums req,
              HMetadata = meta_or_empty (PrMetadata req), HMutable = PrMutable req, HOrigin = ''publish'', HSite = site,
              HPublishedBy = caller_String (PrIdentity req)\<rparr>\<rparr>"

definition stamped :: "int \<Rightarrow> db \<Rightarrow> publish_request \<Rightarrow> publish_request" where
  "stamped now s req = req\<lparr>PrMetadata := map_option (stamp_meta (reading (repl_hlc_now now (clock s)))) (PrMetadata req)\<rparr>"

definition manifest_put_of :: "publish_request \<Rightarrow> manifest_put" where
  "manifest_put_of req =
     \<lparr>Feed = FeedName (PrFeed req), MPath = PrPath req, Coord = coord_String (PrCoord req), SHA256 = PrSHA256 req, Size = PrSize req,
      Checksums = PrChecksums req, Metadata = meta_or_empty (PrMetadata req), Mutable = PrMutable req,
      Publisher = caller_String (PrIdentity req), MSite = []\<rparr>"

definition insertWithJournal :: "int \<Rightarrow> int \<Rightarrow> int \<Rightarrow> string \<Rightarrow> bool \<Rightarrow> publish_request \<Rightarrow> db \<Rightarrow> publish_error + bool \<times> db" where
  "insertWithJournal now now1 now2 site journal req s =
     (case InsertHostedTx now (hosted_row_of site req) s of
        Inl e \<Rightarrow> Inl e
      | Inr (created, s') \<Rightarrow>
          Inr (created, if journal \<and> created then AppendManifestPut now1 now2 site (manifest_put_of (stamped now s req)) s' else s'))"

definition publish_manifest :: "string \<Rightarrow> int \<Rightarrow> publish_request \<Rightarrow> manifest" where
  "publish_manifest site now req =
     \<lparr>PtSHA256 = PrSHA256 req, PtSize = PrSize req, PtChecksums = PrChecksums req, PtCoordinate = [], PtIngestedAt = now,
      PtOrigin = ''publish'', PtSite = site, PtPublisher = caller_String (PrIdentity req), PtMetadata = meta_or_empty (PrMetadata req)\<rparr>"

definition writeProjection :: "publish_env \<Rightarrow> publish_request \<Rightarrow> nat \<Rightarrow> fs \<Rightarrow> (store_error + unit) \<times> fs" where
  "writeProjection env req t s =
     store_Put (PeHash env) (PeOs env t) (PeClock env t) (''manifests/'' @ FeedName (PrFeed req) @ ''/'' @ PrPath req)
       (PeEncode env (publish_manifest (PeSite env) (PeClock env t) req)) \<lparr>PSHA256 = [], PSize = 0, PContentType = []\<rparr> s"

text \<open>The projection is written with the request as the insert left it; its failure is only logged.\<close>

definition publisher_Publish :: "publish_env \<Rightarrow> publish_request \<Rightarrow> write_state \<Rightarrow> (api_error + bool \<times> string) \<times> write_state" where
  "publisher_Publish env req st =
     (let t = WsTick st; st = st\<lparr>WsTick := t + 5\<rparr>
      in if \<not> PeEnabled env then (Inl UnavailableErr, st)
         else if PrSHA256 req = [] \<or> PrPath req = [] then (Inl BadRequestErr, st)
         else if \<not> validRemotePath (PrPath req) then (Inl NotFoundErr, st)
         else (case store_Stat (PeOs env t) (blobKey (PrSHA256 req)) (WsFs st) of
                 Inl e \<Rightarrow> (Inl (of_store_error e), st)
               | Inr _ \<Rightarrow>
                   if \<not> PeDb env t then (Inl UnavailableErr, st)
                   else (case insertWithJournal (PeClock env (t + 1)) (PeClock env (t + 2)) (PeClock env (t + 3)) (PeSite env) (PeJournal env) req (WsDb st) of
                           Inl _ \<Rightarrow> (Inl ImmutableErr, st)
                         | Inr (created, d) \<Rightarrow>
                             (Inr (created, PrSHA256 req),
                              st\<lparr>WsDb := d, WsFs := snd (writeProjection env (stamped (PeClock env (t + 1)) (WsDb st) req) (t + 4) (WsFs st))\<rparr>))))"

subsection \<open>Hosting modules\<close>

record hosted_manifest =
  HmPath :: string
  HmCoord :: coordinate
  HmSHA256 :: string
  HmSize :: int
  HmChecksums :: strmap
  HmMetadata :: strmap
  HmSite :: string
  HmPublisher :: string

text \<open>What a module asks of the core, and how it goes on with the answer; at the end its error and the status it wrote.\<close>

datatype module_run =
    Done "api_error option" int
  | Blob_Get string "store_error + string \<times> blob_info \<Rightarrow> module_run"
  | Blob_Stat string "store_error + blob_info \<Rightarrow> module_run"
  | Blob_Put string string put_opts "store_error + unit \<Rightarrow> module_run"
  | Blob_Delete string "store_error + unit \<Rightarrow> module_run"
  | Blob_List string "string list \<Rightarrow> module_run"
  | Commit publish_request "api_error + bool \<times> string \<Rightarrow> module_run"
  | Manifests_of string "api_error + hosted_manifest list \<Rightarrow> module_run"
  | Put_Index string string "api_error + unit \<Rightarrow> module_run"

text \<open>\<^verbatim>\<open>LIKE\<close> of the database: \<^verbatim>\<open>%\<close> is any text, \<^verbatim>\<open>_\<close> any character, a backslash takes the next one literally.\<close>

fun sql_like :: "string \<Rightarrow> string \<Rightarrow> bool" where
  "sql_like [] s = (s = [])"
| "sql_like (p # ps) s =
     (if p = CHR ''%'' then list_ex (\<lambda>k. sql_like ps (drop k s)) [0..<Suc (length s)]
      else if p = CHR 0x5C then (case ps of [] \<Rightarrow> False | q # qs \<Rightarrow> (case s of [] \<Rightarrow> False | c # cs \<Rightarrow> c = q \<and> sql_like qs cs))
      else (case s of [] \<Rightarrow> False | c # cs \<Rightarrow> (p = CHR ''_'' \<or> c = p) \<and> sql_like ps cs))"

definition ListHosted :: "string \<Rightarrow> string \<Rightarrow> db \<Rightarrow> ((string \<times> string) \<times> hosted_row) list" where
  "ListHosted feed pre d = filter (\<lambda>((f, path), _). (feed = [] \<or> f = feed) \<and> sql_like (pre @ ''%'') path) (listing (hosted_manifests d))"

definition Manifests :: "publish_env \<Rightarrow> feed \<Rightarrow> string \<Rightarrow> write_state \<Rightarrow> api_error + hosted_manifest list" where
  "Manifests env feed pre st =
     (if \<not> PeEnabled env then Inl UnavailableErr
      else if \<not> PeDb env (WsTick st) then Inl UnavailableErr
      else Inr (map (\<lambda>((_, path), r). \<lparr>HmPath = path, HmCoord = parseCoordinate (HCoordinate r), HmSHA256 = HSHA256 r, HmSize = HSize r,
                  HmChecksums = HChecksums r, HmMetadata = HMetadata r, HmSite = HSite r, HmPublisher = HPublishedBy r\<rparr>)
                (ListHosted (FeedName feed) pre (WsDb st))))"

definition PutIndex :: "publish_env \<Rightarrow> feed \<Rightarrow> string \<Rightarrow> string \<Rightarrow> write_state \<Rightarrow> (api_error + unit) \<times> write_state" where
  "PutIndex env feed path body st =
     (if \<not> validRemotePath path then (Inl NotFoundErr, st)
      else (case store_Put (PeHash env) (PeOs env (WsTick st)) (PeClock env (WsTick st)) (''meta/'' @ FeedName feed @ ''/'' @ path) body
                   \<lparr>PSHA256 = [], PSize = 0, PContentType = []\<rparr> (WsFs st) of
              (Inl e, s) \<Rightarrow> (Inl (of_store_error e), st\<lparr>WsFs := s, WsTick := Suc (WsTick st)\<rparr>)
            | (Inr _, s) \<Rightarrow> (Inr (), st\<lparr>WsFs := s, WsTick := Suc (WsTick st)\<rparr>)))"

definition next_tick :: "write_state \<Rightarrow> write_state" where "next_tick st = st\<lparr>WsTick := Suc (WsTick st)\<rparr>"

text \<open>A module runs against the core; \<open>commit\<close> is the Publish it was handed.\<close>

primrec run_module ::
  "publish_env \<Rightarrow> feed \<Rightarrow> (publish_request \<Rightarrow> write_state \<Rightarrow> (api_error + bool \<times> string) \<times> write_state) \<Rightarrow>
   module_run \<Rightarrow> write_state \<Rightarrow> (api_error option \<times> int) \<times> write_state" where
  "run_module env feed commit (Done e status) st = ((e, status), st)"
| "run_module env feed commit (Blob_Get key k) st =
     run_module env feed commit (k (store_Get (PeOs env (WsTick st)) key (WsFs st))) (next_tick st)"
| "run_module env feed commit (Blob_Stat key k) st =
     run_module env feed commit (k (store_Stat (PeOs env (WsTick st)) key (WsFs st))) (next_tick st)"
| "run_module env feed commit (Blob_Put key body opts k) st =
     (case store_Put (PeHash env) (PeOs env (WsTick st)) (PeClock env (WsTick st)) key body opts (WsFs st) of
        (r, s) \<Rightarrow> run_module env feed commit (k r) (next_tick (st\<lparr>WsFs := s\<rparr>)))"
| "run_module env feed commit (Blob_Delete key k) st =
     (case store_Delete (PeOs env (WsTick st)) key (WsFs st) of
        (r, s) \<Rightarrow> run_module env feed commit (k r) (next_tick (st\<lparr>WsFs := s\<rparr>)))"
| "run_module env feed commit (Blob_List pre k) st = run_module env feed commit (k (store_List pre (WsFs st))) (next_tick st)"
| "run_module env feed commit (Commit req k) st = (case commit req st of (r, st) \<Rightarrow> run_module env feed commit (k r) st)"
| "run_module env feed commit (Manifests_of pre k) st = run_module env feed commit (k (Manifests env feed pre st)) (next_tick st)"
| "run_module env feed commit (Put_Index path body k) st =
     (case PutIndex env feed path body st of (r, st) \<Rightarrow> run_module env feed commit (k r) st)"

record http_request =
  HrMethod :: string
  HrPath :: string
  HrQuery :: string
  HrHeaders :: strmap
  HrBody :: string

record hosting =
  HandlePublish :: "feed \<Rightarrow> http_request \<Rightarrow> module_run"
  WritesOwnResponse :: bool
  ReindexRun :: "feed \<Rightarrow> module_run"
  CredentialHeaders :: "string list"

definition Reindex :: "publish_env \<Rightarrow> feed \<Rightarrow> hosting option \<Rightarrow> write_state \<Rightarrow> write_state" where
  "Reindex env feed hoster st =
     (case hoster of
        None \<Rightarrow> st
      | Some h \<Rightarrow> if \<not> FeedHosted feed then st else snd (run_module env feed (publisher_Publish env) (ReindexRun h feed) st))"

subsection \<open>Handlers\<close>

record feed_runtime =
  RtFeed :: feed
  RtLocal :: bool
  RtHomeSite :: string
  RtHosted :: bool
  RtHoster :: "hosting option"
  RtChain :: "chain_policy list"

record server_runtime =
  RtEngine :: engine
  RtFeeds :: "string \<Rightarrow> feed_runtime option"

definition adoptDeclaredCredential :: "string list \<Rightarrow> strmap \<Rightarrow> string" where
  "adoptDeclaredCredential names headers =
     (if lookup_text ''Authorization'' headers \<noteq> [] then lookup_text ''Authorization'' headers
      else (case find (\<lambda>name. trim_space (lookup_text name headers) \<noteq> []) names of
              None \<Rightarrow> []
            | Some name \<Rightarrow> ''Bearer '' @ trim_space (lookup_text name headers)))"

definition deps_Publish ::
  "publish_env \<Rightarrow> engine \<Rightarrow> feed_runtime \<Rightarrow> caller \<Rightarrow> publish_request \<Rightarrow> write_state \<Rightarrow> (api_error + bool \<times> string) \<times> write_state" where
  "deps_Publish env e fr i req st =
     (let req = req\<lparr>PrIdentity := i\<rparr>
      in if \<not> Allowed_d (mayPublish e i (FeedName (RtFeed fr)) (coord_String (PrCoord req))) then (Inl ForbiddenErr, st)
         else if \<not> PdAllow (OnPublish (RtChain fr) i
                   \<lparr>ArtCoord = PrCoord req, ArtSize = PrSize req, ArtChecksum = \<lparr>Algo = ''sha256'', Hex = PrSHA256 req\<rparr>,
                    ArtMetadata = meta_or_empty (PrMetadata req)\<rparr>) then (Inl ForbiddenErr, st)
         else publisher_Publish env req st)"

definition run_publish ::
  "publish_env \<Rightarrow> engine \<Rightarrow> feed_runtime \<Rightarrow> hosting \<Rightarrow> caller \<Rightarrow> http_request \<Rightarrow> write_state \<Rightarrow> int \<times> write_state" where
  "run_publish env e fr h i r st =
     (case run_module env (RtFeed fr) (deps_Publish env e fr i) (HandlePublish h (RtFeed fr) r) st of
        ((Some err, _), st) \<Rightarrow> (errorStatus err, st)
      | ((None, status), st) \<Rightarrow> (if WritesOwnResponse h then status else 201, Reindex env (RtFeed fr) (RtHoster fr) st))"

text \<open>The headers that describe the payload.\<close>

definition payloadHeaders :: "strmap \<Rightarrow> strmap" where
  "payloadHeaders src =
     map (\<lambda>name. (name, lookup_text name src))
       (filter (\<lambda>name. lookup_text name src \<noteq> [])
          [''Content-Type'', ''Content-Range'', ''Content-Encoding'', ''Content-Disposition'', ''Accept''])"

text \<open>A write on its way to the home site: feed, path, method, body, headers, identity text and project.\<close>

record forwarded =
  FwFeed :: string
  FwPath :: string
  FwMethod :: string
  FwBody :: string
  FwHeaders :: strmap
  FwIdentity :: string
  FwProjectPath :: string

definition forwarded_write :: "feed_runtime \<Rightarrow> caller \<Rightarrow> http_request \<Rightarrow> forwarded" where
  "forwarded_write fr i r =
     \<lparr>FwFeed = FeedName (RtFeed fr), FwPath = trim_prefix (HrPath r) ''/'', FwMethod = HrMethod r, FwBody = HrBody r,
      FwHeaders = payloadHeaders (HrHeaders r), FwIdentity = caller_String i, FwProjectPath = ProjectPath i\<rparr>"

datatype publish_answer = Answered int | Forward_to string forwarded

definition forwardPublish :: "bool \<Rightarrow> feed_runtime \<Rightarrow> http_request \<Rightarrow> caller \<Rightarrow> publish_answer" where
  "forwardPublish configured fr r i =
     (if \<not> configured then Answered 503 else Forward_to (RtHomeSite fr) (forwarded_write fr i r))"

definition publishHandler ::
  "publish_env \<Rightarrow> bool \<Rightarrow> engine \<Rightarrow> feed_runtime \<Rightarrow> hosting \<Rightarrow> (string \<Rightarrow> auth_error + caller) \<Rightarrow> http_request \<Rightarrow> write_state \<Rightarrow> publish_answer \<times> write_state" where
  "publishHandler env forwarding e fr h identify r st =
     (case identify (adoptDeclaredCredential (CredentialHeaders h) (HrHeaders r)) of
        Inl err \<Rightarrow> (Answered (errorStatus (of_auth_error err)), st)
      | Inr i \<Rightarrow>
          if IsAnonymous (accessIdentity i) then (Answered 401, st)
          else if Stale i then (Answered 503, st)
          else if \<not> mayPublishSomething e i (FeedName (RtFeed fr)) then (Answered 403, st)
          else if \<not> RtLocal fr then (forwardPublish forwarding fr r i, st)
          else if \<not> PeEnabled env then (Answered 503, st)
          else (case run_publish env e fr h i r st of (status, st) \<Rightarrow> (Answered status, st)))"

text \<open>
  How \<^verbatim>\<open>net/url\<close> reads a request target that starts with a slash: control characters are refused, a
  fragment is cut off, the query follows the first question mark, two leading slashes introduce a
  host, and the path is percent-decoded.
\<close>

definition unhex :: "char \<Rightarrow> nat option" where
  "unhex c =
     (let n = of_char c
      in if 48 \<le> n \<and> n \<le> 57 then Some (n - 48) else if 97 \<le> n \<and> n \<le> 102 then Some (n - 87)
         else if 65 \<le> n \<and> n \<le> 70 then Some (n - 55) else None)"

fun unescape :: "string \<Rightarrow> string option" where
  "unescape [] = Some []"
| "unescape (c # s) =
     (if c \<noteq> CHR ''%'' then map_option ((#) c) (unescape s)
      else (case s of
              a # b # rest \<Rightarrow>
                (case (unhex a, unhex b) of (Some x, Some y) \<Rightarrow> map_option ((#) (char_of (16 * x + y))) (unescape rest) | _ \<Rightarrow> None)
            | _ \<Rightarrow> None))"

definition request_target :: "string \<Rightarrow> (string \<times> string) option" where
  "request_target u =
     (if list_ex (\<lambda>c. of_char c < (32::nat) \<or> of_char c = (127::nat)) u \<or> unescape (drop 1 (dropWhile (\<lambda>c. c \<noteq> CHR ''#'') u)) = None then None
      else
        let u = takeWhile (\<lambda>c. c \<noteq> CHR ''#'') u;
            query = drop 1 (dropWhile (\<lambda>c. c \<noteq> CHR ''?'') u);
            rest = takeWhile (\<lambda>c. c \<noteq> CHR ''?'') u;
            rest = (if has_prefix rest ''//'' \<and> \<not> has_prefix rest ''///'' then dropWhile (\<lambda>c. c \<noteq> CHR ''/'') (drop 2 rest) else rest)
        in map_option (\<lambda>p. (p, query)) (unescape rest))"

text \<open>The write at the home site; a target that does not parse is an error, which the endpoint answers with 500.\<close>

definition ApplyForwardedPublish :: "publish_env \<Rightarrow> server_runtime \<Rightarrow> forwarded \<Rightarrow> write_state \<Rightarrow> int \<times> write_state" where
  "ApplyForwardedPublish env rt fw st =
     (case RtFeeds rt (FwFeed fw) of
        None \<Rightarrow> (404, st)
      | Some fr \<Rightarrow>
          if \<not> RtLocal fr then (421, st)
          else (case (if RtHosted fr then RtHoster fr else None) of
                  None \<Rightarrow> (405, st)
                | Some h \<Rightarrow>
                    if \<not> PeEnabled env then (503, st)
                    else
                      let i = (ParseIdentity (FwIdentity fw))\<lparr>ProjectPath := FwProjectPath fw\<rparr>
                      in if Kind i = IdentityAnonymous then (403, st)
                         else if \<not> mayPublishSomething (RtEngine rt) i (FwFeed fw) then (403, st)
                         else (case request_target (''/'' @ trim_prefix (FwPath fw) ''/'') of
                                 None \<Rightarrow> (500, st)
                               | Some (path, query) \<Rightarrow>
                                   run_publish env (RtEngine rt) fr h i
                                     \<lparr>HrMethod = (if FwMethod fw = [] then ''PUT'' else FwMethod fw), HrPath = path, HrQuery = query,
                                      HrHeaders = payloadHeaders (FwHeaders fw), HrBody = FwBody fw\<rparr> st)))"

text \<open>The endpoint of the home site: the feed, the path and the identity must be there.\<close>

definition handlePublish :: "publish_env \<Rightarrow> server_runtime option \<Rightarrow> forwarded \<Rightarrow> write_state \<Rightarrow> int \<times> write_state" where
  "handlePublish env rt fw st =
     (case rt of
        None \<Rightarrow> (501, st)
      | Some rt \<Rightarrow>
          if FwFeed fw = [] \<or> FwPath fw = [] \<or> FwIdentity fw = [] then (400, st)
          else ApplyForwardedPublish env rt fw st)"

end
