(* ===== verification/Publish_Safety.thy ===== *)
theory Publish_Safety
  imports Publish_Path Pipeline_Serving
begin

text \<open>
  What the write path keeps, for every hosting module.  A module reaches the database only through
  the commits it is granted, so a relation every granted commit respects is respected by the whole
  run: the locale proves this once, and it is interpreted for the guarded commits of a request and for
  the publisher itself.
\<close>

subsection \<open>Relations that commits respect\<close>

primrec all_commits :: "(publish_request \<Rightarrow> bool) \<Rightarrow> module_run \<Rightarrow> bool" where
  "all_commits ok (Done e status) \<longleftrightarrow> True"
| "all_commits ok (Blob_Get key k) \<longleftrightarrow> (\<forall>r. all_commits ok (k r))"
| "all_commits ok (Blob_Stat key k) \<longleftrightarrow> (\<forall>r. all_commits ok (k r))"
| "all_commits ok (Blob_Put key body opts k) \<longleftrightarrow> (\<forall>r. all_commits ok (k r))"
| "all_commits ok (Blob_Delete key k) \<longleftrightarrow> (\<forall>r. all_commits ok (k r))"
| "all_commits ok (Blob_List pre k) \<longleftrightarrow> (\<forall>r. all_commits ok (k r))"
| "all_commits ok (Commit req k) \<longleftrightarrow> ok req \<and> (\<forall>r. all_commits ok (k r))"
| "all_commits ok (Manifests_of pre k) \<longleftrightarrow> (\<forall>r. all_commits ok (k r))"
| "all_commits ok (Put_Index path body k) \<longleftrightarrow> (\<forall>r. all_commits ok (k r))"

lemma all_commits_True: "all_commits (\<lambda>_. True) run"
  by (induction run) auto

lemma next_tick_db [simp]: "WsDb (next_tick st) = WsDb st"
  by (simp add: next_tick_def)

lemma PutIndex_db: "PutIndex env feed path body st = (r, st') \<Longrightarrow> WsDb st' = WsDb st"
  by (auto simp: PutIndex_def split: if_splits prod.splits sum.splits)

locale commit_relation =
  fixes commit :: "publish_request \<Rightarrow> write_state \<Rightarrow> (api_error + bool \<times> string) \<times> write_state"
    and R :: "db \<Rightarrow> db \<Rightarrow> bool"
    and ok :: "publish_request \<Rightarrow> bool"
  assumes R_refl: "R d d"
    and R_trans: "R a b \<Longrightarrow> R b c \<Longrightarrow> R a c"
    and R_commit: "ok req \<Longrightarrow> commit req st = (r, st') \<Longrightarrow> R (WsDb st) (WsDb st')"
begin

lemma run_respects:
  "all_commits ok run \<Longrightarrow> run_module env feed commit run st = (r, st') \<Longrightarrow> R (WsDb st) (WsDb st')"
proof (induction run arbitrary: st)
  case (Done e status)
  then show ?case by (simp add: R_refl)
next
  case (Commit req k)
  obtain a st1 where c: "commit req st = (a, st1)" by fastforce
  with Commit.prems have "run_module env feed commit (k a) st1 = (r, st')" by simp
  with Commit.IH [of "k a" st1] Commit.prems have "R (WsDb st1) (WsDb st')" by simp
  with R_commit [OF _ c] Commit.prems show ?case by (auto intro: R_trans)
next
  case (Put_Index path body k)
  obtain a st1 where c: "PutIndex env feed path body st = (a, st1)" by fastforce
  with Put_Index.prems have "run_module env feed commit (k a) st1 = (r, st')" by simp
  with Put_Index.IH [of "k a" st1] Put_Index.prems PutIndex_db [OF c] show ?case by simp
qed (fastforce split: prod.splits)+

end

subsection \<open>Who may change a row\<close>

text \<open>Every row that differs was published by this caller, who may publish its coordinate and whom no policy denies.\<close>

definition authorised :: "engine \<Rightarrow> feed_runtime \<Rightarrow> caller \<Rightarrow> db \<Rightarrow> db \<Rightarrow> bool" where
  "authorised e fr i d d' \<longleftrightarrow>
     (\<forall>f path. hosted_manifests d' (f, path) \<noteq> hosted_manifests d (f, path) \<longrightarrow>
        (\<exists>row a. hosted_manifests d' (f, path) = Some row \<and> f = FeedName (RtFeed fr) \<and> HPublishedBy row = caller_String i \<and>
           Allowed_d (mayPublish e i f (coord_String (ArtCoord a))) \<and> PdAllow (OnPublish (RtChain fr) i a) \<and>
           Hex (ArtChecksum a) = HSHA256 row))"

lemma authorised_trans: "authorised e fr i a b \<Longrightarrow> authorised e fr i b c \<Longrightarrow> authorised e fr i a c"
  unfolding authorised_def
proof (intro allI impI)
  fix f path
  assume 1: "\<forall>f path. hosted_manifests b (f, path) \<noteq> hosted_manifests a (f, path) \<longrightarrow>
        (\<exists>row a. hosted_manifests b (f, path) = Some row \<and> f = FeedName (RtFeed fr) \<and> HPublishedBy row = caller_String i \<and>
           Allowed_d (mayPublish e i f (coord_String (ArtCoord a))) \<and> PdAllow (OnPublish (RtChain fr) i a) \<and>
           Hex (ArtChecksum a) = HSHA256 row)"
    and 2: "\<forall>f path. hosted_manifests c (f, path) \<noteq> hosted_manifests b (f, path) \<longrightarrow>
        (\<exists>row a. hosted_manifests c (f, path) = Some row \<and> f = FeedName (RtFeed fr) \<and> HPublishedBy row = caller_String i \<and>
           Allowed_d (mayPublish e i f (coord_String (ArtCoord a))) \<and> PdAllow (OnPublish (RtChain fr) i a) \<and>
           Hex (ArtChecksum a) = HSHA256 row)"
    and "hosted_manifests c (f, path) \<noteq> hosted_manifests a (f, path)"
  then show "\<exists>row a. hosted_manifests c (f, path) = Some row \<and> f = FeedName (RtFeed fr) \<and> HPublishedBy row = caller_String i \<and>
           Allowed_d (mayPublish e i f (coord_String (ArtCoord a))) \<and> PdAllow (OnPublish (RtChain fr) i a) \<and>
           Hex (ArtChecksum a) = HSHA256 row"
    using 1 [rule_format, of f path] 2 [rule_format, of f path]
    by (cases "hosted_manifests c (f, path) = hosted_manifests b (f, path)") auto
qed

lemma AppendManifestPut_rows [simp]: "hosted_manifests (AppendManifestPut n1 n2 site p s) = hosted_manifests s"
  by (simp add: AppendManifestPut_def AppendJournal_def Let_def)

lemma InsertHostedTx_rows:
  assumes "InsertHostedTx now r s = Inr (created, s')"
  shows "\<exists>row. hosted_manifests s' = (if created then (hosted_manifests s)((IFeed r, IPath r) \<mapsto> row) else hosted_manifests s) \<and>
           HSHA256 row = HSHA256 (IRow r) \<and> HPublishedBy row = HPublishedBy (IRow r) \<and>
           (created \<longrightarrow> (\<forall>old. hosted_manifests s (IFeed r, IPath r) = Some old \<longrightarrow> HMutable old))"
  using assms unfolding InsertHostedTx_def Let_def
  by (auto split: option.splits if_splits)

lemma hosted_row_of_fields:
  "IFeed (hosted_row_of site req) = FeedName (PrFeed req)" "IPath (hosted_row_of site req) = PrPath req"
  "HSHA256 (IRow (hosted_row_of site req)) = PrSHA256 req" "HPublishedBy (IRow (hosted_row_of site req)) = caller_String (PrIdentity req)"
  by (simp_all add: hosted_row_of_def)

lemma publisher_Publish_rows:
  assumes "publisher_Publish env req st = (r, st')"
  shows "hosted_manifests (WsDb st') = hosted_manifests (WsDb st) \<or>
         (\<exists>row. hosted_manifests (WsDb st') = (hosted_manifests (WsDb st))((FeedName (PrFeed req), PrPath req) \<mapsto> row) \<and>
            HSHA256 row = PrSHA256 req \<and> HPublishedBy row = caller_String (PrIdentity req) \<and>
            (\<forall>old. hosted_manifests (WsDb st) (FeedName (PrFeed req), PrPath req) = Some old \<longrightarrow> HMutable old))"
  using assms unfolding publisher_Publish_def Let_def insertWithJournal_def
  by (auto split: if_splits sum.splits prod.splits dest!: InsertHostedTx_rows simp: hosted_row_of_def)

lemma publisher_Publish_keys:
  assumes "publisher_Publish env req st = (r, st')"
    and "hosted_manifests (WsDb st') k \<noteq> hosted_manifests (WsDb st) k"
  obtains row where "k = (FeedName (PrFeed req), PrPath req)" "hosted_manifests (WsDb st') k = Some row"
    "HSHA256 row = PrSHA256 req" "HPublishedBy row = caller_String (PrIdentity req)"
    "\<And>old. hosted_manifests (WsDb st) k = Some old \<Longrightarrow> HMutable old"
  using publisher_Publish_rows [OF assms(1)] assms(2) by (auto split: if_splits)

lemma deps_Publish_authorised:
  assumes f: "PrFeed req = RtFeed fr" and d: "deps_Publish env e fr i req st = (r, st')"
  shows "authorised e fr i (WsDb st) (WsDb st')"
  unfolding authorised_def
proof (intro allI impI)
  fix g path
  assume ne: "hosted_manifests (WsDb st') (g, path) \<noteq> hosted_manifests (WsDb st) (g, path)"
  define a where "a = \<lparr>ArtCoord = PrCoord req, ArtSize = PrSize req, ArtChecksum = \<lparr>Algo = ''sha256'', Hex = PrSHA256 req\<rparr>,
                    ArtMetadata = meta_or_empty (PrMetadata req)\<rparr>"
  have m: "Allowed_d (mayPublish e i (FeedName (RtFeed fr)) (coord_String (PrCoord req)))" and c: "PdAllow (OnPublish (RtChain fr) i a)"
    and p: "publisher_Publish env (req\<lparr>PrIdentity := i\<rparr>) st = (r, st')"
    using d ne by (auto simp: deps_Publish_def a_def Let_def split: if_splits)
  from publisher_Publish_keys [OF p ne] obtain row where
    "(g, path) = (FeedName (PrFeed req), PrPath req)" "hosted_manifests (WsDb st') (g, path) = Some row"
    "HSHA256 row = PrSHA256 req" "HPublishedBy row = caller_String i" by auto
  with m c f show "\<exists>row a. hosted_manifests (WsDb st') (g, path) = Some row \<and> g = FeedName (RtFeed fr) \<and> HPublishedBy row = caller_String i \<and>
           Allowed_d (mayPublish e i g (coord_String (ArtCoord a))) \<and> PdAllow (OnPublish (RtChain fr) i a) \<and>
           Hex (ArtChecksum a) = HSHA256 row"
    by (intro exI [of _ row] exI [of _ a]) (simp add: a_def)
qed

interpretation granted: commit_relation "deps_Publish env e fr i" "authorised e fr i" "\<lambda>req. PrFeed req = RtFeed fr" for env e fr i
proof unfold_locales
  show "authorised e fr i d d" for d by (simp add: authorised_def)
  show "authorised e fr i a b \<Longrightarrow> authorised e fr i b c \<Longrightarrow> authorised e fr i a c" for a b c by (rule authorised_trans)
  show "PrFeed req = RtFeed fr \<Longrightarrow> deps_Publish env e fr i req st = (r, st') \<Longrightarrow> authorised e fr i (WsDb st) (WsDb st')" for req st r st'
    by (rule deps_Publish_authorised)
qed

text \<open>A run that commits nothing leaves the database alone.\<close>

interpretation idle: commit_relation commit "(=)" "\<lambda>_. False" for commit
  by unfold_locales auto

subsection \<open>Releases stay, and every change is announced\<close>

text \<open>
  Rows that are not mutable are the same afterwards; the journal only grew; and where the site journals,
  every row that differs has its announcement among the new entries.
\<close>

definition announces :: "(journal_entry \<times> int) list \<Rightarrow> db \<Rightarrow> string \<Rightarrow> string \<Rightarrow> bool" where
  "announces ext d f path \<longleftrightarrow>
     (\<exists>row e t. hosted_manifests d (f, path) = Some row \<and> (e, t) \<in> set ext \<and> EKind e = KindManifestPut \<and>
        j_feed (Payload e) = f \<and> j_path (Payload e) = path \<and> j_sha256 (Payload e) = HSHA256 row)"

definition announced :: "bool \<Rightarrow> db \<Rightarrow> db \<Rightarrow> bool" where
  "announced journal d d' \<longleftrightarrow>
     (\<forall>k row. hosted_manifests d k = Some row \<and> \<not> HMutable row \<longrightarrow> hosted_manifests d' k = Some row) \<and>
     (\<exists>ext. repl_journal d' = repl_journal d @ ext \<and>
        (journal \<longrightarrow> (\<forall>f path. hosted_manifests d' (f, path) \<noteq> hosted_manifests d (f, path) \<longrightarrow> announces ext d' f path)))"

lemma announces_mono: "announces ext d f path \<Longrightarrow> hosted_manifests d' (f, path) = hosted_manifests d (f, path) \<Longrightarrow> set ext \<subseteq> set ext' \<Longrightarrow>
    announces ext' d' f path"
  unfolding announces_def by auto

lemma announced_rows: "announced j d d' \<Longrightarrow> hosted_manifests d k = Some row \<Longrightarrow> \<not> HMutable row \<Longrightarrow> hosted_manifests d' k = Some row"
  unfolding announced_def by blast

lemma announced_entries:
  "announced j d d' \<Longrightarrow> \<exists>ext. repl_journal d' = repl_journal d @ ext \<and>
     (j \<longrightarrow> (\<forall>f path. hosted_manifests d' (f, path) \<noteq> hosted_manifests d (f, path) \<longrightarrow> announces ext d' f path))"
  unfolding announced_def by (rule conjunct2)

lemma announced_trans:
  assumes "announced j a b" and "announced j b c"
  shows "announced j a c"
proof -
  from announced_entries [OF assms(1)] obtain e1 where e1: "repl_journal b = repl_journal a @ e1 \<and>
      (j \<longrightarrow> (\<forall>f path. hosted_manifests b (f, path) \<noteq> hosted_manifests a (f, path) \<longrightarrow> announces e1 b f path))" ..
  note 1 = e1 [THEN conjunct2, rule_format]
  from announced_entries [OF assms(2)] obtain e2 where e2: "repl_journal c = repl_journal b @ e2 \<and>
      (j \<longrightarrow> (\<forall>f path. hosted_manifests c (f, path) \<noteq> hosted_manifests b (f, path) \<longrightarrow> announces e2 c f path))" ..
  note 2 = e2 [THEN conjunct2, rule_format]
  have "announces (e1 @ e2) c f path"
    if "j" and ne: "hosted_manifests c (f, path) \<noteq> hosted_manifests a (f, path)" for f path
  proof (cases "hosted_manifests c (f, path) = hosted_manifests b (f, path)")
    case True
    with ne 1 [OF \<open>j\<close>, of f path] show ?thesis by (simp add: announces_mono [of e1 b])
  next
    case False
    with 2 [OF \<open>j\<close>, of f path] show ?thesis by (simp add: announces_mono [of e2 c])
  qed
  moreover have "hosted_manifests c k = Some row" if "hosted_manifests a k = Some row" "\<not> HMutable row" for k row
    using that by (intro announced_rows [OF assms(2)] announced_rows [OF assms(1)])
  moreover have "repl_journal c = repl_journal a @ (e1 @ e2)" using e1 [THEN conjunct1] e2 [THEN conjunct1] by simp
  ultimately show ?thesis unfolding announced_def by blast
qed

lemma InsertHostedTx_journal: "InsertHostedTx now r s = Inr (created, s') \<Longrightarrow> repl_journal s' = repl_journal s"
  unfolding InsertHostedTx_def Let_def by (auto split: option.splits if_splits)

lemma AppendManifestPut_journal:
  "\<exists>e1 e2. repl_journal (AppendManifestPut n1 n2 site p s) = repl_journal s @ [(e1, n1), (e2, n2)] \<and> EKind e1 = KindManifestPut \<and>
     j_feed (Payload e1) = Feed p \<and> j_path (Payload e1) = MPath p \<and> j_sha256 (Payload e1) = SHA256 p"
  by (simp add: AppendManifestPut_def AppendJournal_def Let_def marshal_manifest_put_def)

lemma insertWithJournal_announced:
  assumes "insertWithJournal now n1 n2 site j req s = Inr (created, s')"
  shows "announced j s s'"
proof -
  obtain s1 where i: "InsertHostedTx now (hosted_row_of site req) s = Inr (created, s1)"
    and s': "s' = (if j \<and> created then AppendManifestPut n1 n2 site (manifest_put_of (stamped now s req)) s1 else s1)"
    using assms by (auto simp: insertWithJournal_def split: sum.splits)
  from InsertHostedTx_rows [OF i] obtain row where
    r: "hosted_manifests s1 = (if created then (hosted_manifests s)((FeedName (PrFeed req), PrPath req) \<mapsto> row) else hosted_manifests s)"
      "HSHA256 row = PrSHA256 req"
      "created \<longrightarrow> (\<forall>old. hosted_manifests s (FeedName (PrFeed req), PrPath req) = Some old \<longrightarrow> HMutable old)"
    unfolding hosted_row_of_fields by blast
  have rows: "hosted_manifests s' = hosted_manifests s1" by (simp add: s')
  have keep: "hosted_manifests s' k = Some old" if "hosted_manifests s k = Some old" "\<not> HMutable old" for k old
    using that r rows by auto
  show ?thesis
  proof (cases "j \<and> created")
    case True
    obtain e1 e2 where e: "repl_journal s' = repl_journal s @ [(e1, n1), (e2, n2)]" "EKind e1 = KindManifestPut"
      "j_feed (Payload e1) = FeedName (PrFeed req)" "j_path (Payload e1) = PrPath req" "j_sha256 (Payload e1) = PrSHA256 req"
      using AppendManifestPut_journal [of n1 n2 site "manifest_put_of (stamped now s req)" s1] InsertHostedTx_journal [OF i] True s'
      by (auto simp: manifest_put_of_def stamped_def)
    have "announces [(e1, n1), (e2, n2)] s' f path" if "hosted_manifests s' (f, path) \<noteq> hosted_manifests s (f, path)" for f path
      using that r rows e True by (auto simp: announces_def split: if_splits)
    with keep e(1) show ?thesis unfolding announced_def by blast
  next
    case False
    with keep InsertHostedTx_journal [OF i] s' rows r show ?thesis unfolding announced_def by auto
  qed
qed

lemma announced_refl [simp]: "announced j d d"
  by (simp add: announced_def)

lemma publisher_Publish_announced: "publisher_Publish env req st = (r, st') \<Longrightarrow> announced (PeJournal env) (WsDb st) (WsDb st')"
  unfolding publisher_Publish_def Let_def
  by (auto split: if_splits sum.splits dest: insertWithJournal_announced)

lemma deps_Publish_announced: "deps_Publish env e fr i req st = (r, st') \<Longrightarrow> announced (PeJournal env) (WsDb st) (WsDb st')"
  by (auto simp: deps_Publish_def Let_def split: if_splits dest: publisher_Publish_announced)

interpretation releases: commit_relation "deps_Publish env e fr i" "announced (PeJournal env)" "\<lambda>_. True" for env e fr i
  by unfold_locales (auto intro: announced_trans dest: deps_Publish_announced)

interpretation reindexed: commit_relation "publisher_Publish env" "announced (PeJournal env)" "\<lambda>_. True" for env
  by unfold_locales (auto intro: announced_trans dest: publisher_Publish_announced)

lemma Reindex_announced: "announced (PeJournal env) (WsDb st) (WsDb (Reindex env feed h st))"
proof (cases h)
  case (Some k)
  then show ?thesis using reindexed.run_respects [OF all_commits_True]
    by (cases "run_module env feed (publisher_Publish env) (ReindexRun k feed) st") (auto simp: Reindex_def)
qed (simp add: Reindex_def)

lemma run_publish_announced:
  assumes "run_publish env e fr h i r st = (status, st')"
  shows "announced (PeJournal env) (WsDb st) (WsDb st')"
proof -
  obtain err s st1 where m: "run_module env (RtFeed fr) (deps_Publish env e fr i) (HandlePublish h (RtFeed fr) r) st = ((err, s), st1)"
    by (metis surj_pair)
  note a = releases.run_respects [OF all_commits_True m]
  from assms m have "st' = st1 \<or> st' = Reindex env (RtFeed fr) (RtHoster fr) st1"
    by (auto simp: run_publish_def split: option.splits)
  then show ?thesis using a announced_trans [OF a Reindex_announced] by auto
qed

text \<open>
  C7: a write at its home site, whatever the hosting module does and whoever sent it: rows of releases
  stay as they are, the journal is only extended, and where the site journals, every row that differs
  afterwards is announced by one of the new entries with the digest the row ends up with.
\<close>

theorem releases_stay_and_changes_are_announced:
  assumes "publishHandler env forwarding e fr h identify r st = (ans, st') \<or> ApplyForwardedPublish env rt fw st = (status, st')"
  shows "announced (PeJournal env) (WsDb st) (WsDb st')"
  using assms unfolding publishHandler_def ApplyForwardedPublish_def Let_def
  by (auto split: sum.splits if_splits option.splits prod.splits dest: run_publish_announced)

lemma run_publish_authorised:
  assumes run: "run_publish env e fr h i r st = (status, st')"
    and own: "all_commits (\<lambda>req. PrFeed req = RtFeed fr) (HandlePublish h (RtFeed fr) r)"
    and idx: "\<forall>k. RtHoster fr = Some k \<longrightarrow> all_commits (\<lambda>_. False) (ReindexRun k (RtFeed fr))"
  shows "authorised e fr i (WsDb st) (WsDb st')"
proof -
  obtain err s st1 where m: "run_module env (RtFeed fr) (deps_Publish env e fr i) (HandlePublish h (RtFeed fr) r) st = ((err, s), st1)"
    by (metis surj_pair)
  have "WsDb (Reindex env (RtFeed fr) (RtHoster fr) st1) = WsDb st1"
  proof (cases "RtHoster fr")
    case (Some k)
    with idx have "all_commits (\<lambda>_. False) (ReindexRun k (RtFeed fr))" by simp
    then show ?thesis
      using idle.run_respects [of "ReindexRun k (RtFeed fr)" env "RtFeed fr" "publisher_Publish env" st1] Some
      by (cases "run_module env (RtFeed fr) (publisher_Publish env) (ReindexRun k (RtFeed fr)) st1") (auto simp: Reindex_def)
  qed (simp add: Reindex_def)
  moreover from run m have "st' = st1 \<or> st' = Reindex env (RtFeed fr) (RtHoster fr) st1"
    by (auto simp: run_publish_def split: option.splits)
  ultimately show ?thesis using granted.run_respects [OF own m] by auto
qed


end
