(* ===== verification/Publish_Forwarding.thy ===== *)
theory Publish_Forwarding
  imports Publish_Safety
begin

text \<open>
  Writes that reach the home site through another one: when that is the same as bringing them there,
  and what is lost on the way.  The example site at the end instantiates the theorems on the write path.
\<close>

subsection \<open>Forwarding\<close>

text \<open>The identity a home site reconstructs for a forwarded write, and the request its module sees.\<close>

definition home_identity :: "caller \<Rightarrow> caller" where
  "home_identity i = (ParseIdentity (caller_String i))\<lparr>ProjectPath := ProjectPath i\<rparr>"

definition arriving :: "http_request \<Rightarrow> http_request" where
  "arriving r = r\<lparr>HrQuery := [], HrHeaders := payloadHeaders (HrHeaders r)\<rparr>"

text \<open>A path survives the journey when reading it as a request target gives it back.\<close>

definition travels :: "string \<Rightarrow> bool" where
  "travels path \<longleftrightarrow> request_target (''/'' @ trim_prefix (trim_prefix path ''/'') ''/'') = Some (path, [])"

lemma unescape_plain: "CHR ''%'' \<notin> set s \<Longrightarrow> unescape s = Some s"
  by (induction s) auto

lemma plain_path_travels:
  assumes ctl: "\<not> list_ex (\<lambda>c. of_char c < (32::nat) \<or> of_char c = (127::nat)) p" and pct: "CHR ''%'' \<notin> set p"
    and q: "CHR ''?'' \<notin> set p" and f: "CHR ''#'' \<notin> set p" and s: "\<not> has_prefix p ''/''"
  shows "travels (CHR ''/'' # p)"
proof -
  have cut: "takeWhile (\<lambda>c. c \<noteq> x) p = p \<and> dropWhile (\<lambda>c. c \<noteq> x) p = []" if "x \<notin> set p" for x
    using that by (induction p) auto
  have p: "unescape (CHR ''/'' # p) = Some (CHR ''/'' # p)" using pct by (intro unescape_plain) simp
  have t: "trim_prefix p ''/'' = p" "trim_prefix (CHR ''/'' # p) ''/'' = p"
    using s by (simp_all add: trim_prefix_def has_prefix_def)
  have h: "\<not> has_prefix (CHR ''/'' # p) ''//''"
    using s by (cases p) (simp_all add: has_prefix_def)
  have c: "\<not> list_ex (\<lambda>c. of_char c < (32::nat) \<or> of_char c = (127::nat)) (CHR ''/'' # p)"
    using ctl by simp
  show ?thesis
    using c h p by (simp add: travels_def request_target_def t Let_def cut [OF q, THEN conjunct1] cut [OF q, THEN conjunct2]
        cut [OF f, THEN conjunct1] cut [OF f, THEN conjunct2])
qed

lemma lookup_text_map: "distinct names \<Longrightarrow> lookup_text n (map (\<lambda>name. (name, f name)) names) = (if n \<in> set names then f n else [])"
  by (induction names) (auto simp: lookup_text_def)

lemma lookup_payload: "lookup_text n (payloadHeaders src) =
   (if n \<in> {''Content-Type'', ''Content-Range'', ''Content-Encoding'', ''Content-Disposition'', ''Accept''} then lookup_text n src else [])"
  unfolding payloadHeaders_def by (subst lookup_text_map) auto

lemma payloadHeaders_idem [simp]: "payloadHeaders (payloadHeaders src) = payloadHeaders src"
  unfolding payloadHeaders_def [of "payloadHeaders src"] lookup_payload
  by (simp add: payloadHeaders_def cong: filter_cong map_cong)

lemma home_identity_fields:
  assumes "Kind i = IdentityToken \<or> Kind i = IdentityOIDC"
  shows "Kind (home_identity i) = Kind i" "Subject (home_identity i) = Subject i" "ProjectPath (home_identity i) = ProjectPath i"
    "caller_String (home_identity i) = caller_String i"
proof -
  have "CHR '':'' \<notin> set (Kind i)" using assms by (auto simp: identity_kind_defs)
  then have c: "str_cut (Kind i @ CHR '':'' # Subject i) [CHR '':''] = (Kind i, Subject i, True)"
    by (auto simp: str_cut_char takeWhile_append dropWhile_append takeWhile_eq_all_conv)
  show "Kind (home_identity i) = Kind i" "Subject (home_identity i) = Subject i" "ProjectPath (home_identity i) = ProjectPath i"
    using assms c by (auto simp: home_identity_def ParseIdentity_def caller_String_def zero_caller_def identity_kind_defs)
  then show "caller_String (home_identity i) = caller_String i" by (simp add: caller_String_def)
qed

lemma bound_loop_cong:
  "\<forall>b \<in> set bs. matches (BMatch b) i = matches (BMatch b) i' \<Longrightarrow> bound_loop bs i p n = bound_loop bs i' p n"
  by (induction bs arbitrary: p n) auto

lemma boundVia_home:
  assumes k: "Kind i = IdentityToken \<or> Kind i = IdentityOIDC"
    and b: "\<forall>b \<in> set (bindings e). MIssuer (BMatch b) = [] \<and> MRef (BMatch b) = []"
  shows "boundVia e (accessIdentity (home_identity i)) = boundVia e (accessIdentity i)"
  unfolding boundVia_def
  by (rule bound_loop_cong) (use b in \<open>auto simp: matches_def accessIdentity_def home_identity_fields [OF k] IsAnonymous_def\<close>)

lemma checks_home:
  assumes k: "Kind i = IdentityToken \<or> Kind i = IdentityOIDC"
    and b: "\<forall>b \<in> set (bindings e). MIssuer (BMatch b) = [] \<and> MRef (BMatch b) = []"
  shows "mayPublish e (home_identity i) feed c = mayPublish e i feed c"
    and "mayPublishSomething e (home_identity i) feed = mayPublishSomething e i feed"
proof -
  have name: "identity_String (accessIdentity (home_identity i)) = identity_String (accessIdentity i)"
    by (simp add: identity_String_def accessIdentity_def home_identity_fields [OF k])
  show "mayPublish e (home_identity i) feed c = mayPublish e i feed c"
    unfolding mayPublish_def Explain_def boundVia_home [OF assms] name ..
  show "mayPublishSomething e (home_identity i) feed = mayPublishSomething e i feed"
    unfolding mayPublishSomething_def MayReach_def PoliciesFor_def boundVia_home [OF assms] ..
qed

lemma publisher_Publish_by_name:
  "caller_String i = caller_String i' \<Longrightarrow> publisher_Publish env (req\<lparr>PrIdentity := i\<rparr>) st = publisher_Publish env (req\<lparr>PrIdentity := i'\<rparr>) st"
proof -
  assume name: "caller_String i = caller_String i'"
  have 1: "hosted_row_of site (req\<lparr>PrIdentity := i\<rparr>) = hosted_row_of site (req\<lparr>PrIdentity := i'\<rparr>)" for site
    by (simp add: hosted_row_of_def name)
  have 2: "manifest_put_of (stamped now s (req\<lparr>PrIdentity := i\<rparr>)) = manifest_put_of (stamped now s (req\<lparr>PrIdentity := i'\<rparr>))" for now s
    by (simp add: manifest_put_of_def stamped_def name)
  have 3: "writeProjection env (stamped now s (req\<lparr>PrIdentity := i\<rparr>)) = writeProjection env (stamped now s (req\<lparr>PrIdentity := i'\<rparr>))" for now s
    by (simp add: writeProjection_def publish_manifest_def stamped_def name fun_eq_iff)
  have 4: "insertWithJournal now n1 n2 site j (req\<lparr>PrIdentity := i\<rparr>) = insertWithJournal now n1 n2 site j (req\<lparr>PrIdentity := i'\<rparr>)"
    for now n1 n2 site j unfolding insertWithJournal_def 1 2 ..
  have 5: "PrSHA256 (req\<lparr>PrIdentity := x\<rparr>) = PrSHA256 req" "PrPath (req\<lparr>PrIdentity := x\<rparr>) = PrPath req" for x by simp_all
  show ?thesis unfolding publisher_Publish_def Let_def 3 4 5 ..
qed

lemma deps_Publish_home:
  assumes k: "Kind i = IdentityToken \<or> Kind i = IdentityOIDC"
    and b: "\<forall>b \<in> set (bindings e). MIssuer (BMatch b) = [] \<and> MRef (BMatch b) = []"
    and c: "\<forall>a. OnPublish (RtChain fr) (home_identity i) a = OnPublish (RtChain fr) i a"
  shows "deps_Publish env e fr (home_identity i) = deps_Publish env e fr i"
proof (intro ext)
  fix req st
  show "deps_Publish env e fr (home_identity i) req st = deps_Publish env e fr i req st"
    unfolding deps_Publish_def Let_def checks_home [OF k b] c [rule_format]
      publisher_Publish_by_name [OF home_identity_fields(4) [OF k]] by simp
qed


subsection \<open>An example\<close>

definition example_writer :: caller where
  "example_writer = \<lparr>Kind = ''oidc'', Subject = ''ci'', Issuer = ''https://forge.example'', ProjectPath = ''team/app'', Ref = ''main'', Stale = False\<rparr>"

text \<open>Everyone signed in may publish, but for one issuer.\<close>

definition example_writers :: engine where
  "example_writers =
     \<lparr>policies = [''write'' \<mapsto> \<lparr>PolicyName = ''write'', Rules = [\<lparr>Path = ''feed/f/*'', Capabilities = [''publish''], rule_policy = ''write''\<rparr>]\<rparr>,
                  ''block'' \<mapsto> \<lparr>PolicyName = ''block'', Rules = [\<lparr>Path = ''feed/f/*'', Capabilities = [''deny''], rule_policy = ''block''\<rparr>]\<rparr>],
      bindings = [\<lparr>BindingName = ''b1'', BPolicies = [''write''],
                    BMatch = \<lparr>MKind = ''oidc'', MIssuer = [], MSubject = [], MProjectPath = [], MRef = [], MAuthenticated = False\<rparr>\<rparr>,
                  \<lparr>BindingName = ''b2'', BPolicies = [''block''],
                    BMatch = \<lparr>MKind = [], MIssuer = ''https://forge.example'', MSubject = [], MProjectPath = [], MRef = [], MAuthenticated = False\<rparr>\<rparr>]\<rparr>"

definition open_writers :: engine where
  "open_writers = example_writers\<lparr>bindings := take 1 (bindings example_writers)\<rparr>"

definition example_upload :: "feed \<Rightarrow> http_request \<Rightarrow> publish_request" where
  "example_upload fd r =
     \<lparr>PrFeed = fd, PrCoord = \<lparr>coordinate.Format = ''g'', CName = ''n'', CVersion = ''1''\<rparr>, PrPath = ''n/1'', PrSHA256 = HrBody r, PrSize = 3, PrChecksums = [],
      PrIdentity = anonymous_caller, PrMutable = False, PrMetadata = None\<rparr>"

definition example_hoster :: hosting where
  "example_hoster =
     \<lparr>HandlePublish = (\<lambda>fd r. Commit (example_upload fd r) (\<lambda>a. Done (case a of Inl err \<Rightarrow> Some err | Inr _ \<Rightarrow> None) 201)),
      WritesOwnResponse = False, ReindexRun = (\<lambda>_. Done None 0), CredentialHeaders = []\<rparr>"

definition example_hosted_feed :: feed where
  "example_hosted_feed = \<lparr>FeedName = ''f'', FeedFormat = ''generic'', FeedUpstream = [], FeedAnonymous = False, FeedGroup = False, FeedHosted = True, FeedExternalURL = []\<rparr>"

definition example_runtime :: "bool \<Rightarrow> feed_runtime" where
  "example_runtime local =
     \<lparr>RtFeed = example_hosted_feed, RtLocal = local, RtHomeSite = ''ams'', RtHosted = True, RtHoster = Some example_hoster, RtChain = []\<rparr>"

definition example_put_request :: http_request where
  "example_put_request = \<lparr>HrMethod = ''PUT'', HrPath = ''/n/1'', HrQuery = [], HrHeaders = [], HrBody = ''abc''\<rparr>"

definition example_publish_env :: publish_env where
  "example_publish_env =
     \<lparr>PeSite = ''ams'', PeEnabled = True, PeJournal = True, PeHash = (\<lambda>b. b), PeEncode = PtSHA256, PeClock = int, PeOs = (\<lambda>_. Works), PeDb = (\<lambda>_. True)\<rparr>"

definition example_desk :: write_state where
  "example_desk = \<lparr>WsDb = empty_db, WsFs = \<lparr>Data = [(blobKey ''abc'', (''abc'', 0))], Attrs = []\<rparr>, WsTick = 0\<rparr>"

definition committed_by :: "engine \<Rightarrow> caller \<Rightarrow> (api_error + bool \<times> string) \<times> write_state" where
  "committed_by e i = deps_Publish example_publish_env e (example_runtime True) i (example_upload example_hosted_feed example_put_request) example_desk"

text \<open>The facts of the example, evaluated together.\<close>

lemma example_facts:
  "mayPublishSomething example_writers example_writer ''f'' \<and> mayPublishSomething example_writers (home_identity example_writer) ''f'' \<and>
   mayPublishSomething open_writers example_writer ''f'' \<and>
   Kind (home_identity example_writer) \<noteq> IdentityAnonymous \<and> \<not> IsAnonymous (accessIdentity example_writer) \<and> \<not> Stale example_writer \<and>
   caller_String example_writer = ''oidc:ci'' \<and> arriving example_put_request = example_put_request \<and> travels (HrPath example_put_request) \<and>
   FwPath (forwarded_write (example_runtime False) example_writer example_put_request) \<noteq> [] \<and>
   fst (committed_by example_writers example_writer) = Inl ForbiddenErr \<and>
   fst (committed_by example_writers (home_identity example_writer)) = Inr (True, ''abc'') \<and>
   map_option HPublishedBy (hosted_manifests (WsDb (snd (committed_by example_writers (home_identity example_writer)))) (''f'', ''n/1'')) = Some ''oidc:ci'' \<and>
   fst (committed_by open_writers example_writer) = Inr (True, ''abc'') \<and>
   map_option HPublishedBy (hosted_manifests (WsDb (snd (committed_by open_writers example_writer))) (''f'', ''n/1'')) = Some ''oidc:ci''"
  by code_simp

lemma example_run:
  "run_publish example_publish_env e (example_runtime True) example_hoster i example_put_request example_desk =
     (case fst (committed_by e i) of Inl err \<Rightarrow> errorStatus err | Inr _ \<Rightarrow> 201, snd (committed_by e i))"
  by (simp add: committed_by_def run_publish_def Reindex_def example_runtime_def example_hoster_def example_hosted_feed_def split: sum.splits prod.splits)

lemma example_handler:
  assumes "mayPublishSomething e example_writer ''f''"
  shows "publishHandler example_publish_env True e (example_runtime True) example_hoster (\<lambda>_. Inr example_writer) example_put_request example_desk =
    (Answered (case fst (committed_by e example_writer) of Inl err \<Rightarrow> errorStatus err | Inr _ \<Rightarrow> 201), snd (committed_by e example_writer))"
  and "publishHandler example_publish_env True e (example_runtime False) example_hoster (\<lambda>_. Inr example_writer) example_put_request example_desk =
    (Forward_to ''ams'' (forwarded_write (example_runtime False) example_writer example_put_request), example_desk)"
proof -
  have rt: "FeedName (RtFeed (example_runtime l)) = ''f''" "RtLocal (example_runtime l) = l" "RtHomeSite (example_runtime l) = ''ams''"
      "PeEnabled example_publish_env" for l
    by (simp_all add: example_runtime_def example_hosted_feed_def example_publish_env_def)
  show "publishHandler example_publish_env True e (example_runtime True) example_hoster (\<lambda>_. Inr example_writer) example_put_request example_desk =
      (Answered (case fst (committed_by e example_writer) of Inl err \<Rightarrow> errorStatus err | Inr _ \<Rightarrow> 201), snd (committed_by e example_writer))"
    using assms example_facts rt(4) unfolding publishHandler_def rt(1-3) example_run by simp
  show "publishHandler example_publish_env True e (example_runtime False) example_hoster (\<lambda>_. Inr example_writer) example_put_request example_desk =
      (Forward_to ''ams'' (forwarded_write (example_runtime False) example_writer example_put_request), example_desk)"
    using assms example_facts unfolding publishHandler_def rt forwardPublish_def by simp
qed


lemma example_desk_empty: "hosted_manifests (WsDb example_desk) k = None"
  by (simp add: example_desk_def empty_db_def)

lemma example_hoster_runs:
  "all_commits (\<lambda>req. PrFeed req = RtFeed (example_runtime l)) (HandlePublish example_hoster (RtFeed (example_runtime l)) r)"
  "\<forall>k. RtHoster (example_runtime l) = Some k \<longrightarrow> all_commits (\<lambda>_. False) (ReindexRun k (RtFeed (example_runtime l)))"
  by (simp_all add: example_hoster_def example_runtime_def example_upload_def)

lemma example_open_run:
  "\<exists>st row. publishHandler example_publish_env True open_writers (example_runtime True) example_hoster (\<lambda>_. Inr example_writer)
       example_put_request example_desk = (Answered 201, st) \<and> hosted_manifests (WsDb st) (''f'', ''n/1'') = Some row \<and> HPublishedBy row = ''oidc:ci''"
  using example_facts example_handler(1) [of open_writers] by auto


theorem releases_stay_and_changes_are_announced_witness:
  "announced True (WsDb example_desk) (WsDb (snd (publishHandler example_publish_env True open_writers (example_runtime True) example_hoster
     (\<lambda>_. Inr example_writer) example_put_request example_desk)))"
proof -
  obtain ans st where run: "publishHandler example_publish_env True open_writers (example_runtime True) example_hoster
     (\<lambda>_. Inr example_writer) example_put_request example_desk = (ans, st)" by fastforce
  have "PeJournal example_publish_env = True" by (simp add: example_publish_env_def)
  then show ?thesis using releases_stay_and_changes_are_announced [OF disjI1, OF run] unfolding run by simp
qed


end
