(* ===== verification/Publish_Roundtrip.thy ===== *)
theory Publish_Roundtrip
  imports Publish_Forwarding
begin

text \<open>
  Write path and read path together: what was published is what a client of the feed gets, from the
  site's own disk and without a request leaving the site.
\<close>

lemma store_Get_works: "valid_key key \<Longrightarrow> content_at key s = Some body \<Longrightarrow> \<exists>info. store_Get Works key s = Inr (body, info) \<and> ISize info = int (length body)"
  by (auto simp: store_Get_def store_Stat_def content_at_def split: option.splits)

lemma do_Get_works:
  assumes "os_at p (WTick w) = Works" "valid_key key" "content_at key (WFs w) = Some body"
  shows "\<exists>info. do_Get p key w = Some (Inr (body, info), tick w) \<and> ISize info = int (length body)"
  using store_Get_works [OF assms(2,3)] assms(1) by (auto simp: do_Get_def)

lemma serve_from_disk:
  assumes os: "\<forall>n. os_at p n = Works" and m: "content_at mkey (WFs w) = Some raw" "valid_key mkey" "int (length raw) \<le> 2 ^ 20"
    and d: "decode_manifest p raw = Some mf" "PtSHA256 mf \<noteq> []"
    and b: "content_at (blobKey (PtSHA256 mf)) (WFs w) = Some body" "valid_key (blobKey (PtSHA256 mf))"
    and q: "validRemotePath (RemotePath (QIntent q))" "IKind (QIntent q) = IntentArtifact" "WantChecksum (QIntent q) = []"
      "manifestKey (QFeed q) (QIntent q) = mkey"
  shows "\<exists>res. Serve p (Suc n) q w = Some (Inr res, tick (tick w)) \<and> VBody res = body \<and> VSize res = int (length body) \<and>
    VSHA256 res = PtSHA256 mf \<and> VSource res = SourceCache"
proof -
  obtain i1 where g1: "do_Get p mkey w = Some (Inr (raw, i1), tick w)" using do_Get_works [of p w mkey raw] os m by auto
  have cap: "readAllCapped raw (2 ^ 20) = Some raw" using m(3) by (simp add: readAllCapped_def)
  have load: "loadManifest p mkey w = Some (Inr mf, tick w)"
    unfolding loadManifest_def seq_def handle_def g1 using cap d by (simp add: ret_def)
  have "WFs (tick w) = WFs w" by (simp add: tick_def)
  with b obtain i2 where g2: "do_Get p (blobKey (PtSHA256 mf)) (tick w) = Some (Inr (body, i2), tick (tick w))" "ISize i2 = int (length body)"
    using do_Get_works [of p "tick w" "blobKey (PtSHA256 mf)" body] os by auto
  have "\<exists>res. artifactResult p q mf SourceCache (tick w) = Some (Inr res, tick (tick w)) \<and> VBody res = body \<and> VSize res = int (length body) \<and>
      VSHA256 res = PtSHA256 mf \<and> VSource res = SourceCache"
    unfolding artifactResult_def openBlob_def seq_def handle_def using q(3) g2 by (simp add: ret_def g2(1))
  then show ?thesis
    using q load by (auto simp: serve_once_def serveArtifact_def handle_def Let_def ret_def)
qed


definition example_download :: intent_request where
  "example_download =
     (example_request IntentArtifact [])\<lparr>QFeed := example_hosted_feed, QIntent := (QIntent (example_request IntentArtifact []))\<lparr>RemotePath := ''n/1''\<rparr>\<rparr>"

lemma example_publication:
  "fst (publisher_Publish example_publish_env (example_upload example_hosted_feed example_put_request) example_desk) = Inr (True, ''abc'') \<and>
   content_at (blobKey ''abc'') (WsFs example_desk) = Some ''abc'' \<and>
   fst (writeProjection example_publish_env (stamped 1 (WsDb example_desk) (example_upload example_hosted_feed example_put_request)) 4 (WsFs example_desk)) = Inr ()"
  by code_simp


end
