(* ===== verification/Projection_Repair.thy ===== *)
theory Projection_Repair
  imports Publish_Roundtrip Repl_Snapshot
begin

text \<open>
  The loop that keeps the manifests on disk in step with the rows of the database, \<^verbatim>\<open>core/pipeline/repair.go\<close>, and the writer
  it shares with replication.  The database is an argument: the n-th operation sees the n-th of its states.
\<close>

definition HostedRow :: "string \<Rightarrow> string \<Rightarrow> db \<Rightarrow> (string \<times> hosted_row) option" where
  "HostedRow feed path d =
     (case ListHosted feed path d of [] \<Rightarrow> None | ((f, p), r) # _ \<Rightarrow> if p = path then Some (f, r) else None)"

definition replicated_manifest :: "int \<Rightarrow> hosted_row \<Rightarrow> manifest" where
  "replicated_manifest now r =
     \<lparr>PtSHA256 = HSHA256 r, PtSize = HSize r, PtChecksums = HChecksums r, PtCoordinate = [], PtIngestedAt = now,
      PtOrigin = ''replication'', PtSite = HSite r, PtPublisher = HPublishedBy r, PtMetadata = HMetadata r\<rparr>"

definition projection_key :: "string \<Rightarrow> string \<Rightarrow> string" where
  "projection_key feed path = ''manifests/'' @ feed @ ''/'' @ path"

definition WriteReplicatedManifest :: "publish_env \<Rightarrow> nat \<Rightarrow> string \<Rightarrow> string \<Rightarrow> hosted_row \<Rightarrow> fs \<Rightarrow> (api_error + unit) \<times> fs" where
  "WriteReplicatedManifest env t feed path r s =
     (if \<not> validRemotePath path then (Inl NotFoundErr, s)
      else if feed = [] \<or> CHR ''/'' \<in> set feed \<or> CHR 0x5C \<in> set feed then (Inl BadRequestErr, s)
      else (case store_Put (PeHash env) (PeOs env t) (PeClock env t) (projection_key feed path)
                   (PeEncode env (replicated_manifest (PeClock env t) r)) \<lparr>PSHA256 = [], PSize = 0, PContentType = []\<rparr> s of
              (Inl e, s) \<Rightarrow> (Inl (of_store_error e), s)
            | (Inr _, s) \<Rightarrow> (Inr (), s)))"

definition projectionMatches :: "publish_env \<Rightarrow> (string \<Rightarrow> manifest option) \<Rightarrow> nat \<Rightarrow> string \<Rightarrow> string \<Rightarrow> hosted_row \<Rightarrow> fs \<Rightarrow> bool option" where
  "projectionMatches env decode t feed path r s =
     (case store_Get (PeOs env t) (projection_key feed path) s of
        Inl SNotFound \<Rightarrow> Some False
      | Inl _ \<Rightarrow> None
      | Inr (raw, _) \<Rightarrow>
          (case decode raw of None \<Rightarrow> Some False | Some m \<Rightarrow> Some (PtSHA256 m = HSHA256 r \<and> PtSize m = HSize r)))"

record repair_state =
  RpFs :: fs
  RpTick :: nat
  RpDivergent :: nat
  RpRepaired :: nat
  RpFailed :: nat

definition repair_failed :: "repair_state \<Rightarrow> repair_state" where
  "repair_failed st = st\<lparr>RpFailed := Suc (RpFailed st)\<rparr>"

definition repair_row ::
  "publish_env \<Rightarrow> (string \<Rightarrow> manifest option) \<Rightarrow> (nat \<Rightarrow> db) \<Rightarrow> (string \<times> string) \<times> hosted_row \<Rightarrow> repair_state \<Rightarrow> repair_state" where
  "repair_row env decode dbs x st =
     (case x of ((feed, path), row) \<Rightarrow>
        let t = RpTick st; st = st\<lparr>RpTick := t + 3\<rparr>
        in case projectionMatches env decode t feed path row (RpFs st) of
             None \<Rightarrow> repair_failed st
           | Some True \<Rightarrow> st
           | Some False \<Rightarrow>
               let st = st\<lparr>RpDivergent := Suc (RpDivergent st)\<rparr>
               in if \<not> PeDb env (t + 1) then repair_failed st
                  else (case HostedRow feed path (dbs (t + 1)) of
                          None \<Rightarrow> st
                        | Some (f, current) \<Rightarrow>
                            if HSHA256 current \<noteq> HSHA256 row then st
                            else (case WriteReplicatedManifest env (t + 2) f path current (RpFs st) of
                                    (Inl _, s) \<Rightarrow> repair_failed (st\<lparr>RpFs := s\<rparr>)
                                  | (Inr _, s) \<Rightarrow> st\<lparr>RpFs := s, RpRepaired := Suc (RpRepaired st)\<rparr>)))"

text \<open>A pass: whether it ended without an error, and what it left and counted.\<close>

definition RepairOnce :: "publish_env \<Rightarrow> (string \<Rightarrow> manifest option) \<Rightarrow> (nat \<Rightarrow> db) \<Rightarrow> nat \<Rightarrow> fs \<Rightarrow> bool \<times> repair_state" where
  "RepairOnce env decode dbs t s =
     (let st = \<lparr>RpFs = s, RpTick = Suc t, RpDivergent = 0, RpRepaired = 0, RpFailed = 0\<rparr>
      in if \<not> PeEnabled env then (True, st)
         else if \<not> PeDb env t then (False, st)
         else let st = fold (repair_row env decode dbs) (ListHosted [] [] (dbs t)) st in (RpFailed st = 0, st))"

definition repair_interval :: "int \<Rightarrow> int" where
  "repair_interval interval = (if interval \<le> 0 then 300000000000 else interval)"

subsection \<open>Reading one row\<close>

definition like_plain :: "string \<Rightarrow> bool" where
  "like_plain p \<longleftrightarrow> CHR ''%'' \<notin> set p \<and> CHR ''_'' \<notin> set p \<and> CHR 0x5C \<notin> set p"

lemma sql_like_any: "sql_like ''%'' s"
proof -
  have "sql_like [] (drop (length s) s)" by simp
  then have "\<exists>k \<in> set [0..<Suc (length s)]. sql_like [] (drop k s)" by (intro bexI [of _ "length s"]) simp_all
  then show ?thesis by (simp only: sql_like.simps list_ex_iff if_True simp_thms)
qed

lemma sql_like_plain: "like_plain p \<Longrightarrow> sql_like (p @ ''%'') s \<longleftrightarrow> prefix p s"
proof (induction p arbitrary: s)
  case Nil
  show ?case using sql_like_any [of s] by simp
next
  case (Cons c p)
  then show ?case by (cases s) (auto simp: like_plain_def)
qed

lemma prefix_le: "prefix p s \<Longrightarrow> (p :: string) \<le> s"
proof (induction p arbitrary: s)
  case (Cons c p)
  then show ?case by (cases s) auto
qed simp

lemma listing_sorted: "sorted (map fst (listing m))"
  by (simp add: listing_def comp_def)

lemma first_listed:
  assumes "x \<in> set (filter P (listing m))" and "\<And>y. y \<in> set (listing m) \<Longrightarrow> P y \<Longrightarrow> fst x \<le> fst y"
  shows "\<exists>ys. filter P (listing m) = x # ys"
proof -
  obtain y ys where f: "filter P (listing m) = y # ys" using assms(1) by (cases "filter P (listing m)") auto
  have y: "y \<in> set (listing m)" "P y" using arg_cong [OF f, of set] by auto
  have "sorted (map fst (filter P (listing m)))" by (intro sorted_filter listing_sorted)
  then have "fst y \<le> fst x" using assms(1) f by auto
  then have "fst x = fst y" using assms(2) [OF y] by simp
  moreover have "inj_on fst (set (listing m))" using listing_distinct [of m] by (simp add: distinct_map)
  moreover have "x \<in> set (listing m)" using assms(1) by simp
  ultimately have "x = y" using y(1) by (blast dest: inj_onD)
  then show ?thesis using f by blast
qed

lemma ListHosted_all: "ListHosted [] [] d = listing (hosted_manifests d)"
  using sql_like_any by (simp add: ListHosted_def filter_id_conv split: prod.splits)

lemma HostedRow_plain:
  assumes "finite (dom (hosted_manifests d))" and "hosted_manifests d (feed, path) = Some r" and "feed \<noteq> []" and "like_plain path"
  shows "HostedRow feed path d = Some (feed, r)"
proof -
  let ?P = "\<lambda>((f, p), _). (feed = [] \<or> f = feed) \<and> sql_like (path @ ''%'') p"
  have "\<exists>ys. filter ?P (listing (hosted_manifests d)) = ((feed, path), r) # ys"
  proof (rule first_listed)
    show "((feed, path), r) \<in> set (filter ?P (listing (hosted_manifests d)))"
      using assms listing_entries [OF assms(1)] by (simp add: sql_like_plain)
    show "fst ((feed, path), r) \<le> fst y" if "y \<in> set (listing (hosted_manifests d))" "?P y" for y
      using that assms(3,4) prefix_le by (auto simp: sql_like_plain split: prod.splits)
  qed
  then show ?thesis by (auto simp: HostedRow_def ListHosted_def)
qed

subsection \<open>What a pass leaves behind\<close>

definition agrees :: "(string \<Rightarrow> manifest option) \<Rightarrow> fs \<Rightarrow> string \<Rightarrow> string \<Rightarrow> hosted_row \<Rightarrow> bool" where
  "agrees decode s feed path r \<longleftrightarrow>
     (\<exists>raw m. content_at (projection_key feed path) s = Some raw \<and> decode raw = Some m \<and> PtSHA256 m = HSHA256 r \<and> PtSize m = HSize r)"

lemma projection_key_inj:
  assumes "CHR ''/'' \<notin> set f" and "CHR ''/'' \<notin> set f'" and "projection_key f p = projection_key f' p'"
  shows "f = f' \<and> p = p'"
proof -
  have "f @ CHR ''/'' # p = f' @ CHR ''/'' # p'" using assms(3) by (simp add: projection_key_def)
  then show ?thesis using assms(1,2) by (auto simp: append_eq_append_conv2 Cons_eq_append_conv append_eq_Cons_conv)
qed

lemma written_content:
  "WriteReplicatedManifest env t f p r s = (res, s') \<Longrightarrow>
   content_at k s' = (if res = Inr () \<and> k = projection_key f p then Some (PeEncode env (replicated_manifest (PeClock env t) r)) else content_at k s)"
  by (auto simp: WriteReplicatedManifest_def split: if_splits sum.splits prod.splits dest!: content_at_Put [where k = k])

lemma HostedRow_found: "HostedRow feed path d = Some (f, r) \<Longrightarrow> finite (dom (hosted_manifests d)) \<Longrightarrow>
   hosted_manifests d (f, path) = Some r \<and> (feed \<noteq> [] \<longrightarrow> f = feed)"
proof -
  assume h: "HostedRow feed path d = Some (f, r)" and fin: "finite (dom (hosted_manifests d))"
  from h obtain ys where "ListHosted feed path d = ((f, path), r) # ys" by (auto simp: HostedRow_def split: list.splits if_splits)
  then have "((f, path), r) \<in> set (ListHosted feed path d)" by simp
  then show ?thesis using listing_entries [OF fin] by (auto simp: ListHosted_def)
qed

lemma repair_row_simps [simp]: "RpFs (repair_failed st) = RpFs st" "RpFailed (repair_failed st) = Suc (RpFailed st)"
  by (simp_all add: repair_failed_def)

text \<open>The only write of a step: the row found in the database then, under its own key.\<close>

lemma repair_row_effect:
  assumes "repair_row env decode dbs ((feed, path), row) st = st'"
  shows "(\<forall>k. content_at k (RpFs st') = content_at k (RpFs st)) \<or>
     (\<exists>f r. HostedRow feed path (dbs (RpTick st + 1)) = Some (f, r) \<and> HSHA256 r = HSHA256 row \<and> RpFailed st' = RpFailed st \<and>
        (\<forall>k. content_at k (RpFs st') =
           (if k = projection_key f path then Some (PeEncode env (replicated_manifest (PeClock env (RpTick st + 2)) r)) else content_at k (RpFs st))))"
proof (cases "HostedRow feed path (dbs (RpTick st + 1))")
  case None
  then show ?thesis using assms by (auto simp: repair_row_def Let_def split: option.splits bool.splits if_splits)
next
  case (Some x)
  obtain f r where x: "x = (f, r)" by (cases x)
  obtain res s where w: "WriteReplicatedManifest env (RpTick st + 2) f path r (RpFs st) = (res, s)" by (metis surj_pair)
  show ?thesis using assms Some written_content [OF w]
    by (auto simp: repair_row_def Let_def x w [simplified] split: option.splits bool.splits if_splits sum.splits)
qed

lemma repair_row_failed: "RpFailed st \<le> RpFailed (repair_row env decode dbs x st)"
  by (auto simp: repair_row_def Let_def repair_failed_def split: prod.splits option.splits bool.splits sum.splits)

lemma repair_failed_mono: "RpFailed st \<le> RpFailed (fold (repair_row env decode dbs) xs st)"
  by (induction xs arbitrary: st) (auto intro: order_trans [OF repair_row_failed])

definition keeps_identity :: "(string \<Rightarrow> manifest option) \<Rightarrow> publish_env \<Rightarrow> bool" where
  "keeps_identity decode env \<longleftrightarrow>
     (\<forall>m. \<exists>m'. decode (PeEncode env m) = Some m' \<and> PtSHA256 m' = PtSHA256 m \<and> PtSize m' = PtSize m)"

lemma projectionMatches_agrees: "projectionMatches env decode t feed path r s = Some True \<Longrightarrow> agrees decode s feed path r"
  by (auto simp: projectionMatches_def agrees_def split: sum.splits store_error.splits option.splits prod.splits dest!: store_Get_content)

lemma repair_row_agrees:
  assumes d: "finite (dom (hosted_manifests d))" "hosted_manifests d (feed, path) = Some row" "feed \<noteq> []" "like_plain path"
    and c: "keeps_identity decode env" and ok: "RpFailed (repair_row env decode (\<lambda>_. d) ((feed, path), row) st) = RpFailed st"
  shows "agrees decode (RpFs (repair_row env decode (\<lambda>_. d) ((feed, path), row) st)) feed path row"
proof (cases "projectionMatches env decode (RpTick st) feed path row (RpFs st)")
  case None
  then show ?thesis using ok by (simp add: repair_row_def)
next
  case (Some b)
  note h = HostedRow_plain [OF d]
  obtain res s where w: "WriteReplicatedManifest env (RpTick st + 2) feed path row (RpFs st) = (res, s)" by (metis surj_pair)
  show ?thesis
  proof (cases b)
    case True
    then show ?thesis using Some projectionMatches_agrees [of env decode "RpTick st" feed path row "RpFs st"] by (simp add: repair_row_def)
  next
    case False
    have up: "PeDb env (RpTick st + 1)" using ok Some False by (auto simp: repair_row_def Let_def split: if_splits)
    have r: "res = Inr ()" using ok Some False up h w [simplified] by (cases res) (auto simp: repair_row_def Let_def)
    have "RpFs (repair_row env decode (\<lambda>_. d) ((feed, path), row) st) = s"
      using Some False up h w [simplified] r by (simp add: repair_row_def Let_def)
    moreover obtain m where "decode (PeEncode env (replicated_manifest (PeClock env (RpTick st + 2)) row)) = Some m"
        "PtSHA256 m = HSHA256 row" "PtSize m = HSize row"
      using c unfolding keeps_identity_def by (metis manifest.select_convs(1,2) replicated_manifest_def)
    ultimately show ?thesis using written_content [OF w, of "projection_key feed path"] r by (auto simp: agrees_def)
  qed
qed

text \<open>What a site's rows look like: feeds named as the configuration allows, and nothing in the paths that \<^verbatim>\<open>LIKE\<close> reads as a wildcard.\<close>

definition tidy_rows :: "db \<Rightarrow> bool" where
  "tidy_rows d \<longleftrightarrow> finite (dom (hosted_manifests d)) \<and>
     (\<forall>(feed, path) \<in> dom (hosted_manifests d). feed \<noteq> [] \<and> CHR ''/'' \<notin> set feed \<and> like_plain path)"

lemma repair_row_other:
  assumes "tidy_rows d" and "hosted_manifests d (f, p) = Some row" "hosted_manifests d (f', p') = Some row'" and "(f, p) \<noteq> (f', p')"
  shows "content_at (projection_key f p) (RpFs (repair_row env decode (\<lambda>_. d) ((f', p'), row') st)) = content_at (projection_key f p) (RpFs st)"
proof -
  have names: "CHR ''/'' \<notin> set f" "CHR ''/'' \<notin> set f'" "f' \<noteq> []" "finite (dom (hosted_manifests d))"
    using assms(1-3) by (auto simp: tidy_rows_def)
  have "projection_key g p' \<noteq> projection_key f p" if "HostedRow f' p' d = Some (g, r)" for g r
    using HostedRow_found [OF that names(4)] names projection_key_inj [of f g p p'] assms(4) by auto
  then show ?thesis using repair_row_effect [of env decode "\<lambda>_. d" f' p' row' st, OF refl] by metis
qed

lemma repaired_rows:
  assumes "tidy_rows d" and "keeps_identity decode env" and "distinct (map fst xs)"
    and "\<forall>(k, r) \<in> set xs. hosted_manifests d k = Some r"
    and "RpFailed (fold (repair_row env decode (\<lambda>_. d)) xs st) = RpFailed st" and "((f, p), row) \<in> set xs"
  shows "agrees decode (RpFs (fold (repair_row env decode (\<lambda>_. d)) xs st)) f p row"
  using assms(3-)
proof (induction xs rule: rev_induct)
  case (snoc x xs)
  let ?st = "fold (repair_row env decode (\<lambda>_. d)) xs st"
  obtain f' p' row' where x: "x = ((f', p'), row')" by (metis surj_pair)
  have "RpFailed (repair_row env decode (\<lambda>_. d) x ?st) = RpFailed st" using snoc.prems(3) by simp
  then have ok: "RpFailed ?st = RpFailed st" "RpFailed (repair_row env decode (\<lambda>_. d) x ?st) = RpFailed ?st"
    using repair_failed_mono [of st env decode "\<lambda>_. d" xs] repair_row_failed [of ?st env decode "\<lambda>_. d" x] by linarith+
  have row': "hosted_manifests d (f', p') = Some row'" using snoc.prems(2) x by auto
  show ?case
  proof (cases "((f, p), row) = x")
    case True
    have "finite (dom (hosted_manifests d))" "f' \<noteq> []" "like_plain p'" using assms(1) row' by (auto simp: tidy_rows_def)
    then show ?thesis using repair_row_agrees [of d f' p' row' decode env ?st] row' assms(2) ok(2) True x by simp
  next
    case False
    then have m: "((f, p), row) \<in> set xs" using snoc.prems(4) by auto
    have "fst x \<notin> fst ` set xs" using snoc.prems(1) by simp
    then have "(f, p) \<noteq> (f', p')" using m x by force
    moreover have "agrees decode (RpFs ?st) f p row" using snoc m ok(1) by auto
    ultimately show ?thesis using repair_row_other [OF assms(1) _ row', of f p row env decode ?st] snoc.prems(2) m x by (auto simp: agrees_def)
  qed
qed simp


text \<open>A manifest that a pass wrote: the row as the database had it after the pass had seen the same digest in its listing.\<close>

definition current_write :: "publish_env \<Rightarrow> (nat \<Rightarrow> db) \<Rightarrow> ((string \<times> string) \<times> hosted_row) list \<Rightarrow> string \<Rightarrow> string option \<Rightarrow> bool" where
  "current_write env dbs rows k c \<longleftrightarrow>
     (\<exists>feed path row f r n now. ((feed, path), row) \<in> set rows \<and> HostedRow feed path (dbs n) = Some (f, r) \<and> HSHA256 r = HSHA256 row \<and>
        k = projection_key f path \<and> c = Some (PeEncode env (replicated_manifest now r)))"

lemma repair_fold_effect:
  "content_at k (RpFs (fold (repair_row env decode dbs) xs st)) = content_at k (RpFs st) \<or>
   current_write env dbs xs k (content_at k (RpFs (fold (repair_row env decode dbs) xs st)))"
proof (induction xs rule: rev_induct)
  case (snoc x xs)
  let ?st = "fold (repair_row env decode dbs) xs st"
  obtain feed path row where x: "x = ((feed, path), row)" by (metis surj_pair)
  have grow: "current_write env dbs xs k c \<Longrightarrow> current_write env dbs (xs @ [x]) k c" for c by (auto simp: current_write_def) blast
  have new: "current_write env dbs (xs @ [x]) k (content_at k (RpFs (repair_row env decode dbs x ?st)))"
    if "content_at k (RpFs (repair_row env decode dbs x ?st)) \<noteq> content_at k (RpFs ?st)"
  proof -
    from repair_row_effect [of env decode dbs feed path row ?st, OF refl] that obtain f r
      where h: "HostedRow feed path (dbs (RpTick ?st + 1)) = Some (f, r)" "HSHA256 r = HSHA256 row"
        and c: "content_at k (RpFs (repair_row env decode dbs x ?st)) =
           (if k = projection_key f path then Some (PeEncode env (replicated_manifest (PeClock env (RpTick ?st + 2)) r)) else content_at k (RpFs ?st))"
      unfolding x by metis
    have "k = projection_key f path" using c that by metis
    moreover have "((feed, path), row) \<in> set (xs @ [x])" by (simp add: x)
    ultimately show ?thesis using h c unfolding current_write_def by (intro exI conjI; (rule refl | assumption | simp))
  qed
  have f: "fold (repair_row env decode dbs) (xs @ [x]) st = repair_row env decode dbs x ?st" by simp
  show ?case
  proof (cases "content_at k (RpFs (repair_row env decode dbs x ?st)) = content_at k (RpFs ?st)")
    case True
    show ?thesis unfolding f True using snoc grow by blast
  next
    case False
    show ?thesis unfolding f using new [OF False] ..
  qed
qed simp


text \<open>
  A row is never repaired when another row of the feed, first in the order of paths, matches its path read as a \<^verbatim>\<open>LIKE\<close> pattern:
  the row is asked for with a limit of one, the other one comes back and the loop takes the row to be gone.
\<close>

lemma HostedRow_shadowed:
  assumes "finite (dom (hosted_manifests d))" and "hosted_manifests d (feed, other) = Some r" and "feed \<noteq> []"
    and "sql_like (path @ ''%'') other" and "other < path"
  shows "HostedRow feed path d = None"
proof -
  let ?P = "\<lambda>((f, p), _). (feed = [] \<or> f = feed) \<and> sql_like (path @ ''%'') p"
  have o: "((feed, other), r) \<in> set (filter ?P (listing (hosted_manifests d)))" using assms listing_entries [OF assms(1)] by simp
  then obtain f p y ys where l: "filter ?P (listing (hosted_manifests d)) = ((f, p), y) # ys"
    by (cases "filter ?P (listing (hosted_manifests d))") auto
  have "sorted (map fst (filter ?P (listing (hosted_manifests d))))" by (intro sorted_filter listing_sorted)
  then have "(f, p) \<le> (feed, other)" using o l by auto
  moreover have "((f, p), y) \<in> set (filter ?P (listing (hosted_manifests d)))" using l by simp
  then have "f = feed" using assms(3) by auto
  ultimately have "p \<noteq> path" using assms(5) by auto
  then show ?thesis using l by (simp add: HostedRow_def ListHosted_def)
qed

theorem repair_overlooks_shadowed_rows:
  assumes "RepairOnce env decode (\<lambda>_. d) t s = (ok, st)" and "finite (dom (hosted_manifests d))"
    and "\<And>f p. (f, p) \<in> dom (hosted_manifests d) \<Longrightarrow> f \<noteq> [] \<and> CHR ''/'' \<notin> set f"
    and "(feed, path) \<in> dom (hosted_manifests d)" "(feed, other) \<in> dom (hosted_manifests d)" "sql_like (path @ ''%'') other" "other < path"
  shows "content_at (projection_key feed path) (RpFs st) = content_at (projection_key feed path) s"
proof (rule ccontr)
  assume changed: "\<not> ?thesis"
  let ?rows = "listing (hosted_manifests d)" and ?k = "projection_key feed path"
  have "current_write env (\<lambda>_. d) ?rows ?k (content_at ?k (RpFs st))"
    using assms(1) changed
      repair_fold_effect [of ?k env decode "\<lambda>_. d" ?rows "\<lparr>RpFs = s, RpTick = Suc t, RpDivergent = 0, RpRepaired = 0, RpFailed = 0\<rparr>"]
    by (auto simp: RepairOnce_def Let_def ListHosted_all split: if_splits)
  then obtain f0 p0 row0 f r where c: "((f0, p0), row0) \<in> set ?rows" "HostedRow f0 p0 d = Some (f, r)" "?k = projection_key f p0"
    unfolding current_write_def by blast
  have "(f0, p0) \<in> dom (hosted_manifests d)" using c(1) listing_entries [OF assms(2)] by auto
  then have "f = f0" "CHR ''/'' \<notin> set f0" using HostedRow_found [OF c(2) assms(2)] assms(3) by auto
  then have "HostedRow feed path d = Some (f, r)" using c assms(3,4) projection_key_inj [of feed f path p0] by auto
  then show False using HostedRow_shadowed [of d feed other _ path] assms by auto
qed

subsection \<open>An example\<close>

definition example_row :: "string \<Rightarrow> hosted_row" where
  "example_row sha =
     \<lparr>HCoordinate = ''g:n'', HSHA256 = sha, HSize = 3, HChecksums = [], HMetadata = [], HMutable = False, HOrigin = ''publish'', HSite = ''ams'', HPublishedBy = ''ci''\<rparr>"

definition example_rows :: db where
  "example_rows = empty_db\<lparr>hosted_manifests := [(''f'', ''n-1'') \<mapsto> example_row ''abc'']\<rparr>"

definition example_encode :: "manifest \<Rightarrow> string" where
  "example_encode m = (if PtSize m < 0 then CHR ''-'' else CHR ''+'') # replicate (nat \<bar>PtSize m\<bar>) CHR ''1'' @ CHR '':'' # PtSHA256 m"

definition example_decode :: "string \<Rightarrow> manifest option" where
  "example_decode raw =
     (case raw of
        [] \<Rightarrow> None
      | c # r \<Rightarrow>
          let n = int (length (takeWhile (\<lambda>x. x = CHR ''1'') r))
          in Some ((replicated_manifest 0 (example_row (tl (dropWhile (\<lambda>x. x = CHR ''1'') r))))\<lparr>PtSize := (if c = CHR ''-'' then - n else n)\<rparr>))"

definition example_repair_env :: publish_env where
  "example_repair_env = example_publish_env\<lparr>PeEncode := example_encode\<rparr>"

lemma example_keeps_identity: "keeps_identity example_decode example_repair_env"
  by (simp add: keeps_identity_def example_repair_env_def example_decode_def example_encode_def replicated_manifest_def example_row_def Let_def
      takeWhile_append dropWhile_append)

lemma example_tidy: "tidy_rows example_rows"
  by (simp add: tidy_rows_def example_rows_def empty_db_def like_plain_def)

lemma example_listing: "listing (hosted_manifests example_rows) = [((''f'', ''n-1''), example_row ''abc'')]"
  by (simp add: listing_def example_rows_def empty_db_def)

lemma example_row_step:
  "case repair_row example_repair_env example_decode (\<lambda>_. example_rows) ((''f'', ''n-1''), example_row ''abc'')
     \<lparr>RpFs = empty_fs, RpTick = 1, RpDivergent = 0, RpRepaired = 0, RpFailed = 0\<rparr> of
   st \<Rightarrow> RpFailed st = 0 \<and> content_at (projection_key ''f'' ''n-1'') (RpFs st) = Some ''+111:abc''"
proof -
  have h: "HostedRow ''f'' ''n-1'' example_rows = Some (''f'', example_row ''abc'')"
    by (rule HostedRow_plain) (simp_all add: example_rows_def empty_db_def like_plain_def)
  have w: "case WriteReplicatedManifest example_repair_env 3 ''f'' ''n-1'' (example_row ''abc'') empty_fs of
      (res, s) \<Rightarrow> res = Inr () \<and> content_at (projection_key ''f'' ''n-1'') s = Some ''+111:abc''"
    by code_simp
  have m: "projectionMatches example_repair_env example_decode 1 ''f'' ''n-1'' (example_row ''abc'') empty_fs = Some False" by code_simp
  show ?thesis using w m h by (simp add: repair_row_def Let_def example_repair_env_def example_publish_env_def numeral_3_eq_3 split: prod.splits)
qed

lemma example_pass:
  "\<exists>st. RepairOnce example_repair_env example_decode (\<lambda>_. example_rows) 0 empty_fs = (True, st) \<and>
     content_at (projection_key ''f'' ''n-1'') (RpFs st) = Some ''+111:abc''"
proof -
  have "ListHosted [] [] example_rows = [((''f'', ''n-1''), example_row ''abc'')]" by (simp only: ListHosted_all example_listing)
  moreover have "PeEnabled example_repair_env" "PeDb example_repair_env 0" by (simp_all add: example_repair_env_def example_publish_env_def)
  ultimately show ?thesis using example_row_step by (simp add: RepairOnce_def Let_def)
qed



text \<open>Two packages whose names differ in a dash and an underscore.\<close>

theorem repair_overlooks_shadowed_rows_witness:
  "\<forall>st ok. RepairOnce example_repair_env example_decode
       (\<lambda>_. empty_db\<lparr>hosted_manifests := [(''f'', ''a-b'') \<mapsto> example_row ''1'', (''f'', ''a_b'') \<mapsto> example_row ''2'']\<rparr>) 0 empty_fs = (ok, st) \<longrightarrow>
     content_at (projection_key ''f'' ''a_b'') (RpFs st) = None"
proof (intro allI impI)
  fix st ok
  let ?d = "empty_db\<lparr>hosted_manifests := [(''f'', ''a-b'') \<mapsto> example_row ''1'', (''f'', ''a_b'') \<mapsto> example_row ''2'']\<rparr>"
  assume run: "RepairOnce example_repair_env example_decode (\<lambda>_. ?d) 0 empty_fs = (ok, st)"
  have like: "sql_like (''a_b'' @ ''%'') ''a-b''" "''a-b'' < ''a_b''" by code_simp+
  have "content_at (projection_key ''f'' ''a_b'') (RpFs st) = content_at (projection_key ''f'' ''a_b'') empty_fs"
    by (rule repair_overlooks_shadowed_rows [OF run _ _ _ _ like]) (auto split: if_splits)
  then show "content_at (projection_key ''f'' ''a_b'') (RpFs st) = None" by (simp add: content_at_def empty_fs_def)
qed

end
