(* ===== verification/Server_Read.thy ===== *)
theory Server_Read
  imports Publish_Path
begin

text \<open>
  The read side of the server: the quarantine cache (\<^verbatim>\<open>src/core/server/quarantine.go\<close>), the feed handler with
  its access checks, policies and redirects (\<^verbatim>\<open>src/core/server/http.go\<close>), and groups
  (\<^verbatim>\<open>src/core/server/group.go\<close>).  A response is a status, its headers and its body; the clock, the quarantine
  table and the pre-signing of storage URLs answer the n-th operation through an environment.  A step is
  \<open>None\<close> when the pipeline below did not return within its depth.
\<close>

subsection \<open>Responses\<close>

record answer =
  AnStatus :: int
  AnHeaders :: strmap
  AnBody :: string

definition SourceHeader :: string where "SourceHeader = ''X-Registry-Source''"
definition SiteHeader :: string where "SiteHeader = ''X-Registry-Site''"
definition GroupMemberHeader :: string where "GroupMemberHeader = ''X-Registry-Member''"
definition GroupMergedHeader :: string where "GroupMergedHeader = ''X-Registry-Merged''"

fun source_text :: "source \<Rightarrow> string" where
  "source_text SourceCache = ''cache''"
| "source_text SourceUpstream = ''upstream''"
| "source_text SourceStale = ''stale''"
| "source_text SourceLocal = ''local''"
| "source_text SourcePeer = ''peer''"

definition set_header :: "string \<Rightarrow> string \<Rightarrow> strmap \<Rightarrow> strmap" where
  "set_header name v h = (name, v) # filter (\<lambda>(n, _). n \<noteq> name) h"

lemma lookup_set_header [simp]: "lookup_text n (set_header name v h) = (if n = name then v else lookup_text n h)"
  by (induction h) (auto simp: set_header_def lookup_text_def)

fun error_text :: "api_error \<Rightarrow> string" where
  "error_text NotFoundErr = ''not found''"
| "error_text UnauthorizedErr = ''unauthorized''"
| "error_text ForbiddenErr = ''forbidden''"
| "error_text ChecksumMismatchErr = ''upstream artifact failed checksum verification''"
| "error_text UpstreamUnavailableErr = ''upstream unavailable and no cached copy''"
| "error_text UnavailableErr = ''temporarily unavailable''"
| "error_text ImmutableErr = ''published release is immutable''"
| "error_text QuarantinedErr = ''coordinate is quarantined''"
| "error_text BadRequestErr = ''bad request''"
| "error_text OtherErr = ''internal error''"

definition finishError :: "string \<Rightarrow> int \<Rightarrow> string \<Rightarrow> strmap \<Rightarrow> answer" where
  "finishError site status msg h =
     (let h = (if lookup_text SourceHeader h = [] then set_header SourceHeader (source_text SourceLocal) h else h);
          h = (if lookup_text SiteHeader h = [] then set_header SiteHeader site h else h);
          h = (if status = 401 then set_header ''WWW-Authenticate'' ''Basic realm=\"fondaco\", Bearer realm=\"fondaco\"'' h else h)
      in \<lparr>AnStatus = status, AnHeaders = set_header ''Content-Type'' ''text/plain; charset=utf-8'' h, AnBody = msg @ [CHR 0x0A]\<rparr>)"

definition writeError :: "string \<Rightarrow> api_error \<Rightarrow> string \<Rightarrow> strmap \<Rightarrow> answer" where
  "writeError site e detail h = finishError site (errorStatus e) (if detail = [] then error_text e else error_text e @ '': '' @ detail) h"

definition writeErrorText :: "string \<Rightarrow> api_error \<Rightarrow> string \<Rightarrow> strmap \<Rightarrow> answer" where
  "writeErrorText site e txt h = finishError site (errorStatus e) (if txt = [] then error_text e else txt) h"

definition writeAccessError :: "string \<Rightarrow> caller \<Rightarrow> decision \<Rightarrow> strmap \<Rightarrow> answer" where
  "writeAccessError site i d h =
     (if IsAnonymous (accessIdentity i) then writeError site UnauthorizedErr (Reason d) h else writeError site ForbiddenErr (Reason d) h)"

text \<open>The challenge a module declares replaces the default one on a 401.\<close>

definition withChallenge :: "string \<Rightarrow> answer \<Rightarrow> answer" where
  "withChallenge challenge a =
     (if challenge \<noteq> [] \<and> AnStatus a = 401 then a\<lparr>AnHeaders := set_header ''WWW-Authenticate'' challenge (AnHeaders a)\<rparr> else a)"

subsection \<open>Modules and feeds\<close>

record synthetic =
  SyStatus :: int
  SyHeader :: strmap
  SyBody :: string

record server_module =
  SmParse :: "http_request \<Rightarrow> (api_error \<times> string) + intent"
  SmSynthesize :: "(feed \<Rightarrow> intent \<Rightarrow> (api_error \<times> string) + synthetic) option"
  SmSearch :: "(nat \<Rightarrow> feed \<Rightarrow> intent \<Rightarrow> api_error + synthetic) option"
  SmMerger :: "((intent \<Rightarrow> bool) \<times> (feed \<Rightarrow> intent \<Rightarrow> (string \<times> string) list \<Rightarrow> api_error + string)) option"
  SmRedirectSafe :: "(intent \<Rightarrow> bool) option"
  SmHeaders :: "(feed \<Rightarrow> intent \<Rightarrow> string \<Rightarrow> strmap) option"
  SmChallenge :: "(feed \<Rightarrow> string) option"
  SmCredentials :: "string list"
  SmFormat :: format_module

record read_runtime = feed_runtime +
  RtModule :: server_module
  RtUpstream :: bool
  RtRedirect :: bool
  RtPeerFallback :: bool

text \<open>The answer to a query of the quarantine table.\<close>

datatype quarantine_reply = Unreachable | Servable | Withheld string string

record serving =
  SvEngine :: engine
  SvSite :: string
  SvPipe :: surroundings
  SvDepth :: nat
  SvPresign :: "(nat \<Rightarrow> string \<Rightarrow> string option) option"
  SvQuarantine :: "(nat \<Rightarrow> string \<Rightarrow> string \<Rightarrow> quarantine_reply) option"
  SvTTL :: int
  SvClock :: "nat \<Rightarrow> int"

record quarantine_entry =
  QeBlocked :: bool
  QeReason :: string
  QeExpires :: int

record server_world =
  SwPipe :: pipe_world
  SwUps :: "string \<Rightarrow> upstream"
  SwCache :: "(string \<times> quarantine_entry) list"
  SwTick :: nat

subsection \<open>Quarantine\<close>

definition maxQuarantineEntries :: nat where "maxQuarantineEntries = 8192"

text \<open>What a reply says of the tables: some active reason with its detail, or that there is none.\<close>

definition ActiveQuarantine :: "db \<Rightarrow> string \<Rightarrow> string \<Rightarrow> quarantine_reply \<Rightarrow> bool" where
  "ActiveQuarantine d feed coord reply =
     (case reply of
        Unreachable \<Rightarrow> True
      | Servable \<Rightarrow> (\<forall>reason row. quarantine d (feed, coord, reason) = Some row \<longrightarrow> QReleased row)
      | Withheld reason detail \<Rightarrow> (case quarantine d (feed, coord, reason) of None \<Rightarrow> False | Some row \<Rightarrow> \<not> QReleased row \<and> QDetail row = detail))"

definition cache_key :: "string \<Rightarrow> string \<Rightarrow> string" where
  "cache_key feed coord = feed @ [CHR 0x00] @ coord"

definition new_entry :: "quarantine_reply \<Rightarrow> int \<Rightarrow> quarantine_entry" where
  "new_entry reply expires =
     (case reply of
        Withheld reason detail \<Rightarrow>
          \<lparr>QeBlocked = True, QeReason = (if detail = [] then reason else reason @ '': '' @ detail), QeExpires = expires\<rparr>
      | _ \<Rightarrow> \<lparr>QeBlocked = False, QeReason = [], QeExpires = expires\<rparr>)"

definition remember :: "string \<Rightarrow> quarantine_entry \<Rightarrow> (string \<times> quarantine_entry) list \<Rightarrow> (string \<times> quarantine_entry) list" where
  "remember key e entries =
     (let entries = (if maxQuarantineEntries \<le> length entries then [] else entries)
      in (key, e) # filter (\<lambda>(k, _). k \<noteq> key) entries)"

definition Blocked :: "serving \<Rightarrow> string \<Rightarrow> string \<Rightarrow> server_world \<Rightarrow> (bool \<times> string) \<times> server_world" where
  "Blocked env feed coord w =
     (case SvQuarantine env of
        None \<Rightarrow> ((False, []), w)
      | Some lookup \<Rightarrow>
          let key = cache_key feed coord; cached = map_of (SwCache w) key; t = SwTick w; w = w\<lparr>SwTick := t + 3\<rparr>
          in if (case cached of None \<Rightarrow> False | Some e \<Rightarrow> SvClock env t < QeExpires e)
             then ((QeBlocked (the cached), QeReason (the cached)), w)
             else (case lookup (t + 1) feed coord of
                     Unreachable \<Rightarrow> ((case cached of None \<Rightarrow> (False, []) | Some e \<Rightarrow> (QeBlocked e, QeReason e)), w)
                   | reply \<Rightarrow>
                       let e = new_entry reply (SvClock env (t + 2) + SvTTL env)
                       in ((QeBlocked e, QeReason e), w\<lparr>SwCache := remember key e (SwCache w)\<rparr>)))"

definition quarantine_ttl :: "int \<Rightarrow> int" where
  "quarantine_ttl ttl = (if ttl \<le> 0 then 30000000000 else ttl)"

subsection \<open>Serving\<close>

type_synonym 'a step = "server_world \<Rightarrow> ('a \<times> server_world) option"

definition of_pipe_error :: "pipe_error \<Rightarrow> api_error" where
  "of_pipe_error e =
     (case e of ENotFound \<Rightarrow> NotFoundErr | EChecksumMismatch \<Rightarrow> ChecksumMismatchErr
      | EUpstreamUnavailable \<Rightarrow> UpstreamUnavailableErr | EOther \<Rightarrow> OtherErr)"

text \<open>The pipeline for one feed, with that feed's own upstream.\<close>

definition serve_feed :: "serving \<Rightarrow> read_runtime \<Rightarrow> intent \<Rightarrow> (api_error + served) step" where
  "serve_feed env fr q w =
     (let name = FeedName (RtFeed fr)
      in case Serve ((SvPipe env)\<lparr>Module := SmFormat (RtModule fr)\<rparr>) (SvDepth env)
                \<lparr>QFeed = RtFeed fr, QIntent = q, QUpstream = RtUpstream fr, QPeerFallback = RtPeerFallback fr\<rparr>
                ((SwPipe w)\<lparr>WUp := SwUps w name\<rparr>) of
           None \<Rightarrow> None
         | Some (r, pw) \<Rightarrow>
             Some (case r of Inl e \<Rightarrow> Inl (of_pipe_error e) | Inr res \<Rightarrow> Inr res,
                   w\<lparr>SwPipe := pw, SwUps := (SwUps w)(name := WUp pw)\<rparr>))"

definition responseContentType :: "intent \<Rightarrow> string \<Rightarrow> string" where
  "responseContentType q recorded =
     (if IMediaType q \<noteq> [] then IMediaType q else if recorded \<noteq> [] then recorded else ''application/octet-stream'')"

definition setProtocolHeaders :: "server_module \<Rightarrow> feed \<Rightarrow> intent \<Rightarrow> string \<Rightarrow> strmap \<Rightarrow> strmap" where
  "setProtocolHeaders m feed q sha h =
     (case SmHeaders m of
        None \<Rightarrow> h
      | Some f \<Rightarrow> fold (\<lambda>(name, v) h. if v \<noteq> [] then set_header name v h else h) (f feed q sha) h)"

definition writeSynthetic :: "string \<Rightarrow> synthetic \<Rightarrow> strmap \<Rightarrow> answer" where
  "writeSynthetic site r h =
     \<lparr>AnStatus = (if SyStatus r = 0 then 200 else SyStatus r),
      AnHeaders = set_header SiteHeader site (set_header SourceHeader (source_text SourceLocal) (fold (\<lambda>(k, v) h. set_header k v h) (SyHeader r) h)),
      AnBody = SyBody r\<rparr>"

definition serveSynthetic :: "string \<Rightarrow> read_runtime \<Rightarrow> intent \<Rightarrow> strmap \<Rightarrow> answer" where
  "serveSynthetic site fr q h =
     (case SmSynthesize (RtModule fr) of
        None \<Rightarrow> writeError site OtherErr [] h
      | Some syn \<Rightarrow> (case syn (RtFeed fr) q of Inl (e, txt) \<Rightarrow> writeErrorText site e txt h | Inr r \<Rightarrow> writeSynthetic site r h))"

text \<open>A feed without an upstream answers its own searches; \<open>None\<close> leaves the question to the pipeline.\<close>

definition serveSearch :: "serving \<Rightarrow> read_runtime \<Rightarrow> intent \<Rightarrow> nat \<Rightarrow> strmap \<Rightarrow> answer option" where
  "serveSearch env fr q t h =
     (if IKind q \<noteq> IntentSearch \<or> \<not> RtHosted fr \<or> RtUpstream fr then None
      else (case SmSearch (RtModule fr) of
              None \<Rightarrow> None
            | Some search \<Rightarrow>
                Some (case search t (RtFeed fr) q of Inl e \<Rightarrow> writeError (SvSite env) e [] h | Inr r \<Rightarrow> writeSynthetic (SvSite env) r h)))"

text \<open>A redirect carries the location; the short text \<^verbatim>\<open>http.Redirect\<close> adds for browsers is left out.\<close>

definition tryRedirect :: "serving \<Rightarrow> read_runtime \<Rightarrow> string \<Rightarrow> intent \<Rightarrow> served \<Rightarrow> nat \<Rightarrow> strmap \<Rightarrow> answer option" where
  "tryRedirect env fr meth q res t h =
     (if \<not> RtRedirect fr \<or> VBlobKey res = [] \<or> meth \<noteq> ''GET'' then None
      else if (case SmRedirectSafe (RtModule fr) of None \<Rightarrow> True | Some safe \<Rightarrow> \<not> safe q) then None
      else (case SvPresign env of
              None \<Rightarrow> None
            | Some presign \<Rightarrow>
                (case presign t (VBlobKey res) of
                   None \<Rightarrow> None
                 | Some url \<Rightarrow>
                     Some \<lparr>AnStatus = 302,
                           AnHeaders = set_header ''Location'' url (set_header SiteHeader (SvSite env)
                                         (set_header SourceHeader (source_text (VSource res)) h)),
                           AnBody = []\<rparr>)))"

definition streamResult :: "serving \<Rightarrow> read_runtime \<Rightarrow> intent \<Rightarrow> served \<Rightarrow> strmap \<Rightarrow> answer" where
  "streamResult env fr q res h =
     (let h = set_header SiteHeader (SvSite env) (set_header SourceHeader (source_text (VSource res)) h);
          h = (if VSize res \<ge> 0 then set_header ''Content-Length'' (FormatInt (VSize res)) h else h);
          h = set_header ''Content-Type'' (responseContentType q (VContentType res)) h
      in \<lparr>AnStatus = 200, AnHeaders = setProtocolHeaders (RtModule fr) (RtFeed fr) q (VSHA256 res) h, AnBody = VBody res\<rparr>)"

definition artifactMetadata :: "serving \<Rightarrow> read_runtime \<Rightarrow> intent \<Rightarrow> strmap step" where
  "artifactMetadata env fr q w =
     (if IKind q \<noteq> IntentArtifact \<or> WantChecksum q \<noteq> [] then Some ([], w)
      else (case AsMetadataSource (SmFormat (RtModule fr)) of
              None \<Rightarrow> Some ([], w)
            | Some src \<Rightarrow>
                (case MetadataIntent src (RtFeed fr) (ICoord q) of
                   None \<Rightarrow> Some ([], w)
                 | Some mq \<Rightarrow>
                     (case serve_feed env fr mq w of
                        None \<Rightarrow> None
                      | Some (Inl _, w) \<Rightarrow> Some ([], w)
                      | Some (Inr res, w) \<Rightarrow>
                          Some (case ExtractMetadata src (ICoord q) (limit_reader 4194304 (VBody res)) of None \<Rightarrow> [] | Some m \<Rightarrow> m, w)))))"

definition artifact_of :: "intent \<Rightarrow> served \<Rightarrow> strmap \<Rightarrow> artifact" where
  "artifact_of q res m = \<lparr>ArtCoord = ICoord q, ArtSize = VSize res, ArtChecksum = \<lparr>Algo = ''sha256'', Hex = VSHA256 res\<rparr>, ArtMetadata = m\<rparr>"

text \<open>The chain of a feed once the caller may read the coordinate and it is not withheld.\<close>

definition serve_content :: "serving \<Rightarrow> read_runtime \<Rightarrow> caller \<Rightarrow> string \<Rightarrow> intent \<Rightarrow> answer step" where
  "serve_content env fr i meth q w =
     (case serve_feed env fr q w of
        None \<Rightarrow> None
      | Some (Inl e, w) \<Rightarrow> Some (writeError (SvSite env) e [] [], w)
      | Some (Inr res, w) \<Rightarrow>
          (case artifactMetadata env fr q w of
             None \<Rightarrow> None
           | Some (m, w) \<Rightarrow>
               let d = OnServe (RtChain fr) i (artifact_of q res m); t = SwTick w; w = w\<lparr>SwTick := Suc t\<rparr>
               in if \<not> PdAllow d then Some (writeError (SvSite env) ForbiddenErr (PdReason d) [], w)
                  else (case tryRedirect env fr meth q res t [] of
                          Some a \<Rightarrow> Some (a, w)
                        | None \<Rightarrow> Some (streamResult env fr q res [], w))))"

definition conflict_header :: "string \<Rightarrow> intent \<Rightarrow> strmap" where
  "conflict_header reason q =
     (if has_prefix reason ''cross_site_conflict'' then set_header ''X-Registry-Conflict'' (coord_String (ICoord q)) [] else [])"

definition feed_chain :: "serving \<Rightarrow> read_runtime \<Rightarrow> caller \<Rightarrow> http_request \<Rightarrow> answer step" where
  "feed_chain env fr i r w =
     (case SmParse (RtModule fr) r of
        Inl (e, txt) \<Rightarrow> Some (writeErrorText (SvSite env) e txt [], w)
      | Inr q \<Rightarrow>
          let d = mayServe (SvEngine env) i (FeedName (RtFeed fr)) q
          in if \<not> Allowed_d d then Some (writeAccessError (SvSite env) i d [], w)
             else (case Blocked env (FeedName (RtFeed fr)) (coord_String (ICoord q)) w of ((isBlocked, reason), w) \<Rightarrow>
                     if isBlocked then Some (writeError (SvSite env) QuarantinedErr reason (conflict_header reason q), w)
                     else
                       let d = OnResolve (RtChain fr) i (ICoord q)
                       in if \<not> PdAllow d then Some (writeError (SvSite env) ForbiddenErr (PdReason d) [], w)
                          else if IKind q = IntentSynthetic then Some (serveSynthetic (SvSite env) fr q [], w)
                          else (case serveSearch env fr q (SwTick w) [] of
                                  Some a \<Rightarrow> Some (a, w\<lparr>SwTick := Suc (SwTick w)\<rparr>)
                                | None \<Rightarrow> serve_content env fr i (HrMethod r) q w)))"

definition feedHandler ::
  "serving \<Rightarrow> read_runtime \<Rightarrow> (string \<Rightarrow> auth_error + caller) \<Rightarrow> http_request \<Rightarrow> answer step" where
  "feedHandler env fr identify r w =
     (let challenge = (case SmChallenge (RtModule fr) of None \<Rightarrow> [] | Some f \<Rightarrow> f (RtFeed fr))
      in case identify (adoptDeclaredCredential (SmCredentials (RtModule fr)) (HrHeaders r)) of
           Inl e \<Rightarrow> Some (withChallenge challenge (writeError (SvSite env) (of_auth_error e) [] []), w)
         | Inr i \<Rightarrow> map_option (\<lambda>(a, w). (withChallenge challenge a, w)) (feed_chain env fr i r w))"

subsection \<open>Groups\<close>

definition maxMergePart :: int where "maxMergePart = 33554432"

datatype memberOutcome =
    memberAnswered served
  | memberMissing "api_error option"
  | memberBlocked string

definition readPart :: "served \<Rightarrow> api_error + string" where
  "readPart res = (if int (length (VBody res)) > maxMergePart then Inl OtherErr else Inr (VBody res))"

text \<open>The first header value that names a digest; the order of the headers stands for Go's order of iteration.\<close>

definition digestOf :: "strmap \<Rightarrow> string" where
  "digestOf h =
     (case find (\<lambda>(_, v). has_prefix v ''sha256:'' \<and> length v = 71) h of None \<Rightarrow> [] | Some (_, v) \<Rightarrow> drop 7 v)"

definition answerFromMember :: "serving \<Rightarrow> read_runtime \<Rightarrow> intent \<Rightarrow> (api_error + served) step" where
  "answerFromMember env m q w =
     (if IKind q = IntentSearch \<and> RtHosted m \<and> \<not> RtUpstream m then
        Some (case SmSearch (RtModule m) of
                None \<Rightarrow> Inl NotFoundErr
              | Some search \<Rightarrow>
                  (case search (SwTick w) (RtFeed m) q of
                     Inl e \<Rightarrow> Inl e
                   | Inr r \<Rightarrow>
                       if SyStatus r = 404 then Inl NotFoundErr
                       else if SyStatus r \<ge> 400 then Inl OtherErr
                       else Inr \<lparr>VBody = SyBody r, VSize = int (length (SyBody r)), VSHA256 = digestOf (SyHeader r), VModTime = 0,
                                 VSource = SourceLocal, VBlobKey = [], VContentType = lookup_text ''Content-Type'' (SyHeader r)\<rparr>),
              w\<lparr>SwTick := Suc (SwTick w)\<rparr>)
      else serve_feed env m q w)"

definition askMember :: "serving \<Rightarrow> caller \<Rightarrow> intent \<Rightarrow> read_runtime \<Rightarrow> memberOutcome step" where
  "askMember env i q m w =
     (if \<not> Allowed_d (mayServe (SvEngine env) i (FeedName (RtFeed m)) q) then Some (memberMissing None, w)
      else (case Blocked env (FeedName (RtFeed m)) (coord_String (ICoord q)) w of ((isBlocked, reason), w) \<Rightarrow>
              if isBlocked then Some (memberBlocked reason, w)
              else if \<not> PdAllow (OnResolve (RtChain m) i (ICoord q)) then Some (memberBlocked (PdReason (OnResolve (RtChain m) i (ICoord q))), w)
              else (case answerFromMember env m q w of
                      None \<Rightarrow> None
                    | Some (Inl e, w) \<Rightarrow> Some (memberMissing (if e = NotFoundErr then None else Some e), w)
                    | Some (Inr res, w) \<Rightarrow>
                        (case artifactMetadata env m q w of
                           None \<Rightarrow> None
                         | Some (meta, w) \<Rightarrow>
                             let d = OnServe (RtChain m) i (artifact_of q res meta)
                             in if \<not> PdAllow d then Some (memberBlocked (PdReason d), w) else Some (memberAnswered res, w)))))"

definition answerEmptyGroup :: "serving \<Rightarrow> read_runtime \<Rightarrow> (string \<times> string) list \<Rightarrow> api_error list \<Rightarrow> answer" where
  "answerEmptyGroup env gr blocks failures =
     (if blocks \<noteq> [] then writeError (SvSite env) QuarantinedErr (str_join ''; '' (map (\<lambda>(name, reason). name @ '': '' @ reason) blocks)) []
      else (case failures of
              e # _ \<Rightarrow> writeError (SvSite env) e [] []
            | [] \<Rightarrow> writeError (SvSite env) NotFoundErr (''no member of '' @ FeedName (RtFeed gr) @ '' has it'') []))"

fun serveFirstHit ::
  "serving \<Rightarrow> read_runtime \<Rightarrow> caller \<Rightarrow> string \<Rightarrow> intent \<Rightarrow> read_runtime list \<Rightarrow> (string \<times> string) list \<Rightarrow> api_error list \<Rightarrow> answer step" where
  "serveFirstHit env gr i meth q [] blocks failures w = Some (answerEmptyGroup env gr blocks failures, w)"
| "serveFirstHit env gr i meth q (m # ms) blocks failures w =
     (case askMember env i q m w of
        None \<Rightarrow> None
      | Some (memberAnswered res, w) \<Rightarrow>
          let h = set_header GroupMemberHeader (FeedName (RtFeed m)) []
          in Some (case tryRedirect env m meth q res (SwTick w) h of Some a \<Rightarrow> a | None \<Rightarrow> streamResult env m q res h,
                   w\<lparr>SwTick := Suc (SwTick w)\<rparr>)
      | Some (memberBlocked reason, w) \<Rightarrow> serveFirstHit env gr i meth q ms (blocks @ [(FeedName (RtFeed m), reason)]) failures w
      | Some (memberMissing None, w) \<Rightarrow> serveFirstHit env gr i meth q ms blocks failures w
      | Some (memberMissing (Some e), w) \<Rightarrow> serveFirstHit env gr i meth q ms blocks (failures @ [e]) w)"

definition merged_answer :: "serving \<Rightarrow> read_runtime \<Rightarrow> intent \<Rightarrow> (string \<times> string) list \<Rightarrow> api_error + string \<Rightarrow> answer" where
  "merged_answer env gr q parts r =
     (case r of
        Inl e \<Rightarrow> writeError (SvSite env) e [] []
      | Inr body \<Rightarrow>
          \<lparr>AnStatus = 200,
           AnHeaders = set_header ''Content-Length'' (FormatInt (int (length body))) (set_header ''Content-Type'' (responseContentType q [])
             (set_header GroupMergedHeader (str_join '','' (map fst parts)) (set_header SiteHeader (SvSite env)
               (set_header SourceHeader (source_text SourceLocal) [])))),
           AnBody = body\<rparr>)"

fun serveMerged ::
  "serving \<Rightarrow> read_runtime \<Rightarrow> (feed \<Rightarrow> intent \<Rightarrow> (string \<times> string) list \<Rightarrow> api_error + string) \<Rightarrow> caller \<Rightarrow> intent \<Rightarrow>
   read_runtime list \<Rightarrow> (string \<times> string) list \<Rightarrow> (string \<times> string) list \<Rightarrow> api_error list \<Rightarrow> answer step" where
  "serveMerged env gr merge i q [] parts blocks failures w =
     Some (if parts = [] then answerEmptyGroup env gr blocks failures else merged_answer env gr q parts (merge (RtFeed gr) q parts), w)"
| "serveMerged env gr merge i q (m # ms) parts blocks failures w =
     (case askMember env i q m w of
        None \<Rightarrow> None
      | Some (memberAnswered res, w) \<Rightarrow>
          (case readPart res of
             Inl e \<Rightarrow> serveMerged env gr merge i q ms parts blocks (failures @ [e]) w
           | Inr body \<Rightarrow> serveMerged env gr merge i q ms (parts @ [(FeedName (RtFeed m), body)]) blocks failures w)
      | Some (memberBlocked reason, w) \<Rightarrow> serveMerged env gr merge i q ms parts (blocks @ [(FeedName (RtFeed m), reason)]) failures w
      | Some (memberMissing None, w) \<Rightarrow> serveMerged env gr merge i q ms parts blocks failures w
      | Some (memberMissing (Some e), w) \<Rightarrow> serveMerged env gr merge i q ms parts blocks (failures @ [e]) w)"

definition group_chain :: "serving \<Rightarrow> read_runtime \<Rightarrow> read_runtime list \<Rightarrow> caller \<Rightarrow> http_request \<Rightarrow> answer step" where
  "group_chain env gr members i r w =
     (case SmParse (RtModule gr) r of
        Inl (e, txt) \<Rightarrow> Some (writeErrorText (SvSite env) e txt [], w)
      | Inr q \<Rightarrow>
          let d = mayServe (SvEngine env) i (FeedName (RtFeed gr)) q
          in if \<not> Allowed_d d then Some (writeAccessError (SvSite env) i d [], w)
             else (case Blocked env (FeedName (RtFeed gr)) (coord_String (ICoord q)) w of ((isBlocked, reason), w) \<Rightarrow>
                     if isBlocked then Some (writeError (SvSite env) QuarantinedErr reason [], w)
                     else
                       let d = OnResolve (RtChain gr) i (ICoord q)
                       in if \<not> PdAllow d then Some (writeError (SvSite env) ForbiddenErr (PdReason d) [], w)
                          else if IKind q = IntentSynthetic then Some (serveSynthetic (SvSite env) gr q [], w)
                          else (case SmMerger (RtModule gr) of
                                  Some (mergeable, merge) \<Rightarrow>
                                    if mergeable q then serveMerged env gr merge i q members [] [] [] w
                                    else serveFirstHit env gr i (HrMethod r) q members [] [] w
                                | None \<Rightarrow> serveFirstHit env gr i (HrMethod r) q members [] [] w)))"

definition groupHandler ::
  "serving \<Rightarrow> read_runtime \<Rightarrow> read_runtime list \<Rightarrow> (string \<Rightarrow> auth_error + caller) \<Rightarrow> http_request \<Rightarrow> answer step" where
  "groupHandler env gr members identify r w =
     (case identify (adoptDeclaredCredential (SmCredentials (RtModule gr)) (HrHeaders r)) of
        Inl e \<Rightarrow> Some (writeError (SvSite env) (of_auth_error e) [] [], w)
      | Inr i \<Rightarrow> group_chain env gr members i r w)"

definition groupPublishHandler :: "serving \<Rightarrow> read_runtime \<Rightarrow> read_runtime list \<Rightarrow> answer" where
  "groupPublishHandler env gr members =
     (let targets = map (\<lambda>m. FeedName (RtFeed m)) (filter RtHosted members);
          message = ''a group is read-only; publish to a hosted feed'' @
            (case targets of
               [] \<Rightarrow> ''. No member of '' @ FeedName (RtFeed gr) @ '' accepts publishing.''
             | [t] \<Rightarrow> '': '' @ t
             | _ \<Rightarrow> '', one of: '' @ str_join '', '' targets)
      in finishError (SvSite env) 405 message (set_header ''Allow'' ''GET, HEAD'' []))"

end
