(* ===== verification/Server_Safety.thy ===== *)
theory Server_Safety
  imports Server_Read Pipeline_Serving
begin

text \<open>
  What the read side promises: a group shows exactly the part of its members the caller may read, every
  response says where it came from, and a takedown is obeyed within the lifetime of a cached verdict.
\<close>

subsection \<open>Groups\<close>

definition readable :: "serving \<Rightarrow> caller \<Rightarrow> intent \<Rightarrow> read_runtime \<Rightarrow> bool" where
  "readable env i q m \<longleftrightarrow> Allowed_d (mayServe (SvEngine env) i (FeedName (RtFeed m)) q)"

lemma askMember_unreadable: "\<not> readable env i q m \<Longrightarrow> askMember env i q m w = Some (memberMissing None, w)"
  by (simp add: askMember_def readable_def)

lemma serveFirstHit_readable:
  "serveFirstHit env gr i meth q members blocks failures w =
   serveFirstHit env gr i meth q (filter (readable env i q) members) blocks failures w"
  by (induction members arbitrary: blocks failures w)
     (auto simp: askMember_unreadable split: option.splits memberOutcome.splits)

lemma serveMerged_readable:
  "serveMerged env gr merge i q members parts blocks failures w =
   serveMerged env gr merge i q (filter (readable env i q) members) parts blocks failures w"
  by (induction members arbitrary: parts blocks failures w)
     (auto simp: askMember_unreadable split: option.splits memberOutcome.splits sum.splits)

text \<open>
  C24: a group is a view of what its caller may read.  Its answer, status, headers and body, and everything it
  leaves behind, is the answer of the group that has only the members on which the access rules allow the
  request: a member the caller may not read influences neither content nor errors.
\<close>

theorem group_shows_the_readable_part:
  assumes "identify (adoptDeclaredCredential (SmCredentials (RtModule gr)) (HrHeaders r)) = Inr i"
    and "SmParse (RtModule gr) r = Inr q"
  shows "groupHandler env gr members identify r w = groupHandler env gr (filter (readable env i q) members) identify r w"
proof -
  let ?ms = "filter (readable env i q) members"
  have f: "serveFirstHit env gr i (HrMethod r) q members = serveFirstHit env gr i (HrMethod r) q ?ms"
    by (intro ext) (rule serveFirstHit_readable)
  have m: "serveMerged env gr merge i q members = serveMerged env gr merge i q ?ms" for merge
    by (intro ext) (rule serveMerged_readable)
  have "group_chain env gr members i r w = group_chain env gr ?ms i r w"
    unfolding group_chain_def assms(2) sum.case f m ..
  then show ?thesis unfolding groupHandler_def assms(1) by simp
qed

text \<open>The body a member has for this caller: what a direct request to it is answered with in some state.\<close>

definition gives :: "serving \<Rightarrow> caller \<Rightarrow> http_request \<Rightarrow> intent \<Rightarrow> read_runtime \<Rightarrow> string \<Rightarrow> bool" where
  "gives env i r q m body \<longleftrightarrow> readable env i q m \<and>
     (\<exists>v a v'. feed_chain env m i r v = Some (a, v') \<and> AnStatus a < 400 \<and> (AnStatus a \<noteq> 302 \<longrightarrow> AnBody a = body))"

lemma askMember_passed:
  assumes "askMember env i q m w = Some (memberAnswered res, w1)"
  obtains v reason v1 meta where "readable env i q m"
    "Blocked env (FeedName (RtFeed m)) (coord_String (ICoord q)) w = ((False, reason), v)" "PdAllow (OnResolve (RtChain m) i (ICoord q))"
    "answerFromMember env m q v = Some (Inr res, v1)" "artifactMetadata env m q v1 = Some (meta, w1)"
    "PdAllow (OnServe (RtChain m) i (artifact_of q res meta))"
proof -
  obtain b reason v where bl: "Blocked env (FeedName (RtFeed m)) (coord_String (ICoord q)) w = ((b, reason), v)" by (metis surj_pair)
  show thesis
    using assms bl that [of reason v]
    by (auto simp: askMember_def readable_def Let_def split: if_splits option.splits sum.splits prod.splits)
qed

lemma direct_search:
  assumes "answerFromMember env m q v = Some (Inr res, v1)" and s: "IKind q = IntentSearch \<and> RtHosted m \<and> \<not> RtUpstream m"
  shows "\<exists>a. serveSearch env m q (SwTick v) [] = Some a \<and> AnStatus a < 400 \<and> AnBody a = VBody res"
  using assms
  by (auto simp: answerFromMember_def serveSearch_def writeSynthetic_def split: option.splits sum.splits if_splits)

lemma direct_content:
  assumes "serve_feed env m q v = Some (Inr res, v1)" "artifactMetadata env m q v1 = Some (meta, w1)"
    "PdAllow (OnServe (RtChain m) i (artifact_of q res meta))"
  shows "\<exists>a v'. serve_content env m i meth q v = Some (a, v') \<and> AnStatus a < 400 \<and> (AnStatus a \<noteq> 302 \<longrightarrow> AnBody a = VBody res)"
proof -
  have "serve_content env m i meth q v =
      Some (case tryRedirect env m meth q res (SwTick w1) [] of Some a \<Rightarrow> a | None \<Rightarrow> streamResult env m q res [], w1\<lparr>SwTick := Suc (SwTick w1)\<rparr>)"
    unfolding serve_content_def assms(1) using assms(2,3) by (simp add: Let_def split: option.splits)
  then show ?thesis by (auto simp: tryRedirect_def streamResult_def Let_def split: option.splits if_splits)
qed

lemma askMember_gives:
  assumes ask: "askMember env i q m w = Some (memberAnswered res, w1)"
    and parse: "SmParse (RtModule m) r = Inr q" and kind: "IKind q \<noteq> IntentSynthetic"
  shows "gives env i r q m (VBody res)"
proof -
  obtain v reason v1 meta where c: "readable env i q m"
    "Blocked env (FeedName (RtFeed m)) (coord_String (ICoord q)) w = ((False, reason), v)" "PdAllow (OnResolve (RtChain m) i (ICoord q))"
    and an: "answerFromMember env m q v = Some (Inr res, v1)" and md: "artifactMetadata env m q v1 = Some (meta, w1)"
      "PdAllow (OnServe (RtChain m) i (artifact_of q res meta))"
    by (rule askMember_passed [OF ask])
  have fc: "feed_chain env m i r w = (case serveSearch env m q (SwTick v) [] of
      Some a \<Rightarrow> Some (a, v\<lparr>SwTick := Suc (SwTick v)\<rparr>) | None \<Rightarrow> serve_content env m i (HrMethod r) q v)"
    unfolding feed_chain_def parse using c kind by (simp add: Let_def readable_def)
  have "\<exists>a v'. feed_chain env m i r w = Some (a, v') \<and> AnStatus a < 400 \<and> (AnStatus a \<noteq> 302 \<longrightarrow> AnBody a = VBody res)"
  proof (cases "IKind q = IntentSearch \<and> RtHosted m \<and> \<not> RtUpstream m")
    case True
    then show ?thesis using direct_search [OF an True] fc by auto
  next
    case False
    then have "serve_feed env m q v = Some (Inr res, v1)" "serveSearch env m q (SwTick v) [] = None"
      using an by (auto simp: answerFromMember_def serveSearch_def)
    then show ?thesis using direct_content [of env m q v res v1 meta w1 i "HrMethod r"] md fc by simp
  qed
  with c(1) show ?thesis unfolding gives_def by blast
qed

lemma error_not_ok: "AnStatus (writeError site e d h) \<noteq> 200" "AnStatus (writeErrorText site e d h) \<noteq> 200"
    "AnStatus (writeAccessError site i dd h) \<noteq> 200"
  by (cases e; simp add: writeError_def writeErrorText_def writeAccessError_def finishError_def Let_def)+

lemma empty_group_not_ok: "AnStatus (answerEmptyGroup env gr blocks failures) \<noteq> 200"
  by (simp add: answerEmptyGroup_def error_not_ok split: list.splits)

definition answered :: "serving \<Rightarrow> caller \<Rightarrow> intent \<Rightarrow> read_runtime \<Rightarrow> string \<Rightarrow> bool" where
  "answered env i q m body \<longleftrightarrow> (\<exists>v res v'. askMember env i q m v = Some (memberAnswered res, v') \<and> body = VBody res)"

lemma serveFirstHit_source:
  "serveFirstHit env gr i meth q ms blocks failures w = Some (a, w') \<Longrightarrow> AnStatus a = 200 \<Longrightarrow> \<exists>m \<in> set ms. answered env i q m (AnBody a)"
proof (induction ms arbitrary: blocks failures w)
  case Nil
  then show ?case using empty_group_not_ok by auto
next
  case (Cons m ms)
  show ?case
  proof (cases "askMember env i q m w")
    case None
    with Cons.prems show ?thesis by simp
  next
    case (Some p)
    obtain out v where p: "p = (out, v)" by (cases p)
    show ?thesis
    proof (cases out)
      case (memberAnswered res)
      have "AnBody a = VBody res"
        using Cons.prems Some p memberAnswered
        by (auto simp: tryRedirect_def streamResult_def Let_def split: option.splits if_splits)
      with Some p memberAnswered show ?thesis by (auto simp: answered_def)
    qed (use Cons Some p in \<open>auto split: option.splits\<close>)
  qed
qed

definition contributed :: "serving \<Rightarrow> caller \<Rightarrow> intent \<Rightarrow> read_runtime list \<Rightarrow> (string \<times> string) list \<Rightarrow> bool" where
  "contributed env i q ms parts \<longleftrightarrow> (\<forall>(n, b) \<in> set parts. \<exists>m \<in> set ms. FeedName (RtFeed m) = n \<and> answered env i q m b)"

lemma contributed_simps:
  "contributed env i q ms []"
  "contributed env i q ms parts \<Longrightarrow> contributed env i q (m # ms) parts"
  "answered env i q m b \<Longrightarrow> contributed env i q ms parts \<Longrightarrow> contributed env i q (m # ms) ((FeedName (RtFeed m), b) # parts)"
  by (auto simp: contributed_def)

definition merged_from :: "serving \<Rightarrow> read_runtime \<Rightarrow> (feed \<Rightarrow> intent \<Rightarrow> (string \<times> string) list \<Rightarrow> api_error + string) \<Rightarrow> caller \<Rightarrow> intent \<Rightarrow>
    read_runtime list \<Rightarrow> (string \<times> string) list \<Rightarrow> string \<Rightarrow> bool" where
  "merged_from env gr merge i q ms parts body \<longleftrightarrow>
     (\<exists>more. merge (RtFeed gr) q (parts @ more) = Inr body \<and> parts @ more \<noteq> [] \<and> contributed env i q ms more)"

lemma merged_from_skip: "merged_from env gr merge i q ms parts body \<Longrightarrow> merged_from env gr merge i q (m # ms) parts body"
  unfolding merged_from_def using contributed_simps(2) by blast

lemma merged_from_add:
  "answered env i q m b \<Longrightarrow> merged_from env gr merge i q ms (parts @ [(FeedName (RtFeed m), b)]) body \<Longrightarrow> merged_from env gr merge i q (m # ms) parts body"
  unfolding merged_from_def by (metis append.assoc append_Cons append_Nil contributed_simps(3))

lemma serveMerged_source:
  "serveMerged env gr merge i q ms parts blocks failures w = Some (a, w') \<Longrightarrow> AnStatus a = 200 \<Longrightarrow>
   merged_from env gr merge i q ms parts (AnBody a)"
proof (induction ms arbitrary: parts blocks failures w)
  case Nil
  then have "merge (RtFeed gr) q parts = Inr (AnBody a) \<and> parts \<noteq> []"
    using empty_group_not_ok [of env gr blocks failures] error_not_ok(1)
    by (auto simp: merged_answer_def split: if_splits sum.splits)
  then show ?case unfolding merged_from_def by (intro exI [of _ "[]"]) (simp add: contributed_simps)
next
  case (Cons m ms)
  show ?case
  proof (cases "askMember env i q m w")
    case None
    with Cons.prems show ?thesis by simp
  next
    case (Some p)
    obtain out v where p: "p = (out, v)" by (cases p)
    show ?thesis
    proof (cases out)
      case (memberAnswered res)
      show ?thesis
      proof (cases "readPart res")
        case (Inl e)
        with Cons.prems Some p memberAnswered show ?thesis by (auto intro: merged_from_skip Cons.IH)
      next
        case (Inr body)
        then have "answered env i q m body" using Some p memberAnswered by (auto simp: answered_def readPart_def split: if_splits)
        then show ?thesis using Cons.prems Some p memberAnswered Inr by (intro merged_from_add) (auto intro: Cons.IH)
      qed
    next
      case (memberMissing e)
      with Cons.prems Some p show ?thesis by (cases e) (auto intro: merged_from_skip Cons.IH)
    next
      case (memberBlocked reason)
      with Cons.prems Some p show ?thesis by (auto intro: merged_from_skip Cons.IH)
    qed
  qed
qed


subsection \<open>Provenance\<close>

definition provenance :: "answer \<Rightarrow> bool" where
  "provenance a \<longleftrightarrow> lookup_text SourceHeader (AnHeaders a) \<noteq> [] \<and> lookup_text SiteHeader (AnHeaders a) \<noteq> []"

lemmas header_names = SourceHeader_def SiteHeader_def GroupMemberHeader_def GroupMergedHeader_def

lemma source_text_nonempty [simp]: "source_text s \<noteq> []"
  by (cases s) simp_all

lemma finishError_provenance: "site \<noteq> [] \<Longrightarrow> provenance (finishError site status msg h)"
  by (auto simp: provenance_def finishError_def Let_def header_names)

lemma errors_provenance:
  assumes "site \<noteq> []"
  shows "provenance (writeError site e d h)" "provenance (writeErrorText site e d h)" "provenance (writeAccessError site i dd h)"
  using finishError_provenance [OF assms] by (simp_all add: writeError_def writeErrorText_def writeAccessError_def)

lemma headers_keep: "lookup_text n h \<noteq> [] \<Longrightarrow> lookup_text n (fold (\<lambda>(name, v) h. if v \<noteq> [] then set_header name v h else h) xs h) \<noteq> []"
proof (induction xs arbitrary: h)
  case (Cons x xs)
  obtain name v where x: "x = (name, v)" by (cases x)
  have "lookup_text n (if v \<noteq> [] then set_header name v h else h) \<noteq> []" using Cons.prems by simp
  from Cons.IH [OF this] show ?case by (simp add: x)
qed simp

lemma protocol_headers_keep: "lookup_text n h \<noteq> [] \<Longrightarrow> lookup_text n (setProtocolHeaders m feed q sha h) \<noteq> []"
  unfolding setProtocolHeaders_def by (cases "SmHeaders m") (simp_all only: option.case headers_keep not_False_eq_True)

lemma streamResult_provenance: "SvSite env \<noteq> [] \<Longrightarrow> provenance (streamResult env fr q res h)"
  by (auto simp: provenance_def streamResult_def Let_def header_names intro!: protocol_headers_keep)

lemma tryRedirect_provenance: "SvSite env \<noteq> [] \<Longrightarrow> tryRedirect env fr meth q res t h = Some a \<Longrightarrow> provenance a"
  by (auto simp: provenance_def tryRedirect_def header_names split: if_splits option.splits)

lemma synthetic_provenance: "site \<noteq> [] \<Longrightarrow> provenance (writeSynthetic site r h)" "site \<noteq> [] \<Longrightarrow> provenance (serveSynthetic site fr q h)"
  by (auto simp: provenance_def writeSynthetic_def serveSynthetic_def header_names errors_provenance [unfolded provenance_def header_names]
      split: option.splits sum.splits)

lemma search_provenance: "SvSite env \<noteq> [] \<Longrightarrow> serveSearch env fr q t h = Some a \<Longrightarrow> provenance a"
  by (auto simp: serveSearch_def errors_provenance synthetic_provenance split: if_splits option.splits sum.splits)

lemma withChallenge_provenance: "provenance (withChallenge c a) \<longleftrightarrow> provenance a"
  by (auto simp: provenance_def withChallenge_def header_names)

lemma merged_provenance: "SvSite env \<noteq> [] \<Longrightarrow> provenance (merged_answer env gr q parts r)"
  by (auto simp: merged_answer_def errors_provenance split: sum.splits) (simp add: provenance_def header_names)

lemma empty_group_provenance: "SvSite env \<noteq> [] \<Longrightarrow> provenance (answerEmptyGroup env gr blocks failures)"
  by (simp add: answerEmptyGroup_def errors_provenance split: list.splits)

lemmas answers_provenance = errors_provenance streamResult_provenance tryRedirect_provenance synthetic_provenance search_provenance
  withChallenge_provenance merged_provenance empty_group_provenance

lemma serve_content_provenance: "SvSite env \<noteq> [] \<Longrightarrow> serve_content env fr i meth q w = Some (a, w') \<Longrightarrow> provenance a"
  by (auto simp: serve_content_def Let_def answers_provenance split: option.splits sum.splits prod.splits if_splits)

lemma feed_chain_provenance: "SvSite env \<noteq> [] \<Longrightarrow> feed_chain env fr i r w = Some (a, w') \<Longrightarrow> provenance a"
  by (auto simp: feed_chain_def Let_def answers_provenance serve_content_provenance split: option.splits sum.splits prod.splits if_splits)

lemma serveFirstHit_provenance:
  "SvSite env \<noteq> [] \<Longrightarrow> serveFirstHit env gr i meth q ms blocks failures w = Some (a, w') \<Longrightarrow> provenance a"
  by (induction ms arbitrary: blocks failures w)
     (auto simp: answers_provenance Let_def split: option.splits memberOutcome.splits prod.splits)

lemma serveMerged_provenance:
  "SvSite env \<noteq> [] \<Longrightarrow> serveMerged env gr merge i q ms parts blocks failures w = Some (a, w') \<Longrightarrow> provenance a"
  by (induction ms arbitrary: parts blocks failures w)
     (auto simp: answers_provenance split: option.splits memberOutcome.splits prod.splits sum.splits if_splits)

lemma group_chain_provenance: "SvSite env \<noteq> [] \<Longrightarrow> group_chain env gr members i r w = Some (a, w') \<Longrightarrow> provenance a"
  by (auto simp: group_chain_def Let_def answers_provenance serveFirstHit_provenance serveMerged_provenance
      split: option.splits sum.splits prod.splits if_splits)

text \<open>
  every response of a feed or a group, success, redirect or error, names the source of what it carries
  and the site that answered, whatever headers the modules add.
\<close>

theorem every_answer_names_its_source:
  assumes "SvSite env \<noteq> []"
    and "feedHandler env fr identify r w = Some (a, w') \<or> groupHandler env gr members identify r w = Some (a, w')"
  shows "provenance a"
  using assms(2) feed_chain_provenance [OF assms(1)] group_chain_provenance [OF assms(1)] errors_provenance [OF assms(1)]
  by (auto simp: feedHandler_def groupHandler_def Let_def withChallenge_provenance split: sum.splits)

subsection \<open>Takedowns\<close>

text \<open>Every cached verdict is the answer to an earlier query, kept for the lifetime from then on.\<close>

definition verdict_of :: "serving \<Rightarrow> string \<Rightarrow> string \<Rightarrow> nat \<Rightarrow> quarantine_entry \<Rightarrow> bool" where
  "verdict_of env feed coord n e \<longleftrightarrow>
     (\<exists>lookup. SvQuarantine env = Some lookup \<and> lookup n feed coord \<noteq> Unreachable \<and>
        e = new_entry (lookup n feed coord) (SvClock env (Suc n) + SvTTL env))"

definition cache_sound :: "serving \<Rightarrow> server_world \<Rightarrow> bool" where
  "cache_sound env w \<longleftrightarrow>
     (\<forall>(key, e) \<in> set (SwCache w). \<exists>feed coord n. CHR 0x00 \<notin> set feed \<and> key = cache_key feed coord \<and> n < SwTick w \<and> verdict_of env feed coord n e)"

lemma cache_key_feed: "CHR 0x00 \<notin> set f \<Longrightarrow> takeWhile (\<lambda>x. x \<noteq> CHR 0x00) (cache_key f c) = f"
  by (induction f) (auto simp: cache_key_def)

lemma cache_key_inj: "CHR 0x00 \<notin> set f \<Longrightarrow> CHR 0x00 \<notin> set f' \<Longrightarrow> cache_key f c = cache_key f' c' \<Longrightarrow> f = f' \<and> c = c'"
  using cache_key_feed [of f c] cache_key_feed [of f' c'] by (simp add: cache_key_def)

lemma cached_verdict:
  assumes "cache_sound env w" "map_of (SwCache w) (cache_key feed coord) = Some e" "CHR 0x00 \<notin> set feed"
  shows "\<exists>n < SwTick w. verdict_of env feed coord n e"
proof -
  from map_of_SomeD [OF assms(2)] assms(1) obtain f c n where "CHR 0x00 \<notin> set f" "cache_key feed coord = cache_key f c" "n < SwTick w" "verdict_of env f c n e"
    unfolding cache_sound_def by fastforce
  then show ?thesis using cache_key_inj [OF assms(3), of f coord c] by blast
qed

lemma cache_sound_later: "cache_sound env w \<Longrightarrow> SwCache w' = SwCache w \<Longrightarrow> SwTick w \<le> SwTick w' \<Longrightarrow> cache_sound env w'"
  unfolding cache_sound_def by (fastforce dest: less_le_trans)

lemma Blocked_keeps:
  assumes c: "cache_sound env w" and f: "CHR 0x00 \<notin> set feed" and b: "Blocked env feed coord w = (r, w')"
  shows "cache_sound env w'"
proof -
  consider "SwCache w' = SwCache w" "SwTick w \<le> SwTick w'"
    | lookup e where "SvQuarantine env = Some lookup" "lookup (Suc (SwTick w)) feed coord \<noteq> Unreachable"
        "e = new_entry (lookup (Suc (SwTick w)) feed coord) (SvClock env (SwTick w + 2) + SvTTL env)"
        "SwCache w' = remember (cache_key feed coord) e (SwCache w)" "SwTick w' = SwTick w + 3"
    using b unfolding Blocked_def Let_def by (fastforce split: option.splits if_splits quarantine_reply.splits)
  then show ?thesis
  proof cases
    case 1
    then show ?thesis using cache_sound_later [OF c] by blast
  next
    case 2
    have "verdict_of env feed coord (Suc (SwTick w)) e" using 2 by (auto simp: verdict_of_def)
    then have "\<exists>f' c' n. CHR 0x00 \<notin> set f' \<and> cache_key feed coord = cache_key f' c' \<and> n < SwTick w' \<and> verdict_of env f' c' n e"
      using f 2(5) by (intro exI [of _ feed] exI [of _ coord] exI [of _ "Suc (SwTick w)"]) simp
    moreover have "cache_sound env (w\<lparr>SwTick := SwTick w'\<rparr>)" using c 2(5) by (intro cache_sound_later [OF c]) simp_all
    ultimately show ?thesis
      unfolding cache_sound_def 2(4) remember_def by (auto simp: Let_def split: if_splits)
  qed
qed

lemma Blocked_withheld:
  assumes c: "cache_sound env w" and f: "CHR 0x00 \<notin> set feed" and l: "SvQuarantine env = Some lookup"
    and held: "\<forall>n \<le> Suc (SwTick w). SvClock env (SwTick w) < SvClock env (Suc n) + SvTTL env \<or> n = Suc (SwTick w) \<longrightarrow>
      (\<exists>reason detail. lookup n feed coord = Withheld reason detail)"
  shows "fst (fst (Blocked env feed coord w))"
proof -
  obtain reason detail where now: "lookup (Suc (SwTick w)) feed coord = Withheld reason detail" using held by blast
  show ?thesis
  proof (cases "\<exists>e. map_of (SwCache w) (cache_key feed coord) = Some e \<and> SvClock env (SwTick w) < QeExpires e")
    case True
    then obtain e where e: "map_of (SwCache w) (cache_key feed coord) = Some e" "SvClock env (SwTick w) < QeExpires e" by blast
    from cached_verdict [OF c e(1) f] obtain n where n: "n < SwTick w" "verdict_of env feed coord n e" by blast
    then have ne: "e = new_entry (lookup n feed coord) (SvClock env (Suc n) + SvTTL env)" using l by (simp add: verdict_of_def)
    then have "QeExpires e = SvClock env (Suc n) + SvTTL env" by (simp add: new_entry_def split: quarantine_reply.splits)
    with e(2) n(1) held obtain reason detail where "lookup n feed coord = Withheld reason detail" by (metis less_SucI less_imp_le)
    with ne have "QeBlocked e" by (simp add: new_entry_def)
    with e l show ?thesis by (simp add: Blocked_def Let_def)
  next
    case False
    then show ?thesis using l now by (auto simp: Blocked_def Let_def new_entry_def split: option.splits)
  qed
qed

lemma serve_feed_cache: "serve_feed env fr q w = Some (r, w') \<Longrightarrow> SwCache w' = SwCache w \<and> SwTick w' = SwTick w"
  by (auto simp: serve_feed_def Let_def split: option.splits)

lemma artifactMetadata_cache: "artifactMetadata env fr q w = Some (r, w') \<Longrightarrow> SwCache w' = SwCache w \<and> SwTick w' = SwTick w"
  by (auto simp: artifactMetadata_def split: if_splits option.splits sum.splits prod.splits dest!: serve_feed_cache)

lemma serve_content_cache: "serve_content env fr i meth q w = Some (a, w') \<Longrightarrow> SwCache w' = SwCache w \<and> SwTick w \<le> SwTick w'"
  by (auto simp: serve_content_def Let_def split: if_splits option.splits sum.splits prod.splits dest!: serve_feed_cache artifactMetadata_cache)

lemma feed_chain_keeps:
  assumes c: "cache_sound env w" and f: "CHR 0x00 \<notin> set (FeedName (RtFeed fr))" and r: "feed_chain env fr i r w = Some (a, w')"
  shows "cache_sound env w'"
proof (cases "SmParse (RtModule fr) r")
  case (Inl e)
  then show ?thesis using r c by (auto simp: feed_chain_def split: prod.splits)
next
  case (Inr q)
  obtain b reason v where bl: "Blocked env (FeedName (RtFeed fr)) (coord_String (ICoord q)) w = ((b, reason), v)" by (metis surj_pair)
  have v: "cache_sound env v" using Blocked_keeps [OF c f bl] .
  have "w' = w \<or> SwCache w' = SwCache v \<and> SwTick v \<le> SwTick w'"
    using r bl Inr by (auto simp: feed_chain_def Let_def split: if_splits option.splits dest: serve_content_cache)
  then show ?thesis using c cache_sound_later [OF v] by blast
qed

text \<open>
  C17: a takedown is obeyed within the lifetime of a cached verdict.  If every query of the quarantine table
  for the coordinate that is made now or was made less than a lifetime ago finds it withheld, a caller who may
  read it gets 409 and nothing else; and the cache stays a record of real answers, so this holds again for
  the next request.
\<close>

theorem takedown_is_obeyed:
  assumes c: "cache_sound env w" and f: "CHR 0x00 \<notin> set (FeedName (RtFeed fr))" and l: "SvQuarantine env = Some lookup"
    and i: "identify (adoptDeclaredCredential (SmCredentials (RtModule fr)) (HrHeaders r)) = Inr i"
    and q: "SmParse (RtModule fr) r = Inr q" "readable env i q fr"
    and held: "\<forall>n \<le> Suc (SwTick w). SvClock env (SwTick w) < SvClock env (Suc n) + SvTTL env \<or> n = Suc (SwTick w) \<longrightarrow>
      (\<exists>reason detail. lookup n (FeedName (RtFeed fr)) (coord_String (ICoord q)) = Withheld reason detail)"
  shows "\<exists>a w'. feedHandler env fr identify r w = Some (a, w') \<and> AnStatus a = 409 \<and> cache_sound env w'"
proof -
  obtain b reason v where bl: "Blocked env (FeedName (RtFeed fr)) (coord_String (ICoord q)) w = ((b, reason), v)" by (metis surj_pair)
  with Blocked_withheld [OF c f l held] have "b" by simp
  then have fc: "feed_chain env fr i r w = Some (writeError (SvSite env) QuarantinedErr reason (conflict_header reason q), v)"
    using q bl by (simp add: feed_chain_def readable_def Let_def)
  have st: "AnStatus (withChallenge ch (writeError site QuarantinedErr d h)) = 409" for ch site d h
    by (simp add: withChallenge_def writeError_def finishError_def Let_def)
  show ?thesis
    using feed_chain_keeps [OF c f fc] st by (simp add: feedHandler_def i fc)
qed

text \<open>
  the bound on the cache loses verdicts that only the cache still knows.  With the table out of reach a
  withheld coordinate stays withheld as long as its verdict is cached; but once the cache is full, one request
  for any coordinate not in it drops every verdict, and with the table out of reach afterwards the withheld
  coordinate counts as servable.
\<close>

theorem full_cache_forgets_takedowns:
  assumes l: "SvQuarantine env = Some lookup"
    and full: "maxQuarantineEntries \<le> length (SwCache w)"
    and known: "map_of (SwCache w) (cache_key feed coord) = Some e" "QeBlocked e"
    and scan: "map_of (SwCache w) (cache_key feed other) = None" "lookup (Suc (SwTick w)) feed other = Servable"
    and down: "lookup (Suc (SwTick w)) feed coord = Unreachable" "lookup (SwTick w + 4) feed coord = Unreachable"
  shows "fst (fst (Blocked env feed coord w)) \<and> fst (Blocked env feed coord (snd (Blocked env feed other w))) = (False, [])"
proof
  show "fst (fst (Blocked env feed coord w))" using l known down by (simp add: Blocked_def Let_def)
  have "other \<noteq> coord" using known(1) scan(1) by auto
  then have key: "cache_key feed other \<noteq> cache_key feed coord" by (simp add: cache_key_def)
  have w1: "snd (Blocked env feed other w) = w\<lparr>SwTick := SwTick w + 3,
      SwCache := [(cache_key feed other, new_entry Servable (SvClock env (SwTick w + 2) + SvTTL env))]\<rparr>"
    using l scan full by (simp add: Blocked_def Let_def remember_def)
  show "fst (Blocked env feed coord (snd (Blocked env feed other w))) = (False, [])"
    unfolding w1 using l down(2) key by (simp add: Blocked_def Let_def add.commute [of 4])
qed

subsection \<open>An example\<close>

text \<open>Two feeds behind a group; the caller may read the group and the first feed, which has the artifact.\<close>

definition example_reader :: caller where
  "example_reader = \<lparr>Kind = ''token'', Subject = ''ci'', Issuer = [], ProjectPath = [], Ref = [], Stale = False\<rparr>"

definition example_read_module :: server_module where
  "example_read_module =
     \<lparr>SmParse = (\<lambda>_. Inr (QIntent (example_request IntentArtifact []))), SmSynthesize = None, SmSearch = None, SmMerger = None, SmRedirectSafe = None,
      SmHeaders = None, SmChallenge = None, SmCredentials = [],
      SmFormat = \<lparr>RewriteMetadata = (\<lambda>_ b. Some b), ResolveIndirect = None, AsMetadataSource = None\<rparr>\<rparr>"

definition example_read_feed :: "string \<Rightarrow> read_runtime" where
  "example_read_feed name =
     \<lparr>RtFeed = (QFeed (example_request IntentArtifact []))\<lparr>FeedName := name\<rparr>, RtLocal = True, RtHomeSite = [], RtHosted = False, RtHoster = None,
      RtChain = [], RtModule = example_read_module, RtUpstream = False, RtRedirect = False, RtPeerFallback = False\<rparr>"

definition example_serving :: "(nat \<Rightarrow> string \<Rightarrow> string \<Rightarrow> quarantine_reply) \<Rightarrow> serving" where
  "example_serving lookup =
     \<lparr>SvEngine = Access_Engine.example_engine [\<lparr>Path = ''feed/a/*'', Capabilities = [''read''], rule_policy = ''team''\<rparr>,
                                 \<lparr>Path = ''feed/g/*'', Capabilities = [''read''], rule_policy = ''team''\<rparr>],
      SvSite = ''ams'', SvPipe = example_pipe 200, SvDepth = 2, SvPresign = None, SvQuarantine = Some lookup, SvTTL = 30, SvClock = int\<rparr>"

definition example_server :: server_world where
  "example_server =
     \<lparr>SwPipe = example_site [(''manifests/a/p'', (''abc'', 0)), (blobKey ''abc'', (''abc'', 0))], SwUps = (\<lambda>_. example_upstream), SwCache = [], SwTick = 0\<rparr>"

definition example_get :: http_request where
  "example_get = \<lparr>HrMethod = ''GET'', HrPath = ''/p'', HrQuery = [], HrHeaders = [], HrBody = []\<rparr>"

lemma example_reads:
  "readable (example_serving (\<lambda>_ _ _. Servable)) example_reader (QIntent (example_request IntentArtifact [])) (example_read_feed ''a'') \<and>
   \<not> readable (example_serving (\<lambda>_ _ _. Servable)) example_reader (QIntent (example_request IntentArtifact [])) (example_read_feed ''b'') \<and>
   (case groupHandler (example_serving (\<lambda>_ _ _. Servable)) (example_read_feed ''g'') [example_read_feed ''b'', example_read_feed ''a''] (\<lambda>_. Inr example_reader)
       example_get example_server of None \<Rightarrow> False | Some (a, _) \<Rightarrow> AnStatus a = 200 \<and> AnBody a = ''abc'')"
  by code_simp

lemma example_read_facts:
  "SmParse (RtModule (example_read_feed name)) r = Inr (QIntent (example_request IntentArtifact []))"
  "SmMerger (RtModule (example_read_feed name)) = None" "FeedName (RtFeed (example_read_feed name)) = name"
  "IKind (QIntent (example_request IntentArtifact [])) \<noteq> IntentSynthetic"
  by (simp_all add: example_read_feed_def example_read_module_def example_request_def)

theorem group_shows_the_readable_part_witness:
  "groupHandler (example_serving (\<lambda>_ _ _. Servable)) (example_read_feed ''g'') [example_read_feed ''b'', example_read_feed ''a''] (\<lambda>_. Inr example_reader)
     example_get example_server =
   groupHandler (example_serving (\<lambda>_ _ _. Servable)) (example_read_feed ''g'') [example_read_feed ''a''] (\<lambda>_. Inr example_reader) example_get example_server"
  using group_shows_the_readable_part [of "\<lambda>_. Inr example_reader" "example_read_feed ''g''" example_get example_reader
      "QIntent (example_request IntentArtifact [])" "example_serving (\<lambda>_ _ _. Servable)" "[example_read_feed ''b'', example_read_feed ''a'']" example_server]
    example_reads example_read_facts(1)
  by simp


theorem every_answer_names_its_source_witness:
  "\<exists>a w'. groupHandler (example_serving (\<lambda>_ _ _. Servable)) (example_read_feed ''g'') [example_read_feed ''b'', example_read_feed ''a''] (\<lambda>_. Inr example_reader)
     example_get example_server = Some (a, w') \<and> provenance a"
proof -
  let ?env = "example_serving (\<lambda>_ _ _. Servable)" and ?ms = "[example_read_feed ''b'', example_read_feed ''a'']"
  obtain a w' where run: "groupHandler ?env (example_read_feed ''g'') ?ms (\<lambda>_. Inr example_reader) example_get example_server = Some (a, w')"
    using example_reads by (auto split: option.splits)
  have "SvSite ?env \<noteq> []" by (simp add: example_serving_def)
  from every_answer_names_its_source [OF this disjI2, OF run] run show ?thesis by blast
qed

theorem takedown_is_obeyed_witness:
  "\<exists>a w'. feedHandler (example_serving (\<lambda>_ _ _. Withheld ''manual'' [])) (example_read_feed ''a'') (\<lambda>_. Inr example_reader) example_get example_server = Some (a, w') \<and>
     AnStatus a = 409"
proof -
  let ?env = "example_serving (\<lambda>_ _ _. Withheld ''manual'' [])"
  have c: "cache_sound ?env example_server" by (simp add: cache_sound_def example_server_def)
  have f: "CHR 0x00 \<notin> set (FeedName (RtFeed (example_read_feed ''a'')))" by (simp add: example_read_facts)
  have l: "SvQuarantine ?env = Some (\<lambda>_ _ _. Withheld ''manual'' [])" by (simp add: example_serving_def)
  have r: "readable ?env example_reader (QIntent (example_request IntentArtifact [])) (example_read_feed ''a'')"
    using example_reads by (simp add: readable_def example_serving_def)
  show ?thesis
    using takedown_is_obeyed [where identify = "\<lambda>_. Inr example_reader", OF c f l refl example_read_facts(1) r] by blast
qed

text \<open>A full cache that holds one takedown, and a table that answers only the scan.\<close>

definition example_full :: server_world where
  "example_full = example_server\<lparr>SwCache := (cache_key ''a'' ''bad'', \<lparr>QeBlocked = True, QeReason = ''manual'', QeExpires = 0\<rparr>) #
     map (\<lambda>n. (cache_key ''a'' (CHR ''x'' # replicate n (CHR ''y'')), \<lparr>QeBlocked = False, QeReason = [], QeExpires = 0\<rparr>)) [0..<8192]\<rparr>"

definition outage :: "nat \<Rightarrow> string \<Rightarrow> string \<Rightarrow> quarantine_reply" where
  "outage n feed coord = (if coord = ''other'' then Servable else Unreachable)"

theorem full_cache_forgets_takedowns_witness:
  "fst (fst (Blocked (example_serving outage) ''a'' ''bad'' example_full)) \<and>
   fst (Blocked (example_serving outage) ''a'' ''bad'' (snd (Blocked (example_serving outage) ''a'' ''other'' example_full))) = (False, [])"
proof (rule full_cache_forgets_takedowns)
  show "SvQuarantine (example_serving outage) = Some outage" by (simp add: example_serving_def)
  show "maxQuarantineEntries \<le> length (SwCache example_full)" by (simp add: maxQuarantineEntries_def example_full_def)
  show "map_of (SwCache example_full) (cache_key ''a'' ''bad'') = Some \<lparr>QeBlocked = True, QeReason = ''manual'', QeExpires = 0\<rparr>"
    by (simp add: example_full_def)
  show "map_of (SwCache example_full) (cache_key ''a'' ''other'') = None"
    by (auto simp: example_full_def map_of_eq_None_iff cache_key_def)
qed (simp_all add: outage_def)

end
