(* ===== verification/Policies.thy ===== *)
theory Policies
  imports Publish_Path
begin

text \<open>
  The policies a feed can be configured with, \<^verbatim>\<open>src/policies\<close>: the allow list, licenses, the age of a release
  and known vulnerabilities.  Patterns are those of Go's \<^verbatim>\<open>path.Match\<close>, over bytes.  Options of a policy
  are the values its YAML holds.
\<close>

subsection \<open>Patterns\<close>

text \<open>One character of a class, possibly escaped; \<open>None\<close> is a malformed pattern.\<close>

definition getEsc :: "string \<Rightarrow> (char \<times> string) option" where
  "getEsc chunk =
     (case chunk of
        [] \<Rightarrow> None
      | c # r \<Rightarrow>
          if c = CHR ''-'' \<or> c = CHR '']'' then None
          else
            (case (if c = CHR 0x5C then r else chunk) of
               [] \<Rightarrow> None
             | c # r \<Rightarrow> if r = [] then None else Some (c, r)))"

lemma getEsc_shorter: "getEsc chunk = Some (c, r) \<Longrightarrow> length r < length chunk"
  by (auto simp: getEsc_def split: list.splits if_splits)

lemma getEsc_twice: "getEsc chunk = Some (lo, c1) \<Longrightarrow> getEsc (tl c1) = Some (hi, c2) \<Longrightarrow> length c2 < length chunk"
  by (drule getEsc_shorter)+ simp

text \<open>The ranges of a class up to its closing bracket: whether the character is in one of them, and the rest.\<close>

function match_ranges :: "char \<Rightarrow> nat \<Rightarrow> bool \<Rightarrow> string \<Rightarrow> (bool \<times> string) option" where
  "match_ranges r n found chunk =
     (if chunk \<noteq> [] \<and> hd chunk = CHR '']'' \<and> n > 0 then Some (found, tl chunk)
      else (case getEsc chunk of
              None \<Rightarrow> None
            | Some (lo, c1) \<Rightarrow>
                if hd c1 = CHR ''-'' then
                  (case getEsc (tl c1) of
                     None \<Rightarrow> None
                   | Some (hi, c2) \<Rightarrow> match_ranges r (Suc n) (found \<or> lo \<le> r \<and> r \<le> hi) c2)
                else match_ranges r (Suc n) (found \<or> r = lo) c1))"
  by pat_completeness auto
termination
  by (relation "measure (\<lambda>(r, n, found, chunk). length chunk)") (auto dest!: getEsc_shorter)

declare match_ranges.simps [simp del]

lemma match_ranges_shorter: "match_ranges r n found chunk = Some (b, rest) \<Longrightarrow> length rest < length chunk"
proof (induction "length chunk" arbitrary: n found chunk rule: less_induct)
  case less
  have eq: "match_ranges r n found chunk = Some (b, rest)" by (rule less.prems)
  have "chunk \<noteq> [] \<and> rest = tl chunk \<or> (\<exists>n' found' c2. length c2 < length chunk \<and> match_ranges r n' found' c2 = Some (b, rest))"
  proof (cases "chunk \<noteq> [] \<and> hd chunk = CHR '']'' \<and> n > 0")
    case True
    then show ?thesis using eq unfolding match_ranges.simps [of r n found chunk] by simp
  next
    case False
    then obtain lo c1 where g: "getEsc chunk = Some (lo, c1)"
      using eq unfolding match_ranges.simps [of r n found chunk] by (auto split: option.splits)
    show ?thesis
    proof (cases "hd c1 = CHR ''-''")
      case True
      then obtain hi c2 where h: "getEsc (tl c1) = Some (hi, c2)"
        and m: "match_ranges r (Suc n) (found \<or> lo \<le> r \<and> r \<le> hi) c2 = Some (b, rest)"
        using eq False g unfolding match_ranges.simps [of r n found chunk] by (auto split: option.splits)
      with getEsc_twice [OF g h] show ?thesis by blast
    next
      case nodash: False
      then have "match_ranges r (Suc n) (found \<or> r = lo) c1 = Some (b, rest)"
        using eq False g unfolding match_ranges.simps [of r n found chunk] by auto
      with getEsc_shorter [OF g] show ?thesis by blast
    qed
  qed
  then show ?case
  proof (elim disjE exE conjE)
    fix n' found' c2
    assume c: "length c2 < length chunk" "match_ranges r n' found' c2 = Some (b, rest)"
    from less.hyps [OF c] c(1) show ?thesis by simp
  qed simp
qed

text \<open>
  A chunk is a piece of a pattern without a star.  It is read to its end even when it no longer matches, so that a
  malformed pattern is always noticed; \<open>None\<close> is a malformed chunk, \<open>Some None\<close> no match.
\<close>

function matchChunk :: "bool \<Rightarrow> string \<Rightarrow> string \<Rightarrow> string option option" where
  "matchChunk failed [] s = Some (if failed then None else Some s)"
| "matchChunk failed (c # chunk) s =
     (let failed = (failed \<or> s = [])
      in if c = CHR ''['' then
           (let (negated, chunk) = (case chunk of c # r \<Rightarrow> if c = CHR 0x5E then (True, r) else (False, chunk) | [] \<Rightarrow> (False, chunk))
            in case match_ranges (if failed then CHR 0x00 else hd s) 0 False chunk of
                 None \<Rightarrow> None
               | Some (found, rest) \<Rightarrow> matchChunk (failed \<or> found = negated) rest (if failed then s else tl s))
         else if c = CHR ''?'' then matchChunk (failed \<or> hd s = CHR ''/'') chunk (if failed then s else tl s)
         else if c = CHR 0x5C then
           (case chunk of [] \<Rightarrow> None | c # rest \<Rightarrow> matchChunk (failed \<or> c \<noteq> hd s) rest (if failed then s else tl s))
         else matchChunk (failed \<or> c \<noteq> hd s) chunk (if failed then s else tl s))"
  by pat_completeness auto
termination
  by (relation "measure (\<lambda>(failed, chunk, s). length chunk)")
     (auto dest!: match_ranges_shorter split: list.splits if_splits)

fun scan_length :: "bool \<Rightarrow> string \<Rightarrow> nat" where
  "scan_length inrange [] = 0"
| "scan_length inrange (c # p) =
     (if c = CHR 0x5C then (case p of [] \<Rightarrow> 1 | _ # r \<Rightarrow> 2 + scan_length inrange r)
      else if c = CHR ''['' then Suc (scan_length True p)
      else if c = CHR '']'' then Suc (scan_length False p)
      else if c = CHR ''*'' \<and> \<not> inrange then 0
      else Suc (scan_length inrange p))"

definition scanChunk :: "string \<Rightarrow> bool \<times> string \<times> string" where
  "scanChunk pattern =
     (let p = dropWhile (\<lambda>c. c = CHR ''*'') pattern; n = scan_length False p
      in (p \<noteq> pattern, take n p, drop n p))"

lemma scan_length_pos: "p \<noteq> [] \<Longrightarrow> hd p \<noteq> CHR ''*'' \<Longrightarrow> 0 < scan_length False p"
  by (cases p) (auto split: list.splits)

lemma scanChunk_shorter: "pattern \<noteq> [] \<Longrightarrow> scanChunk pattern = (star, chunk, rest) \<Longrightarrow> length rest < length pattern"
proof -
  assume p: "pattern \<noteq> []" and s: "scanChunk pattern = (star, chunk, rest)"
  let ?q = "dropWhile (\<lambda>c. c = CHR ''*'') pattern"
  have r: "rest = drop (scan_length False ?q) ?q" using s by (simp add: scanChunk_def Let_def)
  have le: "length ?q \<le> length pattern" by (rule length_dropWhile_le)
  show "length rest < length pattern"
  proof (cases "?q = []")
    case True
    then have "rest = []" using r by (simp only: drop_Nil)
    then show ?thesis using p by simp
  next
    case False
    then have "0 < scan_length False ?q" using hd_dropWhile [OF False] by (intro scan_length_pos) auto
    moreover have "0 < length ?q" using False length_greater_0_conv by blast
    ultimately show ?thesis using r le by (simp only: length_drop)
  qed
qed

text \<open>The rest of the pattern is only checked for being well formed.\<close>

function well_formed :: "string \<Rightarrow> bool" where
  "well_formed pattern =
     (if pattern = [] then True
      else (case scanChunk pattern of (_, chunk, rest) \<Rightarrow> matchChunk False chunk [] \<noteq> None \<and> well_formed rest))"
  by pat_completeness auto
termination
  by (relation "measure length") (auto dest: scanChunk_shorter [OF _ sym])

text \<open>The places behind a star: the first at which the chunk matches, and matches to the end where nothing follows it.\<close>

fun skip_match :: "string \<Rightarrow> bool \<Rightarrow> string \<Rightarrow> string option option" where
  "skip_match chunk final [] = Some None"
| "skip_match chunk final (c # name) =
     (if c = CHR ''/'' then Some None
      else (case matchChunk False chunk name of
              None \<Rightarrow> None
            | Some None \<Rightarrow> skip_match chunk final name
            | Some (Some t) \<Rightarrow> if final \<and> t \<noteq> [] then skip_match chunk final name else Some (Some t)))"

function path_Match :: "string \<Rightarrow> string \<Rightarrow> bool option" where
  "path_Match pattern name =
     (if pattern = [] then Some (name = [])
      else (case scanChunk pattern of (star, chunk, rest) \<Rightarrow>
              if star \<and> chunk = [] then Some (CHR ''/'' \<notin> set name)
              else (case matchChunk False chunk name of
                      None \<Rightarrow> None
                    | Some hit \<Rightarrow>
                        (case (if hit \<noteq> None \<and> (the hit = [] \<or> rest \<noteq> []) then Some hit
                               else if star then skip_match chunk (rest = []) name else Some None) of
                           None \<Rightarrow> None
                         | Some (Some t) \<Rightarrow> path_Match rest t
                         | Some None \<Rightarrow> if well_formed rest then Some False else None))))"
  by pat_completeness auto
termination
  by (relation "measure (\<lambda>(p, n). length p)") (auto dest: scanChunk_shorter [OF _ sym])

declare matchChunk.simps [simp del] well_formed.simps [simp del] path_Match.simps [simp del]

subsection \<open>Options\<close>

datatype option_value = OText string | OBool bool | OList "option_value list" | OOther

type_synonym options = "(string \<times> option_value) list"

text \<open>What the policies use of the time and formatting packages.\<close>

record policy_library =
  parse_duration :: "string \<Rightarrow> int option"
  parse_time :: "string \<Rightarrow> int option"
  show_duration :: "int \<Rightarrow> string"
  quote :: "string \<Rightarrow> string"

definition text_option :: "options \<Rightarrow> string \<Rightarrow> string" where
  "text_option opts name = (case map_of opts name of Some (OText s) \<Rightarrow> s | _ \<Rightarrow> [])"

text \<open>The list of patterns both list policies read; \<open>None\<close> is a configuration error.\<close>

definition pattern_of :: "option_value \<Rightarrow> string option" where
  "pattern_of v = (case v of OText s \<Rightarrow> if s = [] \<or> path_Match s ''probe'' = None then None else Some s | _ \<Rightarrow> None)"

definition pattern_list :: "options \<Rightarrow> string \<Rightarrow> string list option" where
  "pattern_list opts name =
     (case map_of opts name of Some (OList items) \<Rightarrow> those (map pattern_of items) | _ \<Rightarrow> None)"

text \<open>\<open>on_unknown\<close>: allow by default.\<close>

definition deny_unknown :: "options \<Rightarrow> bool option" where
  "deny_unknown opts =
     (let v = text_option opts ''on_unknown''
      in if v = [] \<or> v = ''allow'' then Some False else if v = ''deny'' then Some True else None)"

definition allowed_decision :: policy_decision where
  "allowed_decision = \<lparr>PdAllow = True, PdPolicy = [], PdCode = [], PdReason = []\<rparr>"

definition denied :: "string \<Rightarrow> string \<Rightarrow> policy_decision" where
  "denied code reason = \<lparr>PdAllow = False, PdPolicy = [], PdCode = code, PdReason = reason\<rparr>"

subsection \<open>Allow list\<close>

definition allowlist_New :: "options \<Rightarrow> string list option" where
  "allowlist_New opts = pattern_list opts ''allow''"

definition allowlist_allowed :: "string list \<Rightarrow> coordinate \<Rightarrow> policy_decision" where
  "allowlist_allowed pats c =
     (if list_ex (\<lambda>pat. path_Match pat (coordinate.CName c) = Some True) pats then allowed_decision
      else denied ''not-in-allowlist'' (''package '' @ coord_String c @ '' is not in the feed allowlist''))"

definition allowlist_policy :: "string list \<Rightarrow> chain_policy" where
  "allowlist_policy pats =
     \<lparr>CpName = ''allowlist'', CpOnResolve = (\<lambda>_ c. allowlist_allowed pats c), CpOnServe = (\<lambda>_ a. allowlist_allowed pats (ArtCoord a)),
      CpOnPublish = (\<lambda>_ a. allowlist_allowed pats (ArtCoord a))\<rparr>"

subsection \<open>Licenses\<close>

definition license_New :: "options \<Rightarrow> (string list \<times> bool) option" where
  "license_New opts =
     (case pattern_list opts ''deny'' of None \<Rightarrow> None | Some pats \<Rightarrow> map_option (\<lambda>u. (pats, u)) (deny_unknown opts))"

definition matchLicense :: "string \<Rightarrow> string \<Rightarrow> bool" where
  "matchLicense pat license \<longleftrightarrow> path_Match (to_lower pat) (to_lower license) = Some True"

text \<open>\<^verbatim>\<open>strings.Split\<close> at a separator of several bytes, from left to right.\<close>

function split_text :: "string \<Rightarrow> string \<Rightarrow> string list" where
  "split_text sep s =
     (case str_cut s sep of (before, after, found) \<Rightarrow> if found \<and> sep \<noteq> [] then before # split_text sep after else [s])"
  by pat_completeness auto
termination
  by (relation "measure (\<lambda>(sep, s). length s)") (auto dest!: str_cut_found [OF sym] str_cut_found)

declare split_text.simps [simp del]

definition license_check :: "policy_library \<Rightarrow> string list \<times> bool \<Rightarrow> artifact \<Rightarrow> policy_decision" where
  "license_check lib p a =
     (case p of (deny, unknown) \<Rightarrow>
        let declared = trim_space (lookup_text ''license'' (ArtMetadata a))
        in if declared = [] then
             (if unknown then denied ''unknown-license'' (coord_String (ArtCoord a) @ '' declares no license and unknown licenses are denied'')
              else allowed_decision)
           else (case find (\<lambda>part. list_ex (\<lambda>pat. matchLicense pat part) deny) (map trim_space (split_text '' OR '' declared)) of
                   None \<Rightarrow> allowed_decision
                 | Some part \<Rightarrow> denied ''denied-license''
                     (''license '' @ quote lib part @ '' of '' @ coord_String (ArtCoord a) @ '' is denied by this feed'')))"

definition license_policy :: "policy_library \<Rightarrow> string list \<times> bool \<Rightarrow> chain_policy" where
  "license_policy lib p =
     \<lparr>CpName = ''license'', CpOnResolve = (\<lambda>_ _. allowed_decision), CpOnServe = (\<lambda>_ a. license_check lib p a),
      CpOnPublish = (\<lambda>_ a. license_check lib p a)\<rparr>"

subsection \<open>Age\<close>

definition quarantine_New :: "policy_library \<Rightarrow> options \<Rightarrow> (int \<times> bool) option" where
  "quarantine_New lib opts =
     (case map_of opts ''min_age'' of
        Some (OText s) \<Rightarrow>
          (case parse_duration lib s of
             None \<Rightarrow> None
           | Some d \<Rightarrow> if d < 0 then None else map_option (\<lambda>u. (d, u)) (deny_unknown opts))
      | _ \<Rightarrow> None)"

text \<open>The difference of two times is saturated at the range of a duration.\<close>

definition time_Sub :: "int \<Rightarrow> int \<Rightarrow> int" where
  "time_Sub a b = max (- (2 ^ 63)) (min (2 ^ 63 - 1) (a - b))"

definition truncate_minute :: "int \<Rightarrow> int" where
  "truncate_minute d = (if d < 0 then - (- d - - d mod 60000000000) else d - d mod 60000000000)"

definition quarantine_check :: "policy_library \<Rightarrow> int \<Rightarrow> int \<times> bool \<Rightarrow> artifact \<Rightarrow> policy_decision" where
  "quarantine_check lib now p a =
     (case p of (minAge, unknown) \<Rightarrow>
        let raw = lookup_text ''published_at'' (ArtMetadata a); coord = coord_String (ArtCoord a)
        in if raw = [] then
             (if unknown then denied ''unknown-publication-time'' (coord @ '' has no known publication time and unknown ages are denied'')
              else allowed_decision)
           else (case parse_time lib raw of
                   None \<Rightarrow>
                     if unknown then denied ''unknown-publication-time'' (coord @ '' has an unparsable publication time '' @ quote lib raw)
                     else allowed_decision
                 | Some released \<Rightarrow>
                     let age = time_Sub now released
                     in if age < minAge then denied ''quarantined-new-release''
                          (coord @ '' was published '' @ show_duration lib (truncate_minute age) @
                           '' ago; this feed quarantines releases younger than '' @ show_duration lib minAge)
                        else allowed_decision))"

definition quarantine_policy :: "policy_library \<Rightarrow> int \<Rightarrow> int \<times> bool \<Rightarrow> chain_policy" where
  "quarantine_policy lib now p =
     \<lparr>CpName = ''quarantine'', CpOnResolve = (\<lambda>_ _. allowed_decision), CpOnServe = (\<lambda>_ a. quarantine_check lib now p a),
      CpOnPublish = (\<lambda>_ _. allowed_decision)\<rparr>"

subsection \<open>Known vulnerabilities\<close>

record osv_config =
  OvEnforce :: bool
  OvFailOpen :: bool
  OvTTL :: int
  OvURL :: string

definition osv_default :: osv_config where
  "osv_default = \<lparr>OvEnforce = False, OvFailOpen = True, OvTTL = 86400000000000, OvURL = ''https://api.osv.dev/v1/query''\<rparr>"

definition osv_New :: "policy_library \<Rightarrow> options \<Rightarrow> osv_config option" where
  "osv_New lib opts =
     (let mode = text_option opts ''mode''
      in if mode \<noteq> [] \<and> mode \<noteq> ''warn'' \<and> mode \<noteq> ''enforce'' then None
         else
           let p = osv_default\<lparr>OvEnforce := (mode = ''enforce'')\<rparr>
           in case (case map_of opts ''fail_open'' of None \<Rightarrow> Some (OvFailOpen p) | Some (OBool b) \<Rightarrow> Some b | _ \<Rightarrow> None) of
                None \<Rightarrow> None
              | Some open \<Rightarrow>
                  (case (case map_of opts ''cache_ttl'' of
                           None \<Rightarrow> Some (OvTTL p)
                         | Some (OText t) \<Rightarrow> (case parse_duration lib t of None \<Rightarrow> None | Some d \<Rightarrow> if d \<le> 0 then None else Some d)
                         | _ \<Rightarrow> None) of
                     None \<Rightarrow> None
                   | Some ttl \<Rightarrow>
                       Some (p\<lparr>OvFailOpen := open, OvTTL := ttl,
                               OvURL := (if text_option opts ''api_url'' \<noteq> [] then text_option opts ''api_url'' else OvURL p)\<rparr>)))"

record osv_entry =
  OeVulnerable :: bool
  OeIds :: string
  OeExpires :: int

text \<open>The process's own cache and the rows of the shared one with the time they were checked.\<close>

record osv_world =
  OwLocal :: "(string \<times> osv_entry) list"
  OwRows :: "string \<Rightarrow> (string \<times> int) option"
  OwTick :: nat

text \<open>
  The clock, that of the database, whether the database answers the n-th operation (\<open>None\<close> without one), and what the service answers: the
  advisories with whether they are withdrawn, \<open>None\<close> for any failure.
\<close>

record osv_env =
  OenNow :: "nat \<Rightarrow> int"
  OenDbNow :: "nat \<Rightarrow> int"
  OenDb :: "(nat \<Rightarrow> bool) option"
  OenAsk :: "nat \<Rightarrow> string \<Rightarrow> string \<Rightarrow> string \<Rightarrow> (string \<times> bool) list option"

definition encodeVerdict :: "bool \<Rightarrow> string \<Rightarrow> string" where
  "encodeVerdict vulnerable ids = (if \<not> vulnerable then ''clean'' else ''vulnerable|'' @ ids)"

definition decodeVerdict :: "string \<Rightarrow> bool \<times> string" where
  "decodeVerdict v = (if has_prefix v ''vulnerable|'' then (True, drop 11 v) else (False, []))"

definition osv_findings :: "(string \<times> bool) list \<Rightarrow> bool \<times> string" where
  "osv_findings vulns = (let ids = sort (map fst (filter (\<lambda>(_, withdrawn). \<not> withdrawn) vulns)) in (ids \<noteq> [], str_join '','' ids))"

definition osv_query :: "osv_env \<Rightarrow> nat \<Rightarrow> string \<Rightarrow> string \<Rightarrow> string \<Rightarrow> (bool \<times> string) option" where
  "osv_query env t eco pkg version = map_option osv_findings (OenAsk env t eco pkg version)"

definition osv_key :: "string \<Rightarrow> string \<Rightarrow> string \<Rightarrow> string" where
  "osv_key eco pkg version = eco @ [CHR 0x00] @ pkg @ [CHR 0x00] @ version"

definition osv_cacheKey :: "string \<Rightarrow> string \<Rightarrow> string \<Rightarrow> string" where
  "osv_cacheKey eco pkg version = eco @ ''/'' @ pkg @ ''@'' @ version"

definition osv_remember :: "string \<Rightarrow> bool \<times> string \<Rightarrow> int \<Rightarrow> osv_world \<Rightarrow> osv_world" where
  "osv_remember key v expires w =
     w\<lparr>OwLocal := (key, \<lparr>OeVulnerable = fst v, OeIds = snd v, OeExpires = expires\<rparr>) # filter (\<lambda>(k, _). k \<noteq> key) (OwLocal w)\<rparr>"

text \<open>A verdict takes up to six operations: clock, row, clock, service, row, clock.\<close>

definition osv_cached :: "osv_env \<Rightarrow> string \<Rightarrow> osv_world \<Rightarrow> osv_entry option" where
  "osv_cached env key w =
     (case map_of (OwLocal w) key of None \<Rightarrow> None | Some e \<Rightarrow> if OenNow env (OwTick w) < OeExpires e then Some e else None)"

definition osv_row :: "osv_config \<Rightarrow> osv_env \<Rightarrow> string \<Rightarrow> osv_world \<Rightarrow> string option" where
  "osv_row p env ck w =
     (case OenDb env of
        None \<Rightarrow> None
      | Some up \<Rightarrow>
          if \<not> up (OwTick w + 1) then None
          else (case OwRows w ck of
                  None \<Rightarrow> None
                | Some (v, checkedAt) \<Rightarrow> if time_Sub (OenNow env (OwTick w + 2)) checkedAt < OvTTL p then Some v else None))"

definition osv_keep :: "osv_env \<Rightarrow> string \<Rightarrow> bool \<times> string \<Rightarrow> osv_world \<Rightarrow> osv_world" where
  "osv_keep env ck v w =
     (case OenDb env of
        Some up \<Rightarrow>
          if up (OwTick w + 4) then w\<lparr>OwRows := (OwRows w)(ck \<mapsto> (encodeVerdict (fst v) (snd v), OenDbNow env (OwTick w + 4)))\<rparr> else w
      | None \<Rightarrow> w)"

definition osv_verdict :: "osv_config \<Rightarrow> osv_env \<Rightarrow> string \<Rightarrow> string \<Rightarrow> string \<Rightarrow> osv_world \<Rightarrow> (bool \<times> string) option \<times> osv_world" where
  "osv_verdict p env eco pkg version w =
     (let key = osv_key eco pkg version; ck = osv_cacheKey eco pkg version; t = OwTick w; expires = OenNow env (t + 5) + OvTTL p;
          finish = (\<lambda>w. w\<lparr>OwTick := t + 6\<rparr>)
      in case osv_cached env key w of
           Some e \<Rightarrow> (Some (OeVulnerable e, OeIds e), finish w)
         | None \<Rightarrow>
             (case osv_row p env ck w of
                Some v \<Rightarrow> (Some (decodeVerdict v), finish (osv_remember key (decodeVerdict v) expires w))
              | None \<Rightarrow>
                  (case osv_query env (t + 3) eco pkg version of
                     None \<Rightarrow> (None, finish w)
                   | Some v \<Rightarrow> (Some v, finish (osv_remember key v expires (osv_keep env ck v w))))))"

definition ecosystemFor :: "string \<Rightarrow> string" where
  "ecosystemFor format =
     (if format = ''maven'' then ''Maven'' else if format = ''npm'' then ''npm'' else if format = ''nuget'' then ''NuGet''
      else if format = ''composer'' then ''Packagist'' else [])"

definition osv_check :: "osv_config \<Rightarrow> osv_env \<Rightarrow> artifact \<Rightarrow> osv_world \<Rightarrow> policy_decision \<times> osv_world" where
  "osv_check p env a w =
     (let eco = lookup_text ''ecosystem'' (ArtMetadata a); c = ArtCoord a
      in if eco = [] \<or> coordinate.CName c = [] \<or> CVersion c = [] then (allowed_decision, w)
         else (case osv_verdict p env eco (coordinate.CName c) (CVersion c) w of
                 (None, w) \<Rightarrow>
                   (if OvFailOpen p then allowed_decision
                    else denied ''known-vulnerability'' (''vulnerability data unavailable for '' @ coord_String c), w)
               | (Some (vulnerable, ids), w) \<Rightarrow>
                   (if \<not> vulnerable \<or> \<not> OvEnforce p then allowed_decision
                    else denied ''known-vulnerability'' (coord_String c @ '' has known vulnerabilities: '' @ ids), w)))"

definition osv_OnResolve :: "osv_config \<Rightarrow> osv_env \<Rightarrow> coordinate \<Rightarrow> osv_world \<Rightarrow> policy_decision \<times> osv_world" where
  "osv_OnResolve p env c w =
     (if CVersion c = [] then (allowed_decision, w)
      else osv_check p env \<lparr>ArtCoord = c, ArtSize = 0, ArtChecksum = \<lparr>Algo = [], Hex = []\<rparr>,
             ArtMetadata = [(''ecosystem'', ecosystemFor (coordinate.Format c))]\<rparr> w)"

text \<open>\<^verbatim>\<open>OnServe\<close> and \<^verbatim>\<open>OnPublish\<close> are \<^const>\<open>osv_check\<close> itself.\<close>

subsection \<open>How old a verdict can be\<close>

text \<open>
  Several processes share the rows, each with a cache of its own; they ask for verdicts in some order.  A process that
  restarts is one that was not used before.
\<close>

record osv_fleet =
  FlLocal :: "nat \<Rightarrow> (string \<times> osv_entry) list"
  FlRows :: "string \<Rightarrow> (string \<times> int) option"
  FlTick :: nat

type_synonym osv_ask = "nat \<times> string \<times> string \<times> string"

definition osv_turn :: "osv_config \<Rightarrow> osv_env \<Rightarrow> osv_ask \<Rightarrow> osv_fleet \<Rightarrow> (bool \<times> string) option \<times> osv_fleet" where
  "osv_turn p env ask f =
     (case ask of (i, eco, pkg, version) \<Rightarrow>
        (case osv_verdict p env eco pkg version \<lparr>OwLocal = FlLocal f i, OwRows = FlRows f, OwTick = FlTick f\<rparr> of
           (r, w) \<Rightarrow> (r, \<lparr>FlLocal = (FlLocal f)(i := OwLocal w), FlRows = OwRows w, FlTick = OwTick w\<rparr>)))"

definition osv_turns :: "osv_config \<Rightarrow> osv_env \<Rightarrow> osv_ask list \<Rightarrow> osv_fleet" where
  "osv_turns p env asks = fold (\<lambda>a f. snd (osv_turn p env a f)) asks \<lparr>FlLocal = (\<lambda>_. []), FlRows = (\<lambda>_. None), FlTick = 0\<rparr>"

text \<open>Names that cannot run into one another in the keys.\<close>

definition osv_plain :: "osv_ask \<Rightarrow> bool" where
  "osv_plain ask =
     (case ask of (i, eco, pkg, version) \<Rightarrow>
        CHR ''/'' \<notin> set eco \<and> CHR ''@'' \<notin> set version \<and> CHR 0x00 \<notin> set eco \<and> CHR 0x00 \<notin> set pkg)"

text \<open>Clocks that do not go back, a database clock within \<open>S\<close> of them and verdicts that take at most \<open>L\<close>.\<close>

definition osv_clocks :: "osv_env \<Rightarrow> int \<Rightarrow> int \<Rightarrow> bool" where
  "osv_clocks env L S \<longleftrightarrow>
     mono (OenNow env) \<and> (\<forall>n. \<bar>OenDbNow env n - OenNow env n\<bar> \<le> S) \<and> (\<forall>k. OenNow env (6 * k + 5) \<le> OenNow env (6 * k) + L)"

lemma split_at_first: "a @ x # b = c @ x # d \<Longrightarrow> x \<notin> set a \<Longrightarrow> x \<notin> set c \<Longrightarrow> a = c \<and> b = d"
  by (induction a arbitrary: c) (auto simp: Cons_eq_append_conv append_eq_Cons_conv)

lemma osv_key_inj:
  assumes "osv_plain (i, e, p, v)" and "osv_plain (j, e', p', v')" and "osv_key e p v = osv_key e' p' v'"
  shows "e = e' \<and> p = p' \<and> v = v'"
  using assms split_at_first [of e "CHR 0x00" "p @ CHR 0x00 # v" e' "p' @ CHR 0x00 # v'"] split_at_first [of p "CHR 0x00" v p' v']
  by (simp add: osv_key_def osv_plain_def)

lemma osv_cacheKey_inj:
  assumes "osv_plain (i, e, p, v)" and "osv_plain (j, e', p', v')" and "osv_cacheKey e p v = osv_cacheKey e' p' v'"
  shows "e = e' \<and> p = p' \<and> v = v'"
proof -
  have "e @ CHR ''/'' # p @ CHR ''@'' # v = e' @ CHR ''/'' # p' @ CHR ''@'' # v'" using assms(3) by (simp add: osv_cacheKey_def)
  then have e: "e = e'" and r: "p @ CHR ''@'' # v = p' @ CHR ''@'' # v'"
    using split_at_first [of e "CHR ''/''"] assms(1,2) by (auto simp: osv_plain_def)
  have "rev v @ CHR ''@'' # rev p = rev v' @ CHR ''@'' # rev p'" using arg_cong [OF r, of rev] by simp
  then have "rev v = rev v' \<and> rev p = rev p'"
    by (rule split_at_first) (use assms(1,2) in \<open>auto simp: osv_plain_def\<close>)
  then show ?thesis using e by simp
qed

lemma decode_encode: "osv_query env t eco pkg version = Some v \<Longrightarrow> decodeVerdict (encodeVerdict (fst v) (snd v)) = v"
  by (cases v) (auto simp: osv_query_def osv_findings_def Let_def decodeVerdict_def encodeVerdict_def has_prefix_def)

lemma time_Sub_less: "d < 2 ^ 63 \<Longrightarrow> time_Sub a b < d \<Longrightarrow> a - b < d"
  by (auto simp: time_Sub_def max_def min_def split: if_splits)

text \<open>Every cached verdict is one the service gave about that version, and a bound on the time it was asked.\<close>

definition told :: "osv_env \<Rightarrow> nat \<Rightarrow> osv_ask \<Rightarrow> bool \<times> string \<Rightarrow> int \<Rightarrow> bool" where
  "told env t ask v until \<longleftrightarrow>
     (case ask of (i, eco, pkg, version) \<Rightarrow> \<exists>q < t. osv_query env q eco pkg version = Some v \<and> until \<le> OenNow env q)"

definition grounded :: "osv_config \<Rightarrow> osv_env \<Rightarrow> int \<Rightarrow> int \<Rightarrow> osv_fleet \<Rightarrow> bool" where
  "grounded p env L S f \<longleftrightarrow>
     6 dvd FlTick f \<and>
     (\<forall>i a key e. map_of (FlLocal f i) key = Some e \<longrightarrow> osv_plain a \<longrightarrow> (case a of (_, eco, pkg, version) \<Rightarrow> key = osv_key eco pkg version) \<longrightarrow>
        told env (FlTick f) a (OeVulnerable e, OeIds e) (OeExpires e - 2 * OvTTL p - 2 * L - S)) \<and>
     (\<forall>a ck v c. FlRows f ck = Some (v, c) \<longrightarrow> osv_plain a \<longrightarrow> (case a of (_, eco, pkg, version) \<Rightarrow> ck = osv_cacheKey eco pkg version) \<longrightarrow>
        told env (FlTick f) a (decodeVerdict v) (c - L - S))"

lemma osv_cached_Some: "osv_cached env key w = Some e \<Longrightarrow> map_of (OwLocal w) key = Some e \<and> OenNow env (OwTick w) < OeExpires e"
  by (auto simp: osv_cached_def split: option.splits if_splits)

lemma osv_row_Some:
  "osv_row p env ck w = Some v \<Longrightarrow> \<exists>c. OwRows w ck = Some (v, c) \<and> time_Sub (OenNow env (OwTick w + 2)) c < OvTTL p"
  by (auto simp: osv_row_def split: option.splits if_splits)

lemma osv_keep_rows:
  "OwRows (osv_keep env ck v w) = OwRows w \<or>
   OwRows (osv_keep env ck v w) = (OwRows w)(ck \<mapsto> (encodeVerdict (fst v) (snd v), OenDbNow env (OwTick w + 4)))"
  by (auto simp: osv_keep_def split: option.splits)

lemma osv_keep_local [simp]: "OwLocal (osv_keep env ck v w) = OwLocal w"
  by (auto simp: osv_keep_def split: option.splits)

lemma map_of_filter_other: "k \<noteq> key \<Longrightarrow> map_of (filter (\<lambda>(k, _). k \<noteq> key) xs) k = map_of xs k"
  by (induction xs) auto

lemma remember_local:
  "map_of (OwLocal (osv_remember key v x w)) k = (if k = key then Some \<lparr>OeVulnerable = fst v, OeIds = snd v, OeExpires = x\<rparr> else map_of (OwLocal w) k)"
  by (simp add: osv_remember_def map_of_filter_other)

lemma remember_rows [simp]: "OwRows (osv_remember key v x w) = OwRows w"
  by (simp add: osv_remember_def)

lemma osv_verdict_tick: "OwTick (snd (osv_verdict p env eco pkg version w)) = OwTick w + 6"
  by (simp add: osv_verdict_def Let_def split: option.splits)

lemma told_earlier: "told env t a v u \<Longrightarrow> t \<le> t' \<Longrightarrow> u' \<le> u \<Longrightarrow> told env t' a v u'"
  by (auto simp: told_def split: prod.splits) (meson less_le_trans order_trans)

lemma clocks_call:
  assumes "osv_clocks env L S" and "6 dvd t"
  shows "OenNow env t \<le> OenNow env (t + 2)" and "OenNow env (t + 5) \<le> OenNow env t + L" and "OenNow env t \<le> OenNow env (t + 3)"
    and "OenNow env (t + 4) \<le> OenNow env (t + 5)" and "\<bar>OenDbNow env (t + 4) - OenNow env (t + 4)\<bar> \<le> S" and "0 \<le> L" and "0 \<le> S" and "OenNow env t \<le> OenNow env (t + 5)"
proof -
  have m: "mono (OenNow env)" and s: "\<And>n. \<bar>OenDbNow env n - OenNow env n\<bar> \<le> S" and l: "\<And>k. OenNow env (6 * k + 5) \<le> OenNow env (6 * k) + L"
    using assms(1) by (auto simp: osv_clocks_def)
  show b: "OenNow env (t + 5) \<le> OenNow env t + L" using l assms(2) by (auto elim!: dvdE)
  show "OenNow env t \<le> OenNow env (t + 2)" "OenNow env t \<le> OenNow env (t + 3)" "OenNow env t \<le> OenNow env (t + 5)" "OenNow env (t + 4) \<le> OenNow env (t + 5)"
    by (auto intro!: monoD [OF m])
  show "\<bar>OenDbNow env (t + 4) - OenNow env (t + 4)\<bar> \<le> S" by (rule s)
  show "0 \<le> L" using b monoD [OF m, of t "t + 5"] by simp
  show "0 \<le> S" using s [of 0] by linarith
qed

lemma row_told:
  assumes c: "osv_clocks env L S" and g: "grounded p env L S f" and p: "osv_plain (i, eco, pkg, version)" and t: "OvTTL p < 2 ^ 63"
    and r: "osv_row p env (osv_cacheKey eco pkg version) \<lparr>OwLocal = l, OwRows = FlRows f, OwTick = FlTick f\<rparr> = Some v"
  shows "told env (FlTick f) (i, eco, pkg, version) (decodeVerdict v) (OenNow env (FlTick f + 5) - OvTTL p - 2 * L - S)"
proof -
  obtain c' where row: "FlRows f (osv_cacheKey eco pkg version) = Some (v, c')"
      and young: "time_Sub (OenNow env (FlTick f + 2)) c' < OvTTL p"
    using osv_row_Some [OF r] by auto
  have k: "(case (i, eco, pkg, version) of (_, eco', pkg', version') \<Rightarrow> osv_cacheKey eco pkg version = osv_cacheKey eco' pkg' version')" by simp
  have d: "6 dvd FlTick f" and "told env (FlTick f) (i, eco, pkg, version) (decodeVerdict v) (c' - L - S)"
    using g row p k unfolding grounded_def by blast+
  moreover have "OenNow env (FlTick f + 2) - c' < OvTTL p" by (rule time_Sub_less [OF t young])
  ultimately show ?thesis using clocks_call [OF c d] by (elim told_earlier) linarith+
qed

lemma cached_told:
  assumes g: "grounded p env L S f" and p: "osv_plain (i, eco, pkg, version)"
    and r: "osv_cached env (osv_key eco pkg version) \<lparr>OwLocal = FlLocal f i, OwRows = rs, OwTick = FlTick f\<rparr> = Some e"
  shows "told env (FlTick f) (i, eco, pkg, version) (OeVulnerable e, OeIds e) (OenNow env (FlTick f) - 2 * OvTTL p - 2 * L - S)"
proof -
  have e: "map_of (FlLocal f i) (osv_key eco pkg version) = Some e" "OenNow env (FlTick f) < OeExpires e" using osv_cached_Some [OF r] by auto
  have k: "(case (i, eco, pkg, version) of (_, eco', pkg', version') \<Rightarrow> osv_key eco pkg version = osv_key eco' pkg' version')" by simp
  have "told env (FlTick f) (i, eco, pkg, version) (OeVulnerable e, OeIds e) (OeExpires e - 2 * OvTTL p - 2 * L - S)"
    using g e(1) p k unfolding grounded_def by blast
  then show ?thesis using e(2) by (elim told_earlier) simp_all
qed

lemma asked_told:
  assumes "osv_query env (t + 3) eco pkg version = Some v" and c: "osv_clocks env L S" and t: "6 dvd t"
  shows "told env (t + 6) (i, eco, pkg, version) v (OenNow env (t + 5) - L)"
    and "told env (t + 6) (i, eco, pkg, version) v (OenDbNow env (t + 4) - L - S)"
  using assms(1) clocks_call [OF c t] by (auto simp: told_def intro!: exI [of _ "t + 3"])

text \<open>A world that only gained verdicts the service gave.\<close>

lemma grounded_step:
  assumes g: "grounded p env L S f" and a: "osv_plain (i, eco, pkg, version)" and t: "6 dvd t" "FlTick f \<le> t"
    and l: "\<And>key. map_of l key = map_of (FlLocal f i) key \<or>
              (key = osv_key eco pkg version \<and> (\<exists>e. map_of l key = Some e \<and>
                 told env t (i, eco, pkg, version) (OeVulnerable e, OeIds e) (OeExpires e - 2 * OvTTL p - 2 * L - S)))"
    and r: "\<And>ck. rows ck = FlRows f ck \<or>
              (ck = osv_cacheKey eco pkg version \<and> (\<exists>v c. rows ck = Some (v, c) \<and> told env t (i, eco, pkg, version) (decodeVerdict v) (c - L - S)))"
  shows "grounded p env L S \<lparr>FlLocal = (FlLocal f)(i := l), FlRows = rows, FlTick = t\<rparr>"
  unfolding grounded_def
proof (intro conjI allI impI)
  show "6 dvd FlTick \<lparr>FlLocal = (FlLocal f)(i := l), FlRows = rows, FlTick = t\<rparr>" using t(1) by simp
next
  fix j b key e
  assume m: "map_of (FlLocal \<lparr>FlLocal = (FlLocal f)(i := l), FlRows = rows, FlTick = t\<rparr> j) key = Some e" and b: "osv_plain b"
    and k: "case b of (_, eco, pkg, version) \<Rightarrow> key = osv_key eco pkg version"
  have old: "told env t b (OeVulnerable e, OeIds e) (OeExpires e - 2 * OvTTL p - 2 * L - S)" if "map_of (FlLocal f j) key = Some e"
    by (rule told_earlier [OF _ t(2) order_refl]) (use g that b k in \<open>unfold grounded_def, blast\<close>)
  obtain j' eco' pkg' version' where b': "b = (j', eco', pkg', version')" by (cases b)
  show "told env (FlTick \<lparr>FlLocal = (FlLocal f)(i := l), FlRows = rows, FlTick = t\<rparr>) b (OeVulnerable e, OeIds e) (OeExpires e - 2 * OvTTL p - 2 * L - S)"
  proof (cases "map_of (FlLocal f j) key = Some e")
    case False
    then have ij: "j = i" and "map_of l key \<noteq> map_of (FlLocal f i) key" using m by (auto split: if_splits)
    then have kk: "key = osv_key eco pkg version"
        and tt: "told env t (i, eco, pkg, version) (OeVulnerable e, OeIds e) (OeExpires e - 2 * OvTTL p - 2 * L - S)"
      using l [of key] m by auto
    have "eco' = eco \<and> pkg' = pkg \<and> version' = version" using osv_key_inj [OF b [unfolded b'] a] k b' kk by simp
    then show ?thesis using tt by (simp add: b' told_def)
  qed (simp add: old)
next
  fix b ck v c
  assume m: "FlRows \<lparr>FlLocal = (FlLocal f)(i := l), FlRows = rows, FlTick = t\<rparr> ck = Some (v, c)" and b: "osv_plain b"
    and k: "case b of (_, eco, pkg, version) \<Rightarrow> ck = osv_cacheKey eco pkg version"
  have old: "told env t b (decodeVerdict v) (c - L - S)" if "FlRows f ck = Some (v, c)"
    by (rule told_earlier [OF _ t(2) order_refl]) (use g that b k in \<open>unfold grounded_def, blast\<close>)
  obtain j' eco' pkg' version' where b': "b = (j', eco', pkg', version')" by (cases b)
  show "told env (FlTick \<lparr>FlLocal = (FlLocal f)(i := l), FlRows = rows, FlTick = t\<rparr>) b (decodeVerdict v) (c - L - S)"
  proof (cases "FlRows f ck = Some (v, c)")
    case False
    then have kk: "ck = osv_cacheKey eco pkg version" and tt: "told env t (i, eco, pkg, version) (decodeVerdict v) (c - L - S)"
      using r [of ck] m by auto
    have "eco' = eco \<and> pkg' = pkg \<and> version' = version" using osv_cacheKey_inj [OF b [unfolded b'] a] k b' kk by simp
    then show ?thesis using tt by (simp add: b' told_def)
  qed (simp add: old)
qed

lemma turn_grounded:
  assumes c: "osv_clocks env L S" and g: "grounded p env L S f" and a: "osv_plain (i, eco, pkg, version)"
    and ttl: "0 < OvTTL p" "OvTTL p < 2 ^ 63"
    and turn: "osv_turn p env (i, eco, pkg, version) f = (r, f')"
  shows "grounded p env L S f'"
    and "\<And>v. r = Some v \<Longrightarrow> told env (FlTick f + 6) (i, eco, pkg, version) v (OenNow env (FlTick f) - 2 * OvTTL p - 2 * L - S)"
proof -
  define w where "w = \<lparr>OwLocal = FlLocal f i, OwRows = FlRows f, OwTick = FlTick f\<rparr>"
  define t where "t = FlTick f"
  have d: "6 dvd t" using g by (simp add: grounded_def t_def)
  note cc = clocks_call [OF c d]
  let ?key = "osv_key eco pkg version" and ?ck = "osv_cacheKey eco pkg version" and ?a = "(i, eco, pkg, version)"
  have f': "f' = \<lparr>FlLocal = (FlLocal f)(i := OwLocal (snd (osv_verdict p env eco pkg version w))),
                   FlRows = OwRows (snd (osv_verdict p env eco pkg version w)), FlTick = t + 6\<rparr>"
      and r: "r = fst (osv_verdict p env eco pkg version w)"
    using turn osv_verdict_tick [of p env eco pkg version w] by (auto simp: osv_turn_def w_def t_def split: prod.splits)
  let ?V = "osv_verdict p env eco pkg version w"
  let ?L = "\<lambda>l. \<forall>key. map_of l key = map_of (FlLocal f i) key \<or>
              (key = ?key \<and> (\<exists>e. map_of l key = Some e \<and> told env (t + 6) ?a (OeVulnerable e, OeIds e) (OeExpires e - 2 * OvTTL p - 2 * L - S)))"
  let ?R = "\<lambda>rows. \<forall>ck. rows ck = FlRows f ck \<or>
              (ck = ?ck \<and> (\<exists>v c. rows ck = Some (v, c) \<and> told env (t + 6) ?a (decodeVerdict v) (c - L - S)))"
  have d': "6 dvd t + 6" "FlTick f \<le> t + 6" using d by (simp_all add: t_def)
  have "?L (OwLocal (snd ?V)) \<and> ?R (OwRows (snd ?V)) \<and> (\<forall>v. fst ?V = Some v \<longrightarrow> told env (t + 6) ?a v (OenNow env t - 2 * OvTTL p - 2 * L - S))"
  proof (cases "osv_cached env ?key w")
    case (Some e)
    then have "?V = (Some (OeVulnerable e, OeIds e), w\<lparr>OwTick := t + 6\<rparr>)" by (simp add: osv_verdict_def Let_def w_def t_def)
    moreover have "told env (t + 6) ?a (OeVulnerable e, OeIds e) (OenNow env t - 2 * OvTTL p - 2 * L - S)"
      by (rule told_earlier [OF cached_told [OF g a Some [unfolded w_def]]]) (simp_all add: t_def)
    ultimately show ?thesis by (simp add: w_def t_def)
  next
    case fresh: None
    show ?thesis
    proof (cases "osv_row p env ?ck w")
      case (Some v)
      have v: "told env t ?a (decodeVerdict v) (OenNow env (t + 5) - OvTTL p - 2 * L - S)"
        using row_told [OF c g a ttl(2) Some [unfolded w_def]] by (simp add: t_def)
      have w: "?V = (Some (decodeVerdict v), (osv_remember ?key (decodeVerdict v) (OenNow env (t + 5) + OvTTL p) w)\<lparr>OwTick := t + 6\<rparr>)"
        using fresh Some by (simp add: osv_verdict_def Let_def w_def t_def)
      have "told env (t + 6) ?a (decodeVerdict v) (OenNow env t - 2 * OvTTL p - 2 * L - S)"
          "told env (t + 6) ?a (decodeVerdict v) (OenNow env (t + 5) + OvTTL p - 2 * OvTTL p - 2 * L - S)"
        by (rule told_earlier [OF v]; use cc ttl in \<open>simp; linarith\<close>)+
      then show ?thesis unfolding w by (simp add: remember_local) (simp add: w_def)
    next
      case None
      show ?thesis
      proof (cases "osv_query env (t + 3) eco pkg version")
        case None': None
        then have "?V = (None, w\<lparr>OwTick := t + 6\<rparr>)" using fresh None by (simp add: osv_verdict_def Let_def w_def t_def)
        then show ?thesis by (simp add: w_def)
      next
        case (Some v)
        have w: "?V = (Some v, (osv_remember ?key v (OenNow env (t + 5) + OvTTL p) (osv_keep env ?ck v w))\<lparr>OwTick := t + 6\<rparr>)"
          using fresh None Some by (simp add: osv_verdict_def Let_def w_def t_def)
        have v: "told env (t + 6) ?a v (OenNow env t - 2 * OvTTL p - 2 * L - S)" "told env (t + 6) ?a v (OenNow env (t + 5) + OvTTL p - 2 * OvTTL p - 2 * L - S)"
          by (rule told_earlier [OF asked_told(1) [OF Some c d]]; use cc ttl in linarith)+
        have "?R (OwRows (osv_keep env ?ck v w))"
          using osv_keep_rows [of env ?ck v w] decode_encode [OF Some] asked_told(2) [OF Some c d, of i] by (auto simp: w_def t_def split: if_splits)
        then show ?thesis using v unfolding w by (simp add: remember_local) (simp add: w_def)
      qed
    qed
  qed
  then have "grounded p env L S f' \<and> (\<forall>v. r = Some v \<longrightarrow> told env (t + 6) ?a v (OenNow env t - 2 * OvTTL p - 2 * L - S))"
    unfolding f' r using grounded_step [OF g a d', of "OwLocal (snd ?V)" "OwRows (snd ?V)"] by blast
  then show "grounded p env L S f'" and "\<And>v. r = Some v \<Longrightarrow> told env (FlTick f + 6) ?a v (OenNow env (FlTick f) - 2 * OvTTL p - 2 * L - S)"
    by (auto simp: t_def)
qed

lemma turns_grounded:
  assumes "osv_clocks env L S" and "0 < OvTTL p" and "OvTTL p < 2 ^ 63" and "list_all osv_plain asks"
  shows "grounded p env L S (osv_turns p env asks)" and "FlTick (osv_turns p env asks) = 6 * length asks"
proof -
  have "grounded p env L S (osv_turns p env asks) \<and> FlTick (osv_turns p env asks) = 6 * length asks"
    using assms(4)
  proof (induction asks rule: rev_induct)
    case Nil
    then show ?case by (simp add: osv_turns_def grounded_def)
  next
    case (snoc a asks)
    obtain i eco pkg version where a: "a = (i, eco, pkg, version)" by (cases a)
    let ?f = "osv_turns p env asks"
    have g: "grounded p env L S ?f" and t: "FlTick ?f = 6 * length asks" and pl: "osv_plain (i, eco, pkg, version)"
      using snoc a by auto
    have s: "osv_turns p env (asks @ [a]) = snd (osv_turn p env (i, eco, pkg, version) ?f)" by (simp add: osv_turns_def a)
    have "grounded p env L S (snd (osv_turn p env (i, eco, pkg, version) ?f))"
      by (rule turn_grounded(1) [OF assms(1) g pl assms(2,3) prod.collapse [symmetric]])
    moreover have "FlTick (snd (osv_turn p env (i, eco, pkg, version) ?f)) = FlTick ?f + 6"
      using osv_verdict_tick [of p env eco pkg version] by (simp add: osv_turn_def split: prod.splits) (metis osv_world.select_convs(3) snd_conv)
    ultimately show ?case using t s by simp
  qed
  then show "grounded p env L S (osv_turns p env asks)" and "FlTick (osv_turns p env asks) = 6 * length asks" by auto
qed

text \<open>
  Two replicas and a time to live of eleven ticks: the service learns of a vulnerability after the tenth operation.  The
  first replica asked before that; the second one finds the row just before it expires.
\<close>

definition example_osv :: osv_config where
  "example_osv = osv_default\<lparr>OvEnforce := True, OvTTL := 11\<rparr>"

definition example_osv_env :: osv_env where
  "example_osv_env =
     \<lparr>OenNow = int, OenDbNow = int, OenDb = Some (\<lambda>_. True),
      OenAsk = (\<lambda>n _ _ _. Some (if n < 10 then [] else [(''CVE-1'', False)]))\<rparr>"

definition example_osv_asks :: "osv_ask list" where
  "example_osv_asks = [(0, ''npm'', ''left'', ''1.0''), (0, ''npm'', ''right'', ''1.0''), (1, ''npm'', ''left'', ''1.0''), (0, ''npm'', ''right'', ''1.0'')]"

lemma example_osv_stale:
  "fst (osv_turn example_osv example_osv_env (1, ''npm'', ''left'', ''1.0'') (osv_turns example_osv example_osv_env example_osv_asks)) = Some (False, [])
   \<and> list_all osv_plain (example_osv_asks @ [(1, ''npm'', ''left'', ''1.0'')])"
  by code_simp

lemma example_osv_clocks: "osv_clocks example_osv_env 5 0"
  by (simp add: osv_clocks_def example_osv_env_def mono_def)

text \<open>
  C40: Whatever verdict a replica acts on is one the vulnerability service gave about exactly that package version, and
  it was asked at most two times to live ago, apart from the time two verdicts take and the skew of the database clock:
  caches never mix packages up and never keep a verdict for longer, whatever the order in which replicas ask.
\<close>

theorem osv_verdict_is_recent:
  assumes "osv_clocks env L S" and "0 < OvTTL p" and "OvTTL p < 2 ^ 63"
    and "list_all osv_plain (asks @ [(i, eco, pkg, version)])"
    and "fst (osv_turn p env (i, eco, pkg, version) (osv_turns p env asks)) = Some v"
  shows "\<exists>q < 6 * length asks + 6. osv_query env q eco pkg version = Some v \<and>
           OenNow env (6 * length asks) - OenNow env q \<le> 2 * OvTTL p + 2 * L + S"
proof -
  have pl: "list_all osv_plain asks" "osv_plain (i, eco, pkg, version)" using assms(4) by simp_all
  note f = turns_grounded [OF assms(1-3) pl(1)]
  have "told env (6 * length asks + 6) (i, eco, pkg, version) v (OenNow env (6 * length asks) - 2 * OvTTL p - 2 * L - S)"
    using turn_grounded(2) [OF assms(1) f(1) pl(2) assms(2,3) prod.collapse [symmetric] assms(5)] by (simp add: f(2))
  then show ?thesis by (auto simp: told_def)
qed

theorem osv_verdict_is_recent_witness:
  "\<exists>q < 30. osv_query example_osv_env q ''npm'' ''left'' ''1.0'' = Some (False, []) \<and> 24 - int q \<le> 32"
  using osv_verdict_is_recent [OF example_osv_clocks, of example_osv example_osv_asks 1 "''npm''" "''left''" "''1.0''" "(False, [])"]
    example_osv_stale
  by (simp add: example_osv_def example_osv_asks_def example_osv_env_def)

text \<open>
  The configured time to live does not bound the age of a verdict: a replica that finds a row of the shared cache
  keeps it for a whole time to live of its own.  With a time to live of eleven, enforcing, a replica still calls a version
  clean twenty-one ticks after the service was last asked about it, although the service has reported a vulnerability for
  all but the first ten.
\<close>

theorem osv_verdict_outlives_its_ttl:
  "\<exists>p env f v. OvTTL p = 11 \<and> OvEnforce p \<and> f = osv_turns p env example_osv_asks \<and> OenNow env (FlTick f) = 24 \<and>
     fst (osv_turn p env (1, ''npm'', ''left'', ''1.0'') f) = Some (False, []) \<and>
     osv_query env 3 ''npm'' ''left'' ''1.0'' = Some (False, []) \<and> OenNow env 3 = 3 \<and>
     osv_query env 10 ''npm'' ''left'' ''1.0'' = Some (True, v) \<and> osv_query env 27 ''npm'' ''left'' ''1.0'' = Some (True, v)"
proof (intro exI conjI)
  show "OvTTL example_osv = 11" "OvEnforce example_osv" by (simp_all add: example_osv_def)
  show "osv_turns example_osv example_osv_env example_osv_asks = osv_turns example_osv example_osv_env example_osv_asks" ..
  show "OenNow example_osv_env (FlTick (osv_turns example_osv example_osv_env example_osv_asks)) = 24"
    using turns_grounded(2) [OF example_osv_clocks, of example_osv example_osv_asks] example_osv_stale
    by (simp add: example_osv_def example_osv_asks_def example_osv_env_def)
  show "fst (osv_turn example_osv example_osv_env (1, ''npm'', ''left'', ''1.0'') (osv_turns example_osv example_osv_env example_osv_asks)) =
      Some (False, [])"
    using example_osv_stale by simp
  show "osv_query example_osv_env 3 ''npm'' ''left'' ''1.0'' = Some (False, [])" "OenNow example_osv_env 3 = 3"
      "osv_query example_osv_env 10 ''npm'' ''left'' ''1.0'' = Some (True, ''CVE-1'')"
      "osv_query example_osv_env 27 ''npm'' ''left'' ''1.0'' = Some (True, ''CVE-1'')"
    by (simp_all add: osv_query_def osv_findings_def example_osv_env_def Let_def)
qed

end
