(* ===== verification/Policy_Enforcement.thy ===== *)
theory Policy_Enforcement
  imports Server_Safety Policies
begin

text \<open>
  The configured policies seen from the request: what the chain of \<^verbatim>\<open>src/policies\<close> lets a feed answer and what it lets
  a caller publish.
\<close>

text \<open>An artifact with these properties has nothing the list policies and the age gate object to.\<close>

definition listed :: "string list \<Rightarrow> coordinate \<Rightarrow> bool" where
  "listed pats c \<longleftrightarrow> list_ex (\<lambda>pat. path_Match pat (coordinate.CName c) = Some True) pats"

definition licensed :: "string list \<times> bool \<Rightarrow> strmap \<Rightarrow> bool" where
  "licensed p m \<longleftrightarrow>
     (let declared = trim_space (lookup_text ''license'' m)
      in if declared = [] then \<not> snd p
         else list_all (\<lambda>part. list_all (\<lambda>pat. \<not> matchLicense pat (trim_space part)) (fst p)) (split_text '' OR '' declared))"

definition old_enough :: "policy_library \<Rightarrow> int \<Rightarrow> int \<times> bool \<Rightarrow> strmap \<Rightarrow> bool" where
  "old_enough lib now p m \<longleftrightarrow>
     (case (if lookup_text ''published_at'' m = [] then None else parse_time lib (lookup_text ''published_at'' m)) of
        None \<Rightarrow> \<not> snd p
      | Some released \<Rightarrow> fst p \<le> time_Sub now released)"

lemma allowlist_decides: "PdAllow (allowlist_allowed pats c) \<longleftrightarrow> listed pats c"
  by (simp add: allowlist_allowed_def listed_def allowed_decision_def denied_def)

lemma find_Some_member: "find P xs = Some x \<Longrightarrow> x \<in> set xs \<and> P x"
  by (induction xs) (auto split: if_splits)

lemma license_decides: "PdAllow (license_check lib p a) \<longleftrightarrow> licensed p (ArtMetadata a)"
  by (cases p, auto simp: license_check_def licensed_def allowed_decision_def denied_def Let_def find_None_iff list_all_iff list_ex_iff
       split: option.splits dest!: find_Some_member, blast)

lemma age_decides: "PdAllow (quarantine_check lib now p a) \<longleftrightarrow> old_enough lib now p (ArtMetadata a)"
  by (cases p) (auto simp: quarantine_check_def old_enough_def allowed_decision_def denied_def Let_def split: option.splits)

lemma error_is_error: "400 \<le> AnStatus (writeError site e d h)" "400 \<le> AnStatus (writeErrorText site e d h)"
    "400 \<le> AnStatus (writeAccessError site i dd h)"
  by (cases e; simp add: writeError_def writeErrorText_def writeAccessError_def finishError_def Let_def)+

lemma served_content:
  assumes "serve_content env fr i meth q w = Some (a, w')" and "AnStatus a < 400"
  shows "\<exists>res v m v'. serve_feed env fr q w = Some (Inr res, v) \<and> artifactMetadata env fr q v = Some (m, v') \<and>
           PdAllow (OnServe (RtChain fr) i (artifact_of q res m)) \<and> (AnStatus a \<noteq> 302 \<longrightarrow> AnBody a = VBody res)"
proof -
  obtain x v where x: "serve_feed env fr q w = Some (x, v)" using assms(1) by (auto simp: serve_content_def split: option.splits)
  obtain res where "x = Inr res" using assms error_is_error(1) [of "SvSite env"] by (cases x) (auto simp: serve_content_def x not_le [symmetric])
  with x have s: "serve_feed env fr q w = Some (Inr res, v)" by simp
  obtain m v' where m: "artifactMetadata env fr q v = Some (m, v')"
    using assms(1) by (auto simp: serve_content_def s split: option.splits)
  have "PdAllow (OnServe (RtChain fr) i (artifact_of q res m)) \<and> (AnStatus a \<noteq> 302 \<longrightarrow> AnBody a = VBody res)"
    using assms error_is_error(1) [of "SvSite env" ForbiddenErr]
    by (auto simp: serve_content_def s m Let_def tryRedirect_def streamResult_def not_le [symmetric] split: if_splits option.splits)
  then show ?thesis using s m by blast
qed

lemma chain_passed:
  assumes "feed_chain env fr i r w = Some (a, w')" and "AnStatus a < 400" and "SmParse (RtModule fr) r = Inr q"
  shows "PdAllow (OnResolve (RtChain fr) i (ICoord q))"
    and "IKind q \<notin> {IntentSynthetic, IntentSearch} \<Longrightarrow> \<exists>v. serve_content env fr i (HrMethod r) q v = Some (a, w')"
proof -
  note e = error_is_error [of "SvSite env"]
  have "PdAllow (OnResolve (RtChain fr) i (ICoord q)) \<and>
      (IKind q \<notin> {IntentSynthetic, IntentSearch} \<longrightarrow> (\<exists>v. serve_content env fr i (HrMethod r) q v = Some (a, w')))"
    using assms e
    by (auto simp: feed_chain_def Let_def serveSearch_def not_le [symmetric] split: if_splits prod.splits option.splits)
  then show "PdAllow (OnResolve (RtChain fr) i (ICoord q))"
    and "IKind q \<notin> {IntentSynthetic, IntentSearch} \<Longrightarrow> \<exists>v. serve_content env fr i (HrMethod r) q v = Some (a, w')"
    by auto
qed

lemma handler_passed:
  assumes "feedHandler env fr identify r w = Some (a, w')" and "AnStatus a < 400"
  shows "\<exists>i. feed_chain env fr i r w = Some (a, w')"
proof -
  obtain i where i: "identify (adoptDeclaredCredential (SmCredentials (RtModule fr)) (HrHeaders r)) = Inr i"
    using assms error_is_error(1) [of "SvSite env"]
    by (auto simp: feedHandler_def Let_def withChallenge_def not_le [symmetric] split: sum.splits if_splits)
  then obtain b where b: "feed_chain env fr i r w = Some (b, w')" "a = withChallenge (case SmChallenge (RtModule fr) of None \<Rightarrow> [] | Some f \<Rightarrow> f (RtFeed fr)) b"
    using assms(1) by (auto simp: feedHandler_def Let_def)
  have "a = b" using assms(2) unfolding b(2) by (auto simp: withChallenge_def split: if_splits)
  then show ?thesis using b(1) by blast
qed

text \<open>
  C16: A feed answers, with content or a redirect, only what its policies let pass.  With an allow list in its chain every answer
  is about a listed package.  Artifacts and metadata documents come with the metadata the format module read, and none
  of the alternatives of the licence declared there is denied and the release is as old as the age gate asks; where the licence or
  the publication time is unknown the policy was told to allow that.
\<close>

theorem feed_policies_are_enforced:
  assumes run: "feedHandler env fr identify r w = Some (a, w')" and ok: "AnStatus a < 400" and q: "SmParse (RtModule fr) r = Inr q"
  shows "(\<forall>pats. allowlist_policy pats \<in> set (RtChain fr) \<longrightarrow> listed pats (ICoord q)) \<and>
     (IKind q \<in> {IntentSynthetic, IntentSearch} \<or>
      (\<exists>res v1 v2 m v3. serve_feed env fr q v1 = Some (Inr res, v2) \<and> artifactMetadata env fr q v2 = Some (m, v3) \<and>
         (AnStatus a \<noteq> 302 \<longrightarrow> AnBody a = VBody res) \<and>
         (\<forall>lib p. license_policy lib p \<in> set (RtChain fr) \<longrightarrow> licensed p m) \<and>
         (\<forall>lib now p. quarantine_policy lib now p \<in> set (RtChain fr) \<longrightarrow> old_enough lib now p m)))"
proof (intro conjI)
  from handler_passed [OF run ok] obtain i where i: "feed_chain env fr i r w = Some (a, w')" by blast
  note c = chain_passed [OF i ok q]
  have "CpOnResolve (allowlist_policy pats) i (ICoord q) = allowlist_allowed pats (ICoord q)" for pats by (simp add: allowlist_policy_def)
  then show "\<forall>pats. allowlist_policy pats \<in> set (RtChain fr) \<longrightarrow> listed pats (ICoord q)"
    using c(1) by (metis OnResolve_def decide_allows list_all_iff allowlist_decides)
  show "IKind q \<in> {IntentSynthetic, IntentSearch} \<or>
      (\<exists>res v1 v2 m v3. serve_feed env fr q v1 = Some (Inr res, v2) \<and> artifactMetadata env fr q v2 = Some (m, v3) \<and>
         (AnStatus a \<noteq> 302 \<longrightarrow> AnBody a = VBody res) \<and>
         (\<forall>lib p. license_policy lib p \<in> set (RtChain fr) \<longrightarrow> licensed p m) \<and>
         (\<forall>lib now p. quarantine_policy lib now p \<in> set (RtChain fr) \<longrightarrow> old_enough lib now p m))"
  proof (cases "IKind q \<in> {IntentSynthetic, IntentSearch}")
    case False
    from c(2) [OF this] obtain v1 where "serve_content env fr i (HrMethod r) q v1 = Some (a, w')" by blast
    from served_content [OF this ok] obtain res v2 m v3
      where s: "serve_feed env fr q v1 = Some (Inr res, v2)" "artifactMetadata env fr q v2 = Some (m, v3)" "AnStatus a \<noteq> 302 \<longrightarrow> AnBody a = VBody res"
        and "PdAllow (OnServe (RtChain fr) i (artifact_of q res m))" by blast
    then have pass: "PdAllow (CpOnServe p i (artifact_of q res m))" if "p \<in> set (RtChain fr)" for p
      using that by (simp add: OnServe_def decide_allows list_all_iff)
    have "licensed p m" if "license_policy lib p \<in> set (RtChain fr)" for lib p
      using pass [OF that] by (simp add: license_policy_def license_decides artifact_of_def)
    moreover have "old_enough lib now p m" if "quarantine_policy lib now p \<in> set (RtChain fr)" for lib now p
      using pass [OF that] by (simp add: quarantine_policy_def age_decides artifact_of_def)
    ultimately show ?thesis using s by blast
  qed simp
qed

text \<open>A feed with all three policies in front of the artifact \<^verbatim>\<open>n\<close>.\<close>

definition example_library :: policy_library where
  "example_library = \<lparr>parse_duration = (\<lambda>_. Some 0), parse_time = (\<lambda>_. Some 0), show_duration = (\<lambda>_. ''0s''), quote = (\<lambda>s. s)\<rparr>"

definition example_policies :: "chain_policy list" where
  "example_policies =
     [allowlist_policy [''x*'', ''[m-o]''], license_policy example_library ([''AGPL-*''], False), quarantine_policy example_library 100 (10, False)]"

definition example_strict_feed :: read_runtime where
  "example_strict_feed = (example_read_feed ''a'')\<lparr>RtChain := example_policies\<rparr>"

lemma example_strict_read:
  "case feedHandler (example_serving (\<lambda>_ _ _. Servable)) example_strict_feed (\<lambda>_. Inr example_reader) example_get example_server of
     None \<Rightarrow> False | Some (a, _) \<Rightarrow> AnStatus a = 200 \<and> AnBody a = ''abc''"
  by code_simp

theorem feed_policies_are_enforced_witness:
  "listed [''x*'', ''[m-o]''] (ICoord (QIntent (example_request IntentArtifact []))) \<and>
   (\<exists>(res :: served) (m :: strmap). VBody res = ''abc'' \<and> licensed ([''AGPL-*''], False) m \<and> old_enough example_library 100 (10, False) m)"
proof -
  let ?q = "QIntent (example_request IntentArtifact [])"
  obtain a w' where run: "feedHandler (example_serving (\<lambda>_ _ _. Servable)) example_strict_feed (\<lambda>_. Inr example_reader) example_get example_server = Some (a, w')"
    and a: "AnStatus a = 200" "AnBody a = ''abc''"
    using example_strict_read by (auto split: option.splits)
  have q: "SmParse (RtModule example_strict_feed) example_get = Inr ?q" "IKind ?q \<notin> {IntentSynthetic, IntentSearch}"
    by (simp_all add: example_strict_feed_def example_read_facts(1) example_request_def) (simp add: example_read_feed_def example_read_module_def example_request_def)?
  have c: "set (RtChain example_strict_feed) = set example_policies" by (simp add: example_strict_feed_def)
  have p: "allowlist_policy [''x*'', ''[m-o]''] \<in> set example_policies" "license_policy example_library ([''AGPL-*''], False) \<in> set example_policies"
      "quarantine_policy example_library 100 (10, False) \<in> set example_policies"
    by (simp_all add: example_policies_def)
  have "AnStatus a < 400" "AnStatus a \<noteq> 302" using a by simp_all
  then show ?thesis using feed_policies_are_enforced [OF run _ q(1)] q(2) p a(2) unfolding c by metis
qed

end
