(* ===== verification/Semver.thy ===== *)
theory Semver
  imports Decimal
begin

text \<open>
  The order of versions that the npm and Helm modules share, \<^verbatim>\<open>src/modules/internal/semver/semver.go\<close>.  Segments
  of digits are compared as 64-bit integers, which wrap; other segments, and pre-releases, as text.
\<close>

primrec atoi_loop :: "int \<Rightarrow> string \<Rightarrow> int option" where
  "atoi_loop n [] = Some n"
| "atoi_loop n (c # s) = (if is_digit c then atoi_loop (wrap64 (n * 10 + int (digit_value c))) s else None)"

definition atoi :: "string \<Rightarrow> int option" where
  "atoi s = (if s = [] then None else atoi_loop 0 s)"

definition strings_Compare :: "string \<Rightarrow> string \<Rightarrow> int" where
  "strings_Compare a b = (if a = b then 0 else if a < b then - 1 else 1)"

definition compareNumericSegment :: "string \<Rightarrow> string \<Rightarrow> int" where
  "compareNumericSegment a b =
     (case (atoi a, atoi b) of
        (Some an, Some bn) \<Rightarrow> if an < bn then - 1 else if an > bn then 1 else 0
      | _ \<Rightarrow> strings_Compare a b)"

definition segmentAt :: "string list \<Rightarrow> nat \<Rightarrow> string" where
  "segmentAt segs i = (if i < length segs then segs ! i else ''0'')"

text \<open>The loop returns the first comparison that is not zero.\<close>

definition compareCore :: "string list \<Rightarrow> string list \<Rightarrow> int" where
  "compareCore as bs =
     (case find (\<lambda>i. compareNumericSegment (segmentAt as i) (segmentAt bs i) \<noteq> 0) [0..<max (length as) (length bs)] of
        None \<Rightarrow> 0
      | Some i \<Rightarrow> compareNumericSegment (segmentAt as i) (segmentAt bs i))"

definition Compare :: "string \<Rightarrow> string \<Rightarrow> int" where
  "Compare a b =
     (case str_cut a ''-'' of (aCore, aPre, _) \<Rightarrow>
        case str_cut b ''-'' of (bCore, bPre, _) \<Rightarrow>
          let c = compareCore (split_on (CHR ''.'') aCore) (split_on (CHR ''.'') bCore)
          in if c \<noteq> 0 then c
             else if aPre = [] \<and> bPre = [] then 0
             else if aPre = [] then 1
             else if bPre = [] then - 1
             else strings_Compare aPre bPre)"

subsection \<open>Numeric versions\<close>

definition core_of :: "string \<Rightarrow> string list" where
  "core_of v = split_on (CHR ''.'') (fst (str_cut v ''-''))"

definition pre_of :: "string \<Rightarrow> string" where
  "pre_of v = fst (snd (str_cut v ''-''))"

definition numeric :: "string \<Rightarrow> bool" where
  "numeric v \<longleftrightarrow> list_all (\<lambda>s. atoi s \<noteq> None) (core_of v)"

text \<open>The numbers of a version, followed by zeros.\<close>

definition numbers :: "string \<Rightarrow> nat \<Rightarrow> int" where
  "numbers v i = the (atoi (segmentAt (core_of v) i))"

definition first_less :: "(nat \<Rightarrow> int) \<Rightarrow> (nat \<Rightarrow> int) \<Rightarrow> bool" where
  "first_less f g \<longleftrightarrow> (\<exists>i. (\<forall>j < i. f j = g j) \<and> f i < g i)"

lemma first_less_irrefl: "\<not> first_less f f"
  by (simp add: first_less_def)

lemma first_less_trans: 
  assumes "first_less f g" and "first_less g h"
  shows "first_less f h"
proof -
  obtain i where i: "\<forall>j < i. f j = g j" "f i < g i" using assms(1) unfolding first_less_def by blast
  obtain k where k: "\<forall>j < k. g j = h j" "g k < h k" using assms(2) unfolding first_less_def by blast
  have "\<forall>j < min i k. f j = h j" using i(1) k(1) by simp
  moreover have "f (min i k) < h (min i k)"
    using i k by (cases i k rule: linorder_cases) (auto simp: min_def)
  ultimately show ?thesis unfolding first_less_def by blast
qed

lemma first_less_asym: "\<not> (first_less f g \<and> first_less g f)"
  using first_less_trans first_less_irrefl by blast

lemma atoi_zero: "atoi ''0'' = Some 0"
  by (simp add: atoi_def is_digit_def digit_value_def wrap64_def less_eq_char_def)

lemma numeric_segment: "numeric v \<Longrightarrow> atoi (segmentAt (core_of v) i) = Some (numbers v i)"
  by (auto simp: numeric_def numbers_def segmentAt_def atoi_zero list_all_length)

lemma numbers_beyond: "length (core_of v) \<le> i \<Longrightarrow> numbers v i = 0"
  by (simp add: numbers_def segmentAt_def atoi_zero)

lemma segment_sign:
  assumes "numeric a" "numeric b"
  shows "compareNumericSegment (segmentAt (core_of a) i) (segmentAt (core_of b) i) = sgn (numbers a i - numbers b i)"
  by (simp add: compareNumericSegment_def numeric_segment assms sgn_if)

lemma compareCore_numbers:
  assumes a: "numeric a" and b: "numeric b"
  shows "compareCore (core_of a) (core_of b) =
    (if first_less (numbers a) (numbers b) then - 1 else if first_less (numbers b) (numbers a) then 1 else 0)" (is "?c = _")
    and "compareCore (core_of a) (core_of b) = 0 \<longleftrightarrow> numbers a = numbers b"
proof -
  let ?n = "max (length (core_of a)) (length (core_of b))"
  let ?P = "\<lambda>i. numbers a i \<noteq> numbers b i"
  have P: "(\<lambda>i. sgn (numbers a i - numbers b i) \<noteq> 0) = ?P"
    by (simp add: fun_eq_iff sgn_0_0)
  have c: "?c = (case find ?P [0..<?n] of None \<Rightarrow> 0 | Some i \<Rightarrow> sgn (numbers a i - numbers b i))"
    unfolding compareCore_def segment_sign [OF a b] P ..
  have both: "?c = (if first_less (numbers a) (numbers b) then - 1 else if first_less (numbers b) (numbers a) then 1 else 0) \<and>
      (?c = 0 \<longleftrightarrow> numbers a = numbers b)"
  proof (cases "find ?P [0..<?n]")
    case None
    then have "numbers a i = numbers b i" for i
      using numbers_beyond [of a i] numbers_beyond [of b i] by (cases "i < ?n") (auto simp: find_None_iff)
    then have "numbers a = numbers b" by (rule ext)
    then show ?thesis using c None by (simp add: first_less_irrefl)
  next
    case (Some i)
    then have i: "i < ?n" "?P i" "\<forall>j < i. \<not> ?P j"
      by (auto simp: find_Some_iff)
    show ?thesis
    proof (cases "numbers a i < numbers b i")
      case True
      then have "first_less (numbers a) (numbers b)" using i unfolding first_less_def by blast
      then show ?thesis using c Some True i(2) by (auto simp: sgn_if)
    next
      case False
      then have gt: "numbers b i < numbers a i" using i(2) by simp
      then have l: "first_less (numbers b) (numbers a)" using i(3) unfolding first_less_def by (intro exI [of _ i]) simp
      then have "\<not> first_less (numbers a) (numbers b)" using first_less_trans first_less_irrefl by blast
      with l gt show ?thesis using c Some i(2) by (auto simp: sgn_if)
    qed
  qed
  then show "?c = (if first_less (numbers a) (numbers b) then - 1 else if first_less (numbers b) (numbers a) then 1 else 0)"
    and "?c = 0 \<longleftrightarrow> numbers a = numbers b" by blast+
qed

text \<open>A release comes after its pre-releases.\<close>

definition pre_le :: "string \<Rightarrow> string \<Rightarrow> bool" where
  "pre_le p q \<longleftrightarrow> q = [] \<or> p \<noteq> [] \<and> p \<le> q"

lemma Compare_eq:
  assumes "numeric a" "numeric b"
  shows "Compare a b =
    (if first_less (numbers a) (numbers b) then - 1 else if first_less (numbers b) (numbers a) then 1
     else if pre_of a = [] \<and> pre_of b = [] then 0 else if pre_of a = [] then 1 else if pre_of b = [] then - 1
     else strings_Compare (pre_of a) (pre_of b))"
proof -
  have "Compare a b = (let c = compareCore (core_of a) (core_of b)
      in if c \<noteq> 0 then c else if pre_of a = [] \<and> pre_of b = [] then 0 else if pre_of a = [] then 1 else if pre_of b = [] then - 1
         else strings_Compare (pre_of a) (pre_of b))"
    unfolding Compare_def core_of_def pre_of_def case_prod_beta ..
  then show ?thesis using compareCore_numbers(1) [OF assms] by (simp add: Let_def)
qed

lemma Compare_le:
  assumes "numeric a" "numeric b"
  shows "Compare a b \<le> 0 \<longleftrightarrow> first_less (numbers a) (numbers b) \<or> numbers a = numbers b \<and> pre_le (pre_of a) (pre_of b)"
  using Compare_eq [OF assms] compareCore_numbers [OF assms] first_less_irrefl
  by (auto simp: pre_le_def strings_Compare_def split: if_splits)

text \<open>
  on versions whose dotted core consists of numbers, however long, comparing is a total preorder: it is
  reflexive, the two directions agree, and it is transitive, so sorting by it and taking the greatest do not
  depend on the order in which versions are listed.
\<close>

theorem compare_orders_numeric_versions:
  assumes "numeric a" and "numeric b" and "numeric c"
  shows "Compare a a = 0 \<and> (Compare a b \<le> 0 \<or> Compare b a \<le> 0) \<and> (Compare a b < 0 \<longleftrightarrow> Compare b a > 0) \<and>
    (Compare a b \<le> 0 \<and> Compare b c \<le> 0 \<longrightarrow> Compare a c \<le> 0)"
proof -
  have total: "first_less (numbers x) (numbers y) \<or> numbers x = numbers y \<or> first_less (numbers y) (numbers x)"
    if "numeric x" "numeric y" for x y
    using compareCore_numbers [OF that] by (auto split: if_splits)
  have "Compare a a = 0" by (simp add: Compare_def compareCore_def compareNumericSegment_def strings_Compare_def split: prod.splits option.splits)
  moreover have le: "Compare a b \<le> 0 \<or> Compare b a \<le> 0"
    using total [OF assms(1,2)] by (auto simp: Compare_le assms pre_le_def)
  moreover have "Compare a b < 0 \<longleftrightarrow> Compare b a > 0"
  proof -
    consider "numbers a = numbers b" | "first_less (numbers a) (numbers b)" "\<not> first_less (numbers b) (numbers a)" "numbers a \<noteq> numbers b"
      | "first_less (numbers b) (numbers a)" "\<not> first_less (numbers a) (numbers b)" "numbers a \<noteq> numbers b"
      using total [OF assms(1,2)] first_less_asym first_less_irrefl by metis
    then show ?thesis
      by cases (auto simp: Compare_eq assms(1,2) first_less_irrefl strings_Compare_def)
  qed
  moreover have "Compare a c \<le> 0" if "Compare a b \<le> 0" "Compare b c \<le> 0"
  proof -
    have "first_less (numbers a) (numbers b) \<or> numbers a = numbers b \<and> pre_le (pre_of a) (pre_of b)"
      "first_less (numbers b) (numbers c) \<or> numbers b = numbers c \<and> pre_le (pre_of b) (pre_of c)"
      using that Compare_le assms by blast+
    then have "first_less (numbers a) (numbers c) \<or> numbers a = numbers c \<and> pre_le (pre_of a) (pre_of c)"
      using first_less_trans [of "numbers a" "numbers b" "numbers c"] by (auto simp: pre_le_def)
    then show ?thesis using Compare_le [OF assms(1,3)] by blast
  qed
  ultimately show ?thesis by blast
qed

theorem compare_orders_numeric_versions_witness:
  "Compare ''1.9.0'' ''1.10.0'' \<le> 0 \<and> Compare ''1.10.0'' ''1.10.0-rc'' > 0 \<and> Compare ''1.9.0'' ''2'' \<le> 0"
proof -
  have n: "numeric ''1.9.0''" "numeric ''1.10.0''" "numeric ''2''" and c: "Compare ''1.9.0'' ''1.10.0'' \<le> 0 \<and> Compare ''1.10.0'' ''2'' \<le> 0"
    and p: "Compare ''1.10.0'' ''1.10.0-rc'' > 0" by code_simp+
  show ?thesis using compare_orders_numeric_versions [OF n] c p by blast
qed

text \<open>
  with other segments it is not an order.  A segment that is not a number is compared as text with
  numbers, which closes a cycle of three versions, each before the next.  Build metadata takes part in the
  comparison, and the numbers of a pre-release are compared as text.
\<close>

theorem comparison_departs_from_semver:
  "Compare ''1.10.0'' ''1.1a.0'' < 0 \<and> Compare ''1.1a.0'' ''1.9.0'' < 0 \<and> Compare ''1.9.0'' ''1.10.0'' < 0 \<and>
   Compare ''1.0.0+build'' ''1.0.0'' > 0 \<and> Compare ''1.0.0-rc.10'' ''1.0.0-rc.9'' < 0"
  by code_simp

end
